(* ===== verification/Eno_Prelude.thy ===== *)
theory Eno_Prelude
  imports Main "HOL-Library.State_Monad"
begin

text \<open>
  Shared vocabulary of the development: Go values that HOL does not have as such (maps
  that may be nil, 64-bit integers that wrap), weakest preconditions for the state monad
  the effectful code is written in, and the collections of rules the components add to.
\<close>

section \<open>Rule collections\<close>

named_theorems wp_intros \<open>weakest-precondition rules, one per kind of step\<close>
named_theorems emits_intros \<open>rules for the events a computation may emit\<close>
named_theorems follows_intros \<open>rules for calls allowed by the history before them\<close>
named_theorems go_simps \<open>unfolding of the Go helper values\<close>

section \<open>Go maps with string keys\<close>

text \<open>
  A Go map variable is nil or refers to a map. Reading a missing key, or any key of a nil
  map, gives the zero value; the two-value form also says whether the key was there.
\<close>

type_synonym smap = "string \<rightharpoonup> string"
type_synonym gomap = "smap option"

definition gm_lookup :: "gomap \<Rightarrow> string \<Rightarrow> string option" where
  "gm_lookup m k = (case m of None \<Rightarrow> None | Some f \<Rightarrow> f k)"

definition gm_index :: "gomap \<Rightarrow> string \<Rightarrow> string" where
  "gm_index m k = (case gm_lookup m k of None \<Rightarrow> '''' | Some v \<Rightarrow> v)"

lemma gm_lookup_simps [simp, go_simps]:
  "gm_lookup None k = None"
  "gm_lookup (Some f) k = f k"
  by (simp_all add: gm_lookup_def)

lemma gm_index_eq_nonempty:
  assumes "v \<noteq> ''''"
  shows "gm_index m k = v \<longleftrightarrow> gm_lookup m k = Some v"
  using assms by (auto simp: gm_index_def split: option.splits)

section \<open>64-bit integers\<close>

text \<open>
  Go's \<^verbatim>\<open>int\<close> has 64 bits on the operator's platforms and wraps around; \<open>wrap64\<close> is
  the two's complement value of an unbounded sum or difference.
\<close>

definition wrap64 :: "int \<Rightarrow> int" where
  "wrap64 x = (x + 2 ^ 63) mod 2 ^ 64 - 2 ^ 63"

definition int64 :: "int \<Rightarrow> bool" where
  "int64 x \<longleftrightarrow> - (2 ^ 63) \<le> x \<and> x < 2 ^ 63"

lemma wrap64_id: "int64 x \<Longrightarrow> wrap64 x = x"
  by (simp add: wrap64_def int64_def)

lemma int64_wrap64: "int64 (wrap64 x)"
proof -
  have "0 \<le> (x + 2 ^ 63) mod (2 ^ 64 :: int)" and "(x + 2 ^ 63) mod (2 ^ 64 :: int) < 2 ^ 64"
    by simp_all
  then show ?thesis by (simp add: wrap64_def int64_def)
qed

section \<open>Weakest preconditions of state computations\<close>

text \<open>
  \<open>wp m Q w\<close>: running \<open>m\<close> from \<open>w\<close> ends in a result and a state that satisfy \<open>Q\<close>. All
  computations of the model return, so this is total correctness.
\<close>

definition wp :: "('w, 'a) state \<Rightarrow> ('a \<Rightarrow> 'w \<Rightarrow> bool) \<Rightarrow> 'w \<Rightarrow> bool" where
  "wp m Q w \<longleftrightarrow> Q (fst (run_state m w)) (snd (run_state m w))"

lemma wpI: "(\<And>r w'. run_state m w = (r, w') \<Longrightarrow> Q r w') \<Longrightarrow> wp m Q w"
  by (cases "run_state m w") (simp add: wp_def)

lemma wpD: "wp m Q w \<Longrightarrow> run_state m w = (r, w') \<Longrightarrow> Q r w'"
  by (simp add: wp_def)

lemma wp_return [simp]: "wp (State_Monad.return x) Q w \<longleftrightarrow> Q x w"
  by (simp add: wp_def)

lemma wp_bind [simp]: "wp (State_Monad.bind m f) Q w \<longleftrightarrow> wp m (\<lambda>x. wp (f x) Q) w"
  by (simp add: wp_def split: prod.splits)

lemma wp_mono: "wp m Q w \<Longrightarrow> (\<And>r w'. Q r w' \<Longrightarrow> R r w') \<Longrightarrow> wp m R w"
  by (simp add: wp_def)

lemma wp_conj: "wp m Q w \<Longrightarrow> wp m R w \<Longrightarrow> wp m (\<lambda>r w'. Q r w' \<and> R r w') w"
  by (simp add: wp_def)

lemma wp_if [wp_intros]:
  "(b \<Longrightarrow> wp m Q w) \<Longrightarrow> (\<not> b \<Longrightarrow> wp n Q w) \<Longrightarrow> wp (if b then m else n) Q w"
  by simp

lemma wp_case_sum [wp_intros]:
  "(\<And>e. x = Inl e \<Longrightarrow> wp (f e) Q w) \<Longrightarrow> (\<And>y. x = Inr y \<Longrightarrow> wp (g y) Q w) \<Longrightarrow>
   wp (case x of Inl e \<Rightarrow> f e | Inr y \<Rightarrow> g y) Q w"
  by (cases x) simp_all

lemma wp_case_option [wp_intros]:
  "(x = None \<Longrightarrow> wp f Q w) \<Longrightarrow> (\<And>y. x = Some y \<Longrightarrow> wp (g y) Q w) \<Longrightarrow>
   wp (case x of None \<Rightarrow> f | Some y \<Rightarrow> g y) Q w"
  by (cases x) simp_all

lemma wp_case_prod [wp_intros]:
  "(\<And>a b. x = (a, b) \<Longrightarrow> wp (f a b) Q w) \<Longrightarrow> wp (case x of (a, b) \<Rightarrow> f a b) Q w"
  by (cases x) simp

lemma wp_let [wp_intros]: "wp (f x) Q w \<Longrightarrow> wp (let y = x in f y) Q w"
  by simp

section \<open>Lists\<close>

lemma append_split_elem:
  assumes "xs @ ys = pre @ e # post"
  shows "(\<exists>post'. xs = pre @ e # post') \<or> (\<exists>pre'. pre = xs @ pre' \<and> ys = pre' @ e # post)"
  using assms
proof (induction xs arbitrary: pre)
  case (Cons x xs)
  then show ?case by (cases pre) auto
qed simp

lemma find_SomeD: "List.find P xs = Some x \<Longrightarrow> x \<in> set xs \<and> P x"
  by (induction xs) (auto split: if_splits)

lemma find_Some_split:
  "List.find P xs = Some x \<Longrightarrow> \<exists>ys zs. xs = ys @ x # zs \<and> P x \<and> (\<forall>y \<in> set ys. \<not> P y)"
proof (induction xs)
  case Nil
  then show ?case by simp
next
  case (Cons a xs)
  show ?case
  proof (cases "P a")
    case True
    with Cons.prems have "a # xs = [] @ x # xs \<and> P x" by simp
    then show ?thesis by fastforce
  next
    case False
    with Cons.prems Cons.IH obtain ys zs
      where "xs = ys @ x # zs" "P x" "\<forall>y \<in> set ys. \<not> P y" by auto
    with False show ?thesis by (intro exI [of _ "a # ys"] exI [of _ zs]) simp
  qed
qed

end
