(* ===== verification/Pool_Size.thy ===== *)
theory Pool_Size
  imports Eno_Prelude
begin

text \<open>
  \<^verbatim>\<open>helpers/pool.go\<close>: how many namespaces a pool needs to create (positive) or drop
  (negative). The integers are Go's 64-bit \<^verbatim>\<open>int\<close>.
\<close>

definition IsPoolAtLimit :: "int \<Rightarrow> int \<Rightarrow> bool" where
  "IsPoolAtLimit currentSize sizeLimit \<longleftrightarrow> currentSize = sizeLimit"

definition CalculateNamespaceQuantityDelta :: "int option \<Rightarrow> int \<Rightarrow> int \<Rightarrow> int \<Rightarrow> int \<Rightarrow> int" where
  "CalculateNamespaceQuantityDelta poolSizeLimit psize namespacesReady namespacesCreating namespacesReserved =
     (let currentNamespaceQuantity = wrap64 (wrap64 (namespacesReady + namespacesCreating) + namespacesReserved);
          currentNamespaceQueue = wrap64 (namespacesReady + namespacesCreating)
      in case poolSizeLimit of
           None \<Rightarrow> wrap64 (psize - currentNamespaceQueue)
         | Some sizeLimit \<Rightarrow>
             (if wrap64 (sizeLimit - currentNamespaceQuantity) < wrap64 (psize - currentNamespaceQueue)
              then wrap64 (sizeLimit - currentNamespaceQuantity)
              else wrap64 (psize - currentNamespaceQueue)))"

section \<open>The sizing contract\<close>

text \<open>
  What the pool controller relies on: on counts and limits for which 64-bit arithmetic does
  not wrap, the delta is the smaller of what the size still wants and what the limit leaves.
\<close>

definition sane_sizes :: "int option \<Rightarrow> int \<Rightarrow> int \<Rightarrow> int \<Rightarrow> int \<Rightarrow> bool" where
  "sane_sizes limit psize ready creating reserved \<longleftrightarrow>
     0 \<le> ready \<and> 0 \<le> creating \<and> 0 \<le> reserved \<and>
     ready + creating + reserved < 2 ^ 62 \<and> \<bar>psize\<bar> < 2 ^ 62 \<and>
     (case limit of None \<Rightarrow> True | Some l \<Rightarrow> \<bar>l\<bar> < 2 ^ 62)"

locale size_policy =
  fixes delta :: "int option \<Rightarrow> int \<Rightarrow> int \<Rightarrow> int \<Rightarrow> int \<Rightarrow> int"
  assumes delta_no_limit:
      "sane_sizes None n r c v \<Longrightarrow> delta None n r c v = n - (r + c)"
    and delta_limit:
      "sane_sizes (Some l) n r c v \<Longrightarrow> delta (Some l) n r c v = min (l - (r + c + v)) (n - (r + c))"
begin

definition within :: "int option \<Rightarrow> int \<Rightarrow> bool" where
  "within limit held \<longleftrightarrow> (case limit of None \<Rightarrow> True | Some l \<Rightarrow> held \<le> l)"

lemma fill_fits:
  assumes "sane_sizes limit n r c v" and "0 \<le> k" "k \<le> delta limit n r c v"
  shows "r + c + k \<le> n" "within limit (r + c + v + k)"
  using assms by (cases limit; simp add: within_def delta_no_limit delta_limit)+

lemma fill_maximal:
  assumes "sane_sizes limit n r c v" and "delta limit n r c v < k"
  shows "n < r + c + k \<or> \<not> within limit (r + c + v + k)"
  using assms by (cases limit) (auto simp: within_def delta_no_limit delta_limit)

lemma delta_nonneg_iff:
  assumes "sane_sizes limit n r c v"
  shows "0 \<le> delta limit n r c v \<longleftrightarrow> r + c \<le> n \<and> within limit (r + c + v)"
  using assms by (cases limit) (auto simp: within_def delta_no_limit delta_limit)

end

lemma sane_sizes_no_wrap:
  assumes "sane_sizes limit n r c v"
  shows "wrap64 (r + c) = r + c" "wrap64 (r + c + v) = r + c + v"
    "wrap64 (n - (r + c)) = n - (r + c)"
  using assms by (auto simp: sane_sizes_def int64_def abs_less_iff intro!: wrap64_id)

lemma sane_limit_no_wrap:
  assumes "sane_sizes (Some l) n r c v"
  shows "wrap64 (l - (r + c + v)) = l - (r + c + v)"
  using assms by (auto simp: sane_sizes_def int64_def abs_less_iff intro!: wrap64_id)

interpretation pool_size: size_policy CalculateNamespaceQuantityDelta
  by unfold_locales
    (simp_all add: CalculateNamespaceQuantityDelta_def Let_def sane_sizes_no_wrap
      sane_limit_no_wrap min_def)

section \<open>Properties\<close>

text \<open>
  The delta that \<^verbatim>\<open>CalculateNamespaceQuantityDelta\<close> computes, when the arithmetic does
  not wrap: what is missing to the size, or what is left below the limit if that is less.
\<close>

theorem delta_is_min:
  assumes "sane_sizes limit psize ready creating reserved"
  shows "CalculateNamespaceQuantityDelta limit psize ready creating reserved =
    (case limit of
       None \<Rightarrow> psize - (ready + creating)
     | Some l \<Rightarrow> min (l - (ready + creating + reserved)) (psize - (ready + creating)))"
  using assms by (cases limit) (simp_all add: pool_size.delta_no_limit pool_size.delta_limit)

theorem delta_is_min_witness:
  "sane_sizes (Some 6) 5 1 1 3 \<and> CalculateNamespaceQuantityDelta (Some 6) 5 1 1 3 = 1"
proof -
  have "sane_sizes (Some 6) 5 1 1 3" by (simp add: sane_sizes_def)
  with delta_is_min [of "Some 6" 5 1 1 3] show ?thesis by simp
qed

text \<open>
  C31. A positive delta is the largest number of namespaces a pool may create: that many keep
  ready and creating ones within the size and all of them within the limit, and one more
  would exceed one of the two.
\<close>

theorem fill_is_safe_and_maximal:
  assumes "sane_sizes limit psize ready creating reserved"
    and "0 < CalculateNamespaceQuantityDelta limit psize ready creating reserved"
  shows "let d = CalculateNamespaceQuantityDelta limit psize ready creating reserved in
    ready + creating + d \<le> psize \<and> (\<forall>l. limit = Some l \<longrightarrow> ready + creating + reserved + d \<le> l) \<and>
    (psize < ready + creating + (d + 1) \<or>
     (\<exists>l. limit = Some l \<and> l < ready + creating + reserved + (d + 1)))"
proof -
  let ?d = "CalculateNamespaceQuantityDelta limit psize ready creating reserved"
  show ?thesis
    using pool_size.fill_fits [OF assms(1), of ?d] pool_size.fill_maximal [OF assms(1), of "?d + 1"]
      assms(2)
    by (auto simp: Let_def pool_size.within_def split: option.splits)
qed

theorem fill_is_safe_and_maximal_witness:
  "0 < CalculateNamespaceQuantityDelta (Some 6) 5 1 1 3 \<and>
   1 + 1 + CalculateNamespaceQuantityDelta (Some 6) 5 1 1 3 \<le> (5 :: int)"
proof -
  have s: "sane_sizes (Some 6) 5 1 1 3" by (simp add: sane_sizes_def)
  then have p: "0 < CalculateNamespaceQuantityDelta (Some 6) 5 1 1 3"
    by (simp add: pool_size.delta_limit)
  with fill_is_safe_and_maximal [OF s p] show ?thesis by (simp add: Let_def)
qed

text \<open>
  The delta is negative exactly when the pool holds more ready and creating namespaces
  than its size or more namespaces than its limit; so a pool within both is never shrunk.
\<close>

theorem shrink_iff_over:
  assumes "sane_sizes limit psize ready creating reserved"
  shows "CalculateNamespaceQuantityDelta limit psize ready creating reserved < 0 \<longleftrightarrow>
    psize < ready + creating \<or> (\<exists>l. limit = Some l \<and> l < ready + creating + reserved)"
  using pool_size.delta_nonneg_iff [OF assms]
  by (auto simp: pool_size.within_def split: option.splits)

theorem shrink_iff_over_witness:
  "CalculateNamespaceQuantityDelta (Some 4) 3 2 1 2 < 0"
proof -
  have "sane_sizes (Some 4) 3 2 1 2" by (simp add: sane_sizes_def)
  from shrink_iff_over [OF this] show ?thesis by simp
qed

text \<open>Outside that range the subtraction wraps and the limit no longer binds.\<close>

lemma limit_wraps: "CalculateNamespaceQuantityDelta (Some (- (2 ^ 63))) 5 0 0 1 = 5"
  by (simp add: CalculateNamespaceQuantityDelta_def wrap64_def)

end
