(* ===== verification/Api_Types.thy ===== *)
theory Api_Types
  imports Eno_Prelude
begin

text \<open>
  The objects the operator reads and writes. \<^verbatim>\<open>k8sobj\<close> holds the embedded
  \<^verbatim>\<open>metav1.TypeMeta\<close> and \<^verbatim>\<open>metav1.ObjectMeta\<close>; every kind extends it, as the Go structs
  embed them. The CRDs are \<^verbatim>\<open>apis/cloud.redhat.com/v1alpha1\<close>; of the foreign kinds only
  the fields the operator uses are kept, a payload it copies unread is one opaque field.
\<close>

section \<open>Errors\<close>

text \<open>
  An API error carries the reason that \<^verbatim>\<open>k8serr.IsNotFound\<close>, \<^verbatim>\<open>k8serr.IsAlreadyExists\<close> and
  \<^verbatim>\<open>apimeta.IsNoMatchError\<close> test; \<open>Errorf\<close> is \<^verbatim>\<open>fmt.Errorf\<close> with a wrapped error
  (which may be nil), and the text stands for the message.
\<close>

datatype reason = NotFound | AlreadyExists | Conflict | NoMatch | OtherReason

datatype gerr = ApiError reason | Errorf string "gerr option"

definition IsNotFound :: "gerr \<Rightarrow> bool" where
  "IsNotFound e \<longleftrightarrow> e = ApiError NotFound"

definition IsAlreadyExists :: "gerr \<Rightarrow> bool" where
  "IsAlreadyExists e \<longleftrightarrow> e = ApiError AlreadyExists"

definition IsNoMatchError :: "gerr \<Rightarrow> bool" where
  "IsNoMatchError e \<longleftrightarrow> e = ApiError NoMatch"

text \<open>A call that may also panic (nil pointer, write to a nil map).\<close>

datatype 'a outcome = Returned 'a | Panicked

section \<open>Object metadata\<close>

text \<open>
  Instants are nanoseconds since Go's zero time (January 1 of year 1), so \<open>0\<close> is the time
  for which \<^verbatim>\<open>IsZero\<close> holds; durations are nanoseconds.
\<close>

type_synonym time = int
type_synonym duration = int

definition IsZero :: "time \<Rightarrow> bool" where
  "IsZero t \<longleftrightarrow> t = 0"

record owner_ref =
  rAPIVersion :: string
  rKind :: string
  rName :: string
  rUID :: string
  rController :: "bool option"

record k8sobj =
  tAPIVersion :: string
  tKind :: string
  mName :: string
  mNamespace :: string
  mUID :: string
  mResourceVersion :: string
  mLabels :: gomap
  mAnnotations :: gomap
  mOwnerReferences :: "owner_ref list"
  mFinalizers :: "string list"
  mCreationTimestamp :: time
  mDeletionTimestamp :: "time option"

definition zero_meta :: k8sobj where
  "zero_meta = \<lparr>tAPIVersion = '''', tKind = '''', mName = '''', mNamespace = '''', mUID = '''',
     mResourceVersion = '''', mLabels = None, mAnnotations = None, mOwnerReferences = [],
     mFinalizers = [], mCreationTimestamp = 0, mDeletionTimestamp = None\<rparr>"

text \<open>\<^verbatim>\<open>DeletionTimestamp.IsZero()\<close> on a pointer: nil or the zero time.\<close>

definition deletion_is_zero :: "'a k8sobj_scheme \<Rightarrow> bool" where
  "deletion_is_zero x \<longleftrightarrow> (case mDeletionTimestamp x of None \<Rightarrow> True | Some t \<Rightarrow> IsZero t)"

section \<open>Foreign kinds\<close>

type_synonym namespace = k8sobj
type_synonym project_request = k8sobj
type_synonym cluster = k8sobj
type_synonym rosa_machine_pool = k8sobj

record clowdenv_spec =
  TargetNamespace :: string
  WebMode :: string
  IngressClass :: string
  clowdenvPayload :: string

record condition =
  condType :: string
  condStatus :: string

record clowdenv = k8sobj +
  ceSpec :: clowdenv_spec
  ceHostname :: string
  ceConditions :: "condition list"

record frontend_spec =
  feHostname :: string
  feSSO :: string
  feIngressClass :: string
  feGenerateNavJSON :: bool
  feEnableAkamaiCacheBust :: bool
  feDefaultReplicas :: "int option"

record frontendenv = k8sobj +
  feSpec :: frontend_spec

record service = k8sobj +
  svcClusterIP :: string
  svcClusterIPs :: "string list"
  svcPayload :: string

record secret = k8sobj +
  secretPayload :: string

record limit_range = k8sobj +
  lrPayload :: string

record resource_quota = k8sobj +
  rqPayload :: string

record subject =
  subAPIGroup :: string
  subKind :: string
  subName :: string
  subNamespace :: string

record role_ref =
  roleAPIGroup :: string
  roleKind :: string
  roleName :: string

record role_binding = k8sobj +
  rbRoleRef :: role_ref
  rbSubjects :: "subject list"

text \<open>
  Entries of the list that \<^verbatim>\<open>unstructured.NestedSlice(obj, "status", "conditions")\<close> gives:
  maps from strings to values, or anything else.
\<close>

datatype ujson = UString string | UMap "(string \<times> ujson) list" | UOther

record ucluster = k8sobj +
  uConditions :: "ujson list"

section \<open>NamespacePool\<close>

record secrets_data =
  sdName :: string
  sdDestName :: string

record team =
  teamName :: string
  teamSecrets :: "secrets_data list"

record pool_spec =
  psSize :: int
  psSizeLimit :: "int option"
  psLocal :: bool
  psClowdEnvironment :: "clowdenv_spec option"
  psDefaultSecretSourceNamespace :: string
  psLimitRange :: limit_range
  psResourceQuotas :: "resource_quota list"
  psDescription :: string
  psTeams :: "team list"

record pool_status =
  poolReady :: int
  poolCreating :: int
  poolReserved :: int

record pool = k8sobj +
  poolSpec :: pool_spec
  poolStatus :: pool_status

section \<open>NamespaceReservation\<close>

record reservation_spec =
  rsDuration :: "string option"
  rsRequester :: string
  rsTeam :: string
  rsPool :: string
  rsSecretSourceNamespace :: string

record reservation_status =
  rsExpiration :: time
  rsState :: string
  rsNamespace :: string
  rsStatusPool :: string

record reservation = k8sobj +
  resSpec :: reservation_spec
  resStatus :: reservation_status

section \<open>Owner references\<close>

definition TruePtr :: "bool option" where
  "TruePtr = Some True"

definition Pool_MakeOwnerReference :: "pool \<Rightarrow> owner_ref" where
  "Pool_MakeOwnerReference i =
     \<lparr>rAPIVersion = tAPIVersion i, rKind = tKind i, rName = mName i, rUID = mUID i,
      rController = TruePtr\<rparr>"

definition Reservation_MakeOwnerReference :: "reservation \<Rightarrow> owner_ref" where
  "Reservation_MakeOwnerReference i =
     \<lparr>rAPIVersion = tAPIVersion i, rKind = tKind i, rName = mName i, rUID = mUID i,
      rController = TruePtr\<rparr>"

text \<open>The reference without controller flag that the helpers put on what belongs to a namespace.\<close>

definition namespace_owner :: "namespace \<Rightarrow> owner_ref" where
  "namespace_owner ns =
     \<lparr>rAPIVersion = tAPIVersion ns, rKind = tKind ns, rName = mName ns, rUID = mUID ns,
      rController = None\<rparr>"

end
