(* ===== verification/Collectors.thy ===== *)
theory Collectors
  imports Api_Types
begin

text \<open>
  \<^verbatim>\<open>metrics.go\<close>: the Prometheus collectors with their labels, and the form of the calls by which
  the operator updates them, with the collector, the labels and the operation that stand at the
  place of the call.
\<close>

section \<open>The collectors\<close>

text \<open>A vector of gauges, histograms with their buckets, or counters; buckets are whole here.\<close>

datatype vec_kind = GaugeVec | HistogramVec "nat list" | CounterVec

record collector =
  coKind :: vec_kind
  coName :: string
  coHelp :: string
  coLabels :: "string list"

definition totalFailedPoolReservationsCountMetrics :: collector where
  "totalFailedPoolReservationsCountMetrics = \<lparr>coKind = GaugeVec,
     coName = ''failed_pool_reservations_total'',
     coHelp = ''Total failed reservations from each pool'',
     coLabels = [''pool'']\<rparr>"

definition averageRequestedDurationMetrics :: collector where
  "averageRequestedDurationMetrics = \<lparr>coKind = HistogramVec [1, 2, 4, 8, 24, 48, 168, 336],
     coName = ''namespace_reservation_duration_average'',
     coHelp = ''Average duration for namespace reservations (In hours)'',
     coLabels = [''controller'', ''pool'']\<rparr>"

definition averageNamespaceCreationMetrics :: collector where
  "averageNamespaceCreationMetrics = \<lparr>coKind = HistogramVec [1, 2, 3, 4, 5, 7, 14, 28, 56, 112, 224],
     coName = ''namespace_creation_average_seconds'',
     coHelp = ''Average time namespace creation occurs'' @ [CHR 0x27],
     coLabels = [''pool'']\<rparr>"

definition averageReservationToDeploymentMetrics :: collector where
  "averageReservationToDeploymentMetrics = \<lparr>
     coKind = HistogramVec [1, 2, 3, 4, 5, 7, 14, 28, 56, 112, 224],
     coName = ''average_time_reservation_to_deployment_seconds'',
     coHelp = ''Average time it takes from reservation to deployment in milliseconds'',
     coLabels = [''controller'', ''pool'']\<rparr>"

definition activeReservationTotalMetrics :: collector where
  "activeReservationTotalMetrics = \<lparr>coKind = GaugeVec,
     coName = ''active_reservation_total'',
     coHelp = ''Total active reservations'',
     coLabels = [''controller'']\<rparr>"

definition enoVersion :: collector where
  "enoVersion = \<lparr>coKind = GaugeVec,
     coName = ''eno_version'',
     coHelp = ''ENOVersion 1 if present, 0 if not'',
     coLabels = [''version'']\<rparr>"

definition capiCleanupDurationMetrics :: collector where
  "capiCleanupDurationMetrics = \<lparr>coKind = GaugeVec,
     coName = ''capi_cleanup_duration_seconds'',
     coHelp = ''Time elapsed since namespace entered CAPI cleanup state (deletion timestamp to now)'',
     coLabels = [''namespace'', ''reservation'']\<rparr>"

definition reservationsByRequesterTotalMetrics :: collector where
  "reservationsByRequesterTotalMetrics = \<lparr>coKind = CounterVec,
     coName = ''reservations_by_requester_total'',
     coHelp = ''Total number of namespace reservations by requester and pool'',
     coLabels = [''requester'', ''pool'']\<rparr>"

lemmas collector_defs = totalFailedPoolReservationsCountMetrics_def
  averageRequestedDurationMetrics_def averageNamespaceCreationMetrics_def
  averageReservationToDeploymentMetrics_def activeReservationTotalMetrics_def enoVersion_def
  capiCleanupDurationMetrics_def reservationsByRequesterTotalMetrics_def

text \<open>The arguments of \<^verbatim>\<open>metrics.Registry.MustRegister\<close> in \<^verbatim>\<open>init\<close>.\<close>

definition registered_collectors :: "collector list" where
  "registered_collectors =
     [totalFailedPoolReservationsCountMetrics,
      averageRequestedDurationMetrics,
      averageNamespaceCreationMetrics,
      averageReservationToDeploymentMetrics,
      activeReservationTotalMetrics,
      enoVersion,
      capiCleanupDurationMetrics,
      reservationsByRequesterTotalMetrics]"

section \<open>Calls on a collector\<close>

text \<open>
  \<^verbatim>\<open>c.With(prometheus.Labels{...}).Inc()\<close>, \<^verbatim>\<open>.Set(v)\<close> or \<^verbatim>\<open>.Observe(v)\<close>, and
  \<^verbatim>\<open>c.DeleteLabelValues(vs...)\<close>. The value is a \<^verbatim>\<open>float64\<close> in the code; here it is kept as what it
  is computed from: a length, or a duration read in hours or in seconds.
\<close>

datatype metric_value = Count nat | Hours duration | Seconds duration

datatype vec_op = Inc | SetTo metric_value | Observe metric_value

datatype metric =
    With collector "(string \<times> string) list" vec_op
  | DeleteLabelValues collector "string list"

text \<open>
  What the client library demands: \<^verbatim>\<open>With\<close> panics unless the names are exactly the declared
  labels, positional values must be as many as the labels, counters only go up, gauges can be
  set, histograms observe; a histogram cannot be made unless its buckets increase.
\<close>

fun op_fits :: "vec_kind \<Rightarrow> vec_op \<Rightarrow> bool" where
  "op_fits GaugeVec (Observe v) \<longleftrightarrow> False"
| "op_fits GaugeVec op \<longleftrightarrow> True"
| "op_fits (HistogramVec bs) (Observe v) \<longleftrightarrow> True"
| "op_fits (HistogramVec bs) op \<longleftrightarrow> False"
| "op_fits CounterVec Inc \<longleftrightarrow> True"
| "op_fits CounterVec op \<longleftrightarrow> False"

fun metric_fits :: "metric \<Rightarrow> bool" where
  "metric_fits (With c kvs op) \<longleftrightarrow> c \<in> set registered_collectors \<and>
     distinct (map fst kvs) \<and> set (map fst kvs) = set (coLabels c) \<and> op_fits (coKind c) op"
| "metric_fits (DeleteLabelValues c vs) \<longleftrightarrow> c \<in> set registered_collectors \<and>
     length vs = length (coLabels c)"

fun kind_fits :: "vec_kind \<Rightarrow> bool" where
  "kind_fits (HistogramVec bs) \<longleftrightarrow> sorted bs \<and> distinct bs"
| "kind_fits _ \<longleftrightarrow> True"

lemma registered [simp]:
  "totalFailedPoolReservationsCountMetrics \<in> set registered_collectors"
  "averageRequestedDurationMetrics \<in> set registered_collectors"
  "averageNamespaceCreationMetrics \<in> set registered_collectors"
  "averageReservationToDeploymentMetrics \<in> set registered_collectors"
  "activeReservationTotalMetrics \<in> set registered_collectors"
  "enoVersion \<in> set registered_collectors"
  "capiCleanupDurationMetrics \<in> set registered_collectors"
  "reservationsByRequesterTotalMetrics \<in> set registered_collectors"
  by (simp_all add: registered_collectors_def)

lemma collector_labels [simp]:
  "coLabels totalFailedPoolReservationsCountMetrics = [''pool'']"
  "coLabels averageRequestedDurationMetrics = [''controller'', ''pool'']"
  "coLabels averageNamespaceCreationMetrics = [''pool'']"
  "coLabels averageReservationToDeploymentMetrics = [''controller'', ''pool'']"
  "coLabels activeReservationTotalMetrics = [''controller'']"
  "coLabels enoVersion = [''version'']"
  "coLabels capiCleanupDurationMetrics = [''namespace'', ''reservation'']"
  "coLabels reservationsByRequesterTotalMetrics = [''requester'', ''pool'']"
  by (simp_all add: collector_defs)

lemma collector_kinds [simp]:
  "coKind totalFailedPoolReservationsCountMetrics = GaugeVec"
  "coKind averageRequestedDurationMetrics = HistogramVec [1, 2, 4, 8, 24, 48, 168, 336]"
  "coKind averageNamespaceCreationMetrics = HistogramVec [1, 2, 3, 4, 5, 7, 14, 28, 56, 112, 224]"
  "coKind averageReservationToDeploymentMetrics = HistogramVec [1, 2, 3, 4, 5, 7, 14, 28, 56, 112, 224]"
  "coKind activeReservationTotalMetrics = GaugeVec"
  "coKind enoVersion = GaugeVec"
  "coKind capiCleanupDurationMetrics = GaugeVec"
  "coKind reservationsByRequesterTotalMetrics = CounterVec"
  by (simp_all add: collector_defs)

end
