(* ===== verification/Cluster_Api.thy ===== *)
theory Cluster_Api
  imports Collectors "HOL-Library.AList" "HOL-Library.Multiset"
begin

text \<open>
  The operator's environment. The API server with its caches and every other actor, the
  clock and the random source are an opaque state \<open>'s\<close>; the functions of
  \<^verbatim>\<open>client.Client\<close> on it, and the library helpers the operator calls, are the fields of the
  parameter \<open>env\<close>, so nothing is assumed of what a call returns. A call is recorded with its
  answer in the ghost history \<open>log\<close>, which no definition of the model reads.
\<close>

section \<open>Calls and their history\<close>

text \<open>A key is \<^verbatim>\<open>types.NamespacedName\<close>: namespace, then name.\<close>

type_synonym key = "string \<times> string"

definition cluster_key :: "string \<Rightarrow> key" where
  "cluster_key n = ('''', n)"

text \<open>
  List options: everything, one namespace, or a label selector, which is a list of required
  label values; a nil selector (a parse error whose error value was dropped) selects all.
\<close>

type_synonym selector = "(string \<times> string) list"

datatype list_opts = AllObjects | InNamespace string | WithSelector "selector option"

datatype 'o act =
    Get key "gerr + 'o"
  | ListAll list_opts "gerr + 'o list"
  | Create 'o "gerr + 'o"
  | Update 'o "gerr + 'o"
  | StatusUpdate 'o "gerr + 'o"
  | Delete 'o "gerr option"

datatype event =
    NsEv "namespace act"
  | ProjectEv "project_request act"
  | PoolEv "pool act"
  | ResEv "reservation act"
  | EnvEv "clowdenv act"
  | FrontendEv "frontendenv act"
  | ServiceEv "service act"
  | SecretEv "secret act"
  | ClusterEv "cluster act"
  | UClusterEv "ucluster act"
  | RosaEv "rosa_machine_pool act"
  | LimitRangeEv "limit_range act"
  | QuotaEv "resource_quota act"
  | RoleBindingEv "role_binding act"
  | CopySecretEv key key "gerr + secret"
  | RandEv nat string
  | NowEv time
  | SleepEv duration
  | RangeEv "string list"
  | MetricEv metric

section \<open>The world and the environment\<close>

text \<open>
  \<open>active\<close> is \<^verbatim>\<open>Poller.activeReservations\<close>, the map the reservation controller and the poller
  share, as an association list without duplicate keys.
\<close>

record 's world =
  srv :: 's
  active :: "(string \<times> time) list"
  log :: "event list"

record ('o, 's) kind_api =
  k_get :: "key \<Rightarrow> 's \<Rightarrow> (gerr + 'o) \<times> 's"
  k_list :: "list_opts \<Rightarrow> 's \<Rightarrow> (gerr + 'o list) \<times> 's"
  k_create :: "'o \<Rightarrow> 's \<Rightarrow> (gerr + 'o) \<times> 's"
  k_update :: "'o \<Rightarrow> 's \<Rightarrow> (gerr + 'o) \<times> 's"
  k_status_update :: "'o \<Rightarrow> 's \<Rightarrow> (gerr + 'o) \<times> 's"
  k_delete :: "'o \<Rightarrow> 's \<Rightarrow> gerr option \<times> 's"

text \<open>
  A write returns the object the client decoded from the answer into the caller's struct; on
  an error the struct stays as it was. \<open>retry_on_error\<close> and \<open>retry_on_conflict\<close> are
  \<^verbatim>\<open>retry.OnError\<close> and \<^verbatim>\<open>retry.RetryOnConflict\<close> at \<^verbatim>\<open>DefaultBackoff\<close>; the closure they run
  returns its error and the namespace variable it captures.
\<close>

type_synonym 's attempt = "('s world, gerr option \<times> namespace) state"

record 's env =
  ns_api :: "(namespace, 's) kind_api"
  project_api :: "(project_request, 's) kind_api"
  pool_api :: "(pool, 's) kind_api"
  res_api :: "(reservation, 's) kind_api"
  env_api :: "(clowdenv, 's) kind_api"
  fe_api :: "(frontendenv, 's) kind_api"
  svc_api :: "(service, 's) kind_api"
  secret_api :: "(secret, 's) kind_api"
  cluster_api :: "(cluster, 's) kind_api"
  ucluster_api :: "(ucluster, 's) kind_api"
  rosa_api :: "(rosa_machine_pool, 's) kind_api"
  lr_api :: "(limit_range, 's) kind_api"
  rq_api :: "(resource_quota, 's) kind_api"
  rb_api :: "(role_binding, 's) kind_api"
  copy_secret :: "key \<Rightarrow> key \<Rightarrow> 's \<Rightarrow> (gerr + secret) \<times> 's"
  rand_string :: "nat \<Rightarrow> 's \<Rightarrow> string \<times> 's"
  clock_now :: "'s \<Rightarrow> time \<times> 's"
  go_sleep :: "duration \<Rightarrow> 's \<Rightarrow> unit \<times> 's"
  range_order :: "string list \<Rightarrow> 's \<Rightarrow> string list \<times> 's"
  time_String :: "time \<Rightarrow> string"
  retry_on_error :: "'s attempt \<Rightarrow> 's attempt"
  retry_on_conflict :: "'s attempt \<Rightarrow> 's attempt"
  utils_UpdateAnnotations :: "gomap \<Rightarrow> smap \<Rightarrow> gomap"
  utils_UpdateLabels :: "gomap \<Rightarrow> smap \<Rightarrow> gomap"
  ContainsFinalizer :: "string list \<Rightarrow> string \<Rightarrow> bool"
  AddFinalizer :: "string list \<Rightarrow> string \<Rightarrow> string list"
  RemoveFinalizer :: "string list \<Rightarrow> string \<Rightarrow> string list"
  labels_Parse :: "string \<Rightarrow> selector option"
  labels_ValidatedSelectorFromSet :: "smap \<Rightarrow> selector option"

definition k_call :: "('s \<Rightarrow> 'r \<times> 's) \<Rightarrow> ('r \<Rightarrow> event) \<Rightarrow> ('s world, 'r) state" where
  "k_call f ev = State (\<lambda>w. case f (srv w) of
     (r, s') \<Rightarrow> (r, w\<lparr>srv := s', log := log w @ [ev r]\<rparr>))"

abbreviation getNs where
  "getNs E n \<equiv> k_call (k_get (ns_api E) n) (\<lambda>r. NsEv (Get n r))"
abbreviation listNs where
  "listNs E opts \<equiv> k_call (k_list (ns_api E) opts) (\<lambda>r. NsEv (ListAll opts r))"
abbreviation createNs where
  "createNs E x \<equiv> k_call (k_create (ns_api E) x) (\<lambda>r. NsEv (Create x r))"
abbreviation updateNs where
  "updateNs E x \<equiv> k_call (k_update (ns_api E) x) (\<lambda>r. NsEv (Update x r))"
abbreviation deleteNs where
  "deleteNs E x \<equiv> k_call (k_delete (ns_api E) x) (\<lambda>r. NsEv (Delete x r))"
abbreviation createProject where
  "createProject E x \<equiv> k_call (k_create (project_api E) x) (\<lambda>r. ProjectEv (Create x r))"
abbreviation getPool where
  "getPool E n \<equiv> k_call (k_get (pool_api E) n) (\<lambda>r. PoolEv (Get n r))"
abbreviation statusPool where
  "statusPool E x \<equiv> k_call (k_status_update (pool_api E) x) (\<lambda>r. PoolEv (StatusUpdate x r))"
abbreviation getRes where
  "getRes E n \<equiv> k_call (k_get (res_api E) n) (\<lambda>r. ResEv (Get n r))"
abbreviation listRes where
  "listRes E opts \<equiv> k_call (k_list (res_api E) opts) (\<lambda>r. ResEv (ListAll opts r))"
abbreviation updateRes where
  "updateRes E x \<equiv> k_call (k_update (res_api E) x) (\<lambda>r. ResEv (Update x r))"
abbreviation statusRes where
  "statusRes E x \<equiv> k_call (k_status_update (res_api E) x) (\<lambda>r. ResEv (StatusUpdate x r))"
abbreviation deleteRes where
  "deleteRes E x \<equiv> k_call (k_delete (res_api E) x) (\<lambda>r. ResEv (Delete x r))"
abbreviation getEnv where
  "getEnv E n \<equiv> k_call (k_get (env_api E) n) (\<lambda>r. EnvEv (Get n r))"
abbreviation createEnv where
  "createEnv E x \<equiv> k_call (k_create (env_api E) x) (\<lambda>r. EnvEv (Create x r))"
abbreviation getFrontend where
  "getFrontend E n \<equiv> k_call (k_get (fe_api E) n) (\<lambda>r. FrontendEv (Get n r))"
abbreviation createFrontend where
  "createFrontend E x \<equiv> k_call (k_create (fe_api E) x) (\<lambda>r. FrontendEv (Create x r))"
abbreviation getService where
  "getService E n \<equiv> k_call (k_get (svc_api E) n) (\<lambda>r. ServiceEv (Get n r))"
abbreviation createService where
  "createService E x \<equiv> k_call (k_create (svc_api E) x) (\<lambda>r. ServiceEv (Create x r))"
abbreviation listSecrets where
  "listSecrets E opts \<equiv> k_call (k_list (secret_api E) opts) (\<lambda>r. SecretEv (ListAll opts r))"
abbreviation createSecret where
  "createSecret E x \<equiv> k_call (k_create (secret_api E) x) (\<lambda>r. SecretEv (Create x r))"
abbreviation deleteSecret where
  "deleteSecret E x \<equiv> k_call (k_delete (secret_api E) x) (\<lambda>r. SecretEv (Delete x r))"
abbreviation listClusters where
  "listClusters E opts \<equiv> k_call (k_list (cluster_api E) opts) (\<lambda>r. ClusterEv (ListAll opts r))"
abbreviation deleteCluster where
  "deleteCluster E x \<equiv> k_call (k_delete (cluster_api E) x) (\<lambda>r. ClusterEv (Delete x r))"
abbreviation getUCluster where
  "getUCluster E n \<equiv> k_call (k_get (ucluster_api E) n) (\<lambda>r. UClusterEv (Get n r))"
abbreviation listRosa where
  "listRosa E opts \<equiv> k_call (k_list (rosa_api E) opts) (\<lambda>r. RosaEv (ListAll opts r))"
abbreviation updateRosa where
  "updateRosa E x \<equiv> k_call (k_update (rosa_api E) x) (\<lambda>r. RosaEv (Update x r))"
abbreviation createLimitRange where
  "createLimitRange E x \<equiv> k_call (k_create (lr_api E) x) (\<lambda>r. LimitRangeEv (Create x r))"
abbreviation createQuota where
  "createQuota E x \<equiv> k_call (k_create (rq_api E) x) (\<lambda>r. QuotaEv (Create x r))"
abbreviation createRoleBinding where
  "createRoleBinding E x \<equiv> k_call (k_create (rb_api E) x) (\<lambda>r. RoleBindingEv (Create x r))"
abbreviation utils_CopySecret where
  "utils_CopySecret E src dst \<equiv> k_call (copy_secret E src dst) (\<lambda>r. CopySecretEv src dst r)"
abbreviation utils_RandString where
  "utils_RandString E n \<equiv> k_call (rand_string E n) (\<lambda>r. RandEv n r)"
abbreviation time_Now where
  "time_Now E \<equiv> k_call (clock_now E) NowEv"
abbreviation time_Sleep where
  "time_Sleep E d \<equiv> k_call (go_sleep E d) (\<lambda>_. SleepEv d)"
abbreviation range_keys where
  "range_keys E ks \<equiv> k_call (range_order E ks) RangeEv"
abbreviation emit_metric :: "metric \<Rightarrow> ('s world, unit) state" where
  "emit_metric m \<equiv> k_call (Pair ()) (\<lambda>_. MetricEv m)"

text \<open>The shared map of active reservations.\<close>

definition get_active :: "('s world, (string \<times> time) list) state" where
  "get_active = State (\<lambda>w. (active w, w))"

definition put_active :: "string \<Rightarrow> time \<Rightarrow> ('s world, unit) state" where
  "put_active k t = State (\<lambda>w. ((), w\<lparr>active := AList.update k t (active w)\<rparr>))"

definition del_active :: "string \<Rightarrow> ('s world, unit) state" where
  "del_active k = State (\<lambda>w. ((), w\<lparr>active := AList.delete k (active w)\<rparr>))"

section \<open>What the code relies on in the libraries\<close>

text \<open>
  Any retry helper runs its function again only after an error and returns the last result;
  how often, and on which errors, is left open.
\<close>

inductive attempts :: "'s attempt \<Rightarrow> 's world \<Rightarrow> (gerr option \<times> namespace) \<times> 's world \<Rightarrow> bool"
  for m :: "'s attempt" where
  last: "run_state m w = y \<Longrightarrow> attempts m w y"
| again: "run_state m w = ((Some e, x), w') \<Longrightarrow> attempts m w' y \<Longrightarrow> attempts m w y"

definition retry_law :: "('s attempt \<Rightarrow> 's attempt) \<Rightarrow> bool" where
  "retry_law r \<longleftrightarrow> (\<forall>m w. attempts m w (run_state (r m) w))"

definition merge_law :: "(gomap \<Rightarrow> smap \<Rightarrow> gomap) \<Rightarrow> bool" where
  "merge_law u \<longleftrightarrow> (\<forall>m a k. gm_lookup (u m a) k =
     (case a k of Some v \<Rightarrow> Some v | None \<Rightarrow> gm_lookup m k))"

definition finalizer_law ::
  "(string list \<Rightarrow> string \<Rightarrow> bool) \<Rightarrow> (string list \<Rightarrow> string \<Rightarrow> string list) \<Rightarrow>
   (string list \<Rightarrow> string \<Rightarrow> string list) \<Rightarrow> bool" where
  "finalizer_law has add rem \<longleftrightarrow>
     (\<forall>fs f. has fs f = (f \<in> set fs)) \<and>
     (\<forall>fs f. set (add fs f) = insert f (set fs)) \<and>
     (\<forall>fs f. set (rem fs f) = set fs - {f})"

definition range_law :: "(string list \<Rightarrow> 's \<Rightarrow> string list \<times> 's) \<Rightarrow> bool" where
  "range_law r \<longleftrightarrow> (\<forall>ks s. mset (fst (r ks s)) = mset ks)"

definition lib_ok :: "'s env \<Rightarrow> bool" where
  "lib_ok E \<longleftrightarrow>
     retry_law (retry_on_error E) \<and> retry_law (retry_on_conflict E) \<and>
     merge_law (utils_UpdateAnnotations E) \<and> merge_law (utils_UpdateLabels E) \<and>
     finalizer_law (ContainsFinalizer E) (AddFinalizer E) (RemoveFinalizer E) \<and>
     range_law (range_order E)"

lemma lib_okD:
  assumes "lib_ok E"
  shows "retry_law (retry_on_error E)" "retry_law (retry_on_conflict E)"
    "gm_lookup (utils_UpdateAnnotations E m a) k =
       (case a k of Some v \<Rightarrow> Some v | None \<Rightarrow> gm_lookup m k)"
    "gm_lookup (utils_UpdateLabels E m a) k =
       (case a k of Some v \<Rightarrow> Some v | None \<Rightarrow> gm_lookup m k)"
    "ContainsFinalizer E fs f = (f \<in> set fs)"
    "set (AddFinalizer E fs f) = insert f (set fs)"
    "set (RemoveFinalizer E fs f) = set fs - {f}"
    "mset (fst (range_order E ks s)) = mset ks"
  using assms by (auto simp: lib_ok_def merge_law_def finalizer_law_def range_law_def)

section \<open>Symbolic execution\<close>

lemma run_k_call [simp]:
  "run_state (k_call f ev) w =
     (fst (f (srv w)), w\<lparr>srv := snd (f (srv w)), log := log w @ [ev (fst (f (srv w)))]\<rparr>)"
  by (simp add: k_call_def split: prod.splits)

lemma run_active [simp]:
  "run_state get_active w = (active w, w)"
  "run_state (put_active k t) w = ((), w\<lparr>active := AList.update k t (active w)\<rparr>)"
  "run_state (del_active k) w = ((), w\<lparr>active := AList.delete k (active w)\<rparr>)"
  by (simp_all add: get_active_def put_active_def del_active_def)

lemma wp_k_call [wp_intros]:
  "(\<And>r s'. f (srv w) = (r, s') \<Longrightarrow> Q r (w\<lparr>srv := s', log := log w @ [ev r]\<rparr>)) \<Longrightarrow>
   wp (k_call f ev) Q w"
  by (simp add: wp_def)

lemma wp_active [simp]:
  "wp get_active Q w \<longleftrightarrow> Q (active w) w"
  "wp (put_active k t) R w \<longleftrightarrow> R () (w\<lparr>active := AList.update k t (active w)\<rparr>)"
  "wp (del_active k) R w \<longleftrightarrow> R () (w\<lparr>active := AList.delete k (active w)\<rparr>)"
  by (simp_all add: wp_def)

lemma wp_case_outcome [wp_intros]:
  "(\<And>y. x = Returned y \<Longrightarrow> wp (g y) Q w) \<Longrightarrow> (x = Panicked \<Longrightarrow> wp f Q w) \<Longrightarrow>
   wp (case x of Returned y \<Rightarrow> g y | Panicked \<Rightarrow> f) Q w"
  by (cases x) simp_all

lemma wp_case_list [wp_intros]:
  "(x = [] \<Longrightarrow> wp f Q w) \<Longrightarrow> (\<And>y ys. x = y # ys \<Longrightarrow> wp (g y ys) Q w) \<Longrightarrow>
   wp (case x of [] \<Rightarrow> f | y # ys \<Rightarrow> g y ys) Q w"
  by (cases x) simp_all

lemma attempts_rule:
  assumes "attempts m w y"
    and step: "\<And>w. I w \<Longrightarrow> wp m (\<lambda>x w'. (fst x \<noteq> None \<longrightarrow> I w') \<and> Q x w') w"
    and "I w"
  shows "Q (fst y) (snd y)"
  using assms(1,3)
proof (induction rule: attempts.induct)
  case (last w y)
  then show ?case using step [of w] by (cases y) (auto simp: wp_def)
next
  case (again w e x w' y)
  then show ?case using step [of w] by (auto simp: wp_def)
qed

lemma wp_retry:
  assumes "retry_law r" and "\<And>w. I w \<Longrightarrow> wp m (\<lambda>x w'. (fst x \<noteq> None \<longrightarrow> I w') \<and> Q x w') w"
    and "I w"
  shows "wp (r m) Q w"
proof -
  have "attempts m w (run_state (r m) w)"
    using assms(1) by (simp add: retry_law_def)
  from attempts_rule [OF this assms(2,3)] show ?thesis
    by (simp add: wp_def)
qed

section \<open>The events a computation emits\<close>

text \<open>
  \<open>follows \<Gamma> m w\<close>: every call that \<open>m\<close> makes from \<open>w\<close> is allowed by \<open>\<Gamma>\<close> after the history
  at that point. \<open>emits \<Phi> m\<close> is the case of a condition on the call alone, from any world.
\<close>

definition follows ::
  "(event list \<Rightarrow> event \<Rightarrow> bool) \<Rightarrow> ('s world, 'a) state \<Rightarrow> 's world \<Rightarrow> bool" where
  "follows \<Gamma> m w \<longleftrightarrow> (\<exists>tr. log (snd (run_state m w)) = log w @ tr \<and>
     (\<forall>pre e post. tr = pre @ e # post \<longrightarrow> \<Gamma> (log w @ pre) e))"

definition emits :: "(event \<Rightarrow> bool) \<Rightarrow> ('s world, 'a) state \<Rightarrow> bool" where
  "emits \<Phi> m \<longleftrightarrow> (\<forall>w. follows (\<lambda>_. \<Phi>) m w)"

text \<open>\<open>events m w\<close>: the calls \<open>m\<close> makes from \<open>w\<close>, in order.\<close>

definition events :: "('s world, 'a) state \<Rightarrow> 's world \<Rightarrow> event list" where
  "events m w = log (snd (run_state m (w\<lparr>log := []\<rparr>)))"

lemma follows_events:
  "follows \<Gamma> m (w\<lparr>log := []\<rparr>) \<Longrightarrow> events m w = pre @ e # post \<Longrightarrow> \<Gamma> pre e"
  by (auto simp: follows_def events_def)

lemma emits_events: "emits \<Phi> m \<Longrightarrow> e \<in> set (events m w) \<Longrightarrow> \<Phi> e"
  unfolding emits_def by (metis follows_events split_list)

lemma emits_iff:
  "emits \<Phi> m \<longleftrightarrow> (\<forall>w. \<exists>tr. log (snd (run_state m w)) = log w @ tr \<and> (\<forall>e \<in> set tr. \<Phi> e))"
  unfolding emits_def follows_def by (metis in_set_conv_decomp)

lemma emits_log:
  assumes "emits \<Phi> m" and "run_state m w = (r, w')"
  obtains tr where "log w' = log w @ tr" "\<forall>e \<in> set tr. \<Phi> e"
  using assms unfolding emits_iff by (metis snd_conv)

lemma emits_grows:
  assumes "emits \<Phi> m" and "run_state m w = (r, w')"
  shows "set (log w) \<subseteq> set (log w')"
  by (rule emits_log [OF assms]) simp

lemma wp_emits:
  assumes "emits \<Phi> m" and "\<And>r tr w'. log w' = log w @ tr \<Longrightarrow> \<forall>e \<in> set tr. \<Phi> e \<Longrightarrow> Q r w'"
  shows "wp m Q w"
  by (rule wpI) (metis assms(2) emits_log [OF assms(1)])

lemma emits_weaken: "emits \<Phi> m \<Longrightarrow> (\<And>e. \<Phi> e \<Longrightarrow> \<Psi> e) \<Longrightarrow> emits \<Psi> m"
  unfolding emits_iff by meson

lemma emits_follows: "emits \<Phi> m \<Longrightarrow> (\<And>h e. \<Phi> e \<Longrightarrow> \<Gamma> h e) \<Longrightarrow> follows \<Gamma> m w"
  unfolding emits_def follows_def by meson

lemma follows_weaken:
  "follows \<Gamma> m w \<Longrightarrow> (\<And>tr e. \<Gamma> (log w @ tr) e \<Longrightarrow> \<Delta> (log w @ tr) e) \<Longrightarrow> follows \<Delta> m w"
  unfolding follows_def by meson

lemma follows_return [follows_intros]: "follows \<Gamma> (State_Monad.return x) w"
  by (simp add: follows_def)

lemma follows_bind [follows_intros]:
  assumes "follows \<Gamma> m w" and "\<And>x w'. run_state m w = (x, w') \<Longrightarrow> follows \<Gamma> (f x) w'"
  shows "follows \<Gamma> (State_Monad.bind m f) w"
proof -
  obtain x w' where m: "run_state m w = (x, w')" by fastforce
  obtain tr where tr: "log w' = log w @ tr"
      "\<And>pre e post. tr = pre @ e # post \<Longrightarrow> \<Gamma> (log w @ pre) e"
    using assms(1) m by (auto simp: follows_def)
  obtain tr' where tr': "log (snd (run_state (f x) w')) = log w' @ tr'"
      "\<And>pre e post. tr' = pre @ e # post \<Longrightarrow> \<Gamma> (log w' @ pre) e"
    using assms(2) [OF m] by (auto simp: follows_def)
  have "\<Gamma> (log w @ pre) e" if "tr @ tr' = pre @ e # post" for pre e post
    using append_split_elem [OF that]
  proof (elim disjE exE conjE)
    fix post' assume "tr = pre @ e # post'"
    then show ?thesis by (rule tr(2))
  next
    fix pre' assume "pre = tr @ pre'" "tr' = pre' @ e # post"
    with tr'(2) [of pre' e post] tr(1) show ?thesis by simp
  qed
  with m tr(1) tr'(1) show ?thesis
    by (intro follows_def [THEN iffD2] exI [of _ "tr @ tr'"]) simp
qed

lemma follows_bind_wp:
  "follows \<Gamma> m w \<Longrightarrow> wp m (\<lambda>x w'. follows \<Gamma> (f x) w') w \<Longrightarrow> follows \<Gamma> (State_Monad.bind m f) w"
  by (rule follows_bind) (auto dest: wpD)

lemma follows_k_call [follows_intros]:
  "(\<And>r. \<Gamma> (log w) (ev r)) \<Longrightarrow> follows \<Gamma> (k_call f ev) w"
  by (auto simp: follows_def Cons_eq_append_conv)

lemma follows_active [follows_intros]:
  "follows \<Gamma> get_active w" "follows \<Gamma> (put_active k t) w" "follows \<Gamma> (del_active k) w"
  by (simp_all add: follows_def)

lemma follows_if [follows_intros]:
  "(b \<Longrightarrow> follows \<Gamma> m w) \<Longrightarrow> (\<not> b \<Longrightarrow> follows \<Gamma> n w) \<Longrightarrow> follows \<Gamma> (if b then m else n) w"
  by simp

lemma follows_case_sum [follows_intros]:
  "(\<And>e. x = Inl e \<Longrightarrow> follows \<Gamma> (f e) w) \<Longrightarrow> (\<And>y. x = Inr y \<Longrightarrow> follows \<Gamma> (g y) w) \<Longrightarrow>
   follows \<Gamma> (case x of Inl e \<Rightarrow> f e | Inr y \<Rightarrow> g y) w"
  by (cases x) simp_all

lemma follows_case_option [follows_intros]:
  "(x = None \<Longrightarrow> follows \<Gamma> f w) \<Longrightarrow> (\<And>y. x = Some y \<Longrightarrow> follows \<Gamma> (g y) w) \<Longrightarrow>
   follows \<Gamma> (case x of None \<Rightarrow> f | Some y \<Rightarrow> g y) w"
  by (cases x) simp_all

lemma follows_case_outcome [follows_intros]:
  "(\<And>y. x = Returned y \<Longrightarrow> follows \<Gamma> (g y) w) \<Longrightarrow> (x = Panicked \<Longrightarrow> follows \<Gamma> f w) \<Longrightarrow>
   follows \<Gamma> (case x of Returned y \<Rightarrow> g y | Panicked \<Rightarrow> f) w"
  by (cases x) simp_all

lemma follows_case_list [follows_intros]:
  "(x = [] \<Longrightarrow> follows \<Gamma> f w) \<Longrightarrow> (\<And>y ys. x = y # ys \<Longrightarrow> follows \<Gamma> (g y ys) w) \<Longrightarrow>
   follows \<Gamma> (case x of [] \<Rightarrow> f | y # ys \<Rightarrow> g y ys) w"
  by (cases x) simp_all

lemma follows_case_prod [follows_intros]:
  "(\<And>a b. x = (a, b) \<Longrightarrow> follows \<Gamma> (f a b) w) \<Longrightarrow> follows \<Gamma> (case x of (a, b) \<Rightarrow> f a b) w"
  by (cases x) simp

lemma follows_let [follows_intros]: "follows \<Gamma> (f x) w \<Longrightarrow> follows \<Gamma> (let y = x in f y) w"
  by simp

lemmas follows_cases = follows_return follows_if follows_case_sum follows_case_option
  follows_case_outcome follows_case_list follows_case_prod follows_let

lemma emits_return [emits_intros]: "emits \<Phi> (State_Monad.return x)"
  unfolding emits_def by (intro allI follows_intros)

lemma emits_bind [emits_intros]:
  "emits \<Phi> m \<Longrightarrow> (\<And>x. emits \<Phi> (f x)) \<Longrightarrow> emits \<Phi> (State_Monad.bind m f)"
  unfolding emits_def by (blast intro: follows_bind)

lemma emits_k_call [emits_intros]: "(\<And>r. \<Phi> (ev r)) \<Longrightarrow> emits \<Phi> (k_call f ev)"
  unfolding emits_def by (blast intro: follows_k_call)

lemma emits_active [emits_intros]:
  "emits \<Phi> get_active" "emits \<Phi> (put_active k t)" "emits \<Phi> (del_active k)"
  unfolding emits_def by (blast intro: follows_active)+

lemma emits_if [emits_intros]:
  "(b \<Longrightarrow> emits \<Phi> m) \<Longrightarrow> (\<not> b \<Longrightarrow> emits \<Phi> n) \<Longrightarrow> emits \<Phi> (if b then m else n)"
  by simp

lemma emits_case_sum [emits_intros]:
  "(\<And>e. x = Inl e \<Longrightarrow> emits \<Phi> (f e)) \<Longrightarrow> (\<And>y. x = Inr y \<Longrightarrow> emits \<Phi> (g y)) \<Longrightarrow>
   emits \<Phi> (case x of Inl e \<Rightarrow> f e | Inr y \<Rightarrow> g y)"
  by (cases x) simp_all

lemma emits_case_option [emits_intros]:
  "(x = None \<Longrightarrow> emits \<Phi> f) \<Longrightarrow> (\<And>y. x = Some y \<Longrightarrow> emits \<Phi> (g y)) \<Longrightarrow>
   emits \<Phi> (case x of None \<Rightarrow> f | Some y \<Rightarrow> g y)"
  by (cases x) simp_all

lemma emits_case_outcome [emits_intros]:
  "(\<And>y. x = Returned y \<Longrightarrow> emits \<Phi> (g y)) \<Longrightarrow> (x = Panicked \<Longrightarrow> emits \<Phi> f) \<Longrightarrow>
   emits \<Phi> (case x of Returned y \<Rightarrow> g y | Panicked \<Rightarrow> f)"
  by (cases x) simp_all

lemma emits_case_list [emits_intros]:
  "(x = [] \<Longrightarrow> emits \<Phi> f) \<Longrightarrow> (\<And>y ys. x = y # ys \<Longrightarrow> emits \<Phi> (g y ys)) \<Longrightarrow>
   emits \<Phi> (case x of [] \<Rightarrow> f | y # ys \<Rightarrow> g y ys)"
  by (cases x) simp_all

lemma emits_case_prod [emits_intros]:
  "(\<And>a b. x = (a, b) \<Longrightarrow> emits \<Phi> (f a b)) \<Longrightarrow> emits \<Phi> (case x of (a, b) \<Rightarrow> f a b)"
  by (cases x) simp

lemma emits_let [emits_intros]: "emits \<Phi> (f x) \<Longrightarrow> emits \<Phi> (let y = x in f y)"
  by simp

lemma emits_retry:
  assumes "retry_law r" and "emits \<Phi> m"
  shows "emits \<Phi> (r m)"
  unfolding emits_iff
proof
  fix w :: "'a world"
  let ?I = "\<lambda>w'. \<exists>tr. log w' = log w @ tr \<and> (\<forall>e \<in> set tr. \<Phi> e)"
  have "wp (r m) (\<lambda>r. ?I) w"
  proof (rule wp_retry [where I = ?I, OF assms(1)])
    fix w' :: "'a world"
    assume "?I w'"
    then obtain tr where tr: "log w' = log w @ tr" "\<forall>e \<in> set tr. \<Phi> e" by blast
    obtain tr' where "log (snd (run_state m w')) = log w' @ tr'" "\<forall>e \<in> set tr'. \<Phi> e"
      using assms(2) unfolding emits_iff by blast
    with tr have "?I (snd (run_state m w'))" by (auto intro: exI [of _ "tr @ tr'"])
    then show "wp m (\<lambda>x w''. (fst x \<noteq> None \<longrightarrow> ?I w'') \<and> ?I w'') w'"
      by (simp add: wp_def)
  qed simp
  then show "?I (snd (run_state (r m) w))" by (simp add: wp_def)
qed

lemma emits_retries [emits_intros]:
  "lib_ok E \<Longrightarrow> emits \<Phi> m \<Longrightarrow> emits \<Phi> (retry_on_error E m)"
  "lib_ok E \<Longrightarrow> emits \<Phi> m \<Longrightarrow> emits \<Phi> (retry_on_conflict E m)"
  by (blast intro: emits_retry lib_okD)+

section \<open>Counting events\<close>

definition emits_at_most :: "(event \<Rightarrow> bool) \<Rightarrow> nat \<Rightarrow> ('s world, 'a) state \<Rightarrow> bool" where
  "emits_at_most P k m \<longleftrightarrow> (\<forall>w. \<exists>tr. log (snd (run_state m w)) = log w @ tr \<and>
     length (filter P tr) \<le> k)"

lemma emits_at_most_events:
  assumes "emits_at_most P k m"
  shows "length (filter P (events m w)) \<le> k"
  using assms unfolding emits_at_most_def events_def
  by (auto dest: spec [of _ "w\<lparr>log := []\<rparr>"])

lemma emits_at_most_none: "emits (\<lambda>e. \<not> P e) m \<Longrightarrow> emits_at_most P k m"
  unfolding emits_iff emits_at_most_def by (metis filter_False le0 list.size(3))

lemma emits_at_most_bind:
  assumes "emits_at_most P i m" and "\<And>x. emits_at_most P j (f x)"
  shows "emits_at_most P (i + j) (State_Monad.bind m f)"
  unfolding emits_at_most_def
proof
  fix w :: "'a world"
  obtain x w' where m: "run_state m w = (x, w')" by fastforce
  obtain tr where "log w' = log w @ tr" "length (filter P tr) \<le> i"
    using assms(1) m unfolding emits_at_most_def by (metis snd_conv)
  moreover obtain tr' where "log (snd (run_state (f x) w')) = log w' @ tr'"
      "length (filter P tr') \<le> j"
    using assms(2) unfolding emits_at_most_def by meson
  ultimately show "\<exists>tr. log (snd (run_state (State_Monad.bind m f) w)) = log w @ tr \<and>
      length (filter P tr) \<le> i + j"
    using m by (intro exI [of _ "tr @ tr'"]) simp
qed

lemma emits_at_most_if:
  "emits_at_most P i m \<Longrightarrow> emits_at_most P i n \<Longrightarrow> emits_at_most P i (if b then m else n)"
  by simp

lemma emits_at_most_k_call: "emits_at_most P 1 (k_call f ev)"
  by (simp add: emits_at_most_def)

lemma emits_at_most_mono: "emits_at_most P i m \<Longrightarrow> i \<le> j \<Longrightarrow> emits_at_most P j m"
  unfolding emits_at_most_def by (meson order_trans)

section \<open>Retries\<close>

lemma wp_retry_on_error:
  assumes "lib_ok E"
    and "\<And>w. I w \<Longrightarrow> wp m (\<lambda>x w'. (fst x \<noteq> None \<longrightarrow> I w') \<and> Q x w') w" and "I w"
  shows "wp (retry_on_error E m) Q w"
  using lib_okD(1) [OF assms(1)] assms(2,3) by (rule wp_retry)

lemma wp_retry_on_conflict:
  assumes "lib_ok E"
    and "\<And>w. I w \<Longrightarrow> wp m (\<lambda>x w'. (fst x \<noteq> None \<longrightarrow> I w') \<and> Q x w') w" and "I w"
  shows "wp (retry_on_conflict E m) Q w"
  using lib_okD(2) [OF assms(1)] assms(2,3) by (rule wp_retry)

end
