(* ===== verification/Sample_Cluster.thy ===== *)
theory Sample_Cluster
  imports Cluster_Api
begin

text \<open>
  A small in-memory cluster: the parameter \<open>env\<close> instantiated by executable functions, with
  stored objects, optimistic concurrency on resource versions, a clock that stands still and
  retries of at most four runs. The witnesses of the development evaluate the model on it.
\<close>

record sample =
  sm_rev :: nat
  sm_clock :: time
  sm_ns :: "(string \<times> namespace) list"
  sm_pools :: "(string \<times> pool) list"
  sm_res :: "(string \<times> reservation) list"
  sm_envs :: "(string \<times> clowdenv) list"
  sm_frontends :: "(string \<times> frontendenv) list"
  sm_secrets :: "(string \<times> secret) list"
  sm_clusters :: "(string \<times> cluster) list"
  sm_rosa :: "(string \<times> rosa_machine_pool) list"

definition empty_sample :: sample where
  "empty_sample = \<lparr>sm_rev = 0, sm_clock = 1000, sm_ns = [], sm_pools = [], sm_res = [],
     sm_envs = [], sm_frontends = [], sm_secrets = [], sm_clusters = [], sm_rosa = []\<rparr>"

definition selects :: "list_opts \<Rightarrow> 'a k8sobj_scheme \<Rightarrow> bool" where
  "selects opts x = (case opts of
       AllObjects \<Rightarrow> True
     | InNamespace n \<Rightarrow> mNamespace x = n
     | WithSelector None \<Rightarrow> True
     | WithSelector (Some reqs) \<Rightarrow> list_all (\<lambda>(k, v). gm_lookup (mLabels x) k = Some v) reqs)"

definition next_version :: "sample \<Rightarrow> string" where
  "next_version s = replicate (Suc (sm_rev s)) CHR ''i''"

definition store_api ::
  "(sample \<Rightarrow> (string \<times> 'a k8sobj_scheme) list) \<Rightarrow>
   (((string \<times> 'a k8sobj_scheme) list \<Rightarrow> (string \<times> 'a k8sobj_scheme) list) \<Rightarrow> sample \<Rightarrow> sample) \<Rightarrow>
   ('a k8sobj_scheme, sample) kind_api" where
  "store_api get upd = (
     let write = (\<lambda>x s. case map_of (get s) (mName x) of
           None \<Rightarrow> (Inl (ApiError NotFound), s)
         | Some y \<Rightarrow> if mResourceVersion x \<noteq> mResourceVersion y then (Inl (ApiError Conflict), s)
             else let z = x\<lparr>mResourceVersion := next_version s\<rparr> in
               (Inr z, upd (AList.update (mName x) z) (s\<lparr>sm_rev := Suc (sm_rev s)\<rparr>)))
     in \<lparr>k_get = (\<lambda>k s. (case map_of (get s) (snd k) of
             None \<Rightarrow> Inl (ApiError NotFound) | Some x \<Rightarrow> Inr x, s)),
         k_list = (\<lambda>opts s. (Inr (filter (selects opts) (map snd (get s))), s)),
         k_create = (\<lambda>x s. case map_of (get s) (mName x) of
             Some _ \<Rightarrow> (Inl (ApiError AlreadyExists), s)
           | None \<Rightarrow> let z = x\<lparr>mResourceVersion := next_version s\<rparr> in
               (Inr z, upd (\<lambda>l. l @ [(mName x, z)]) (s\<lparr>sm_rev := Suc (sm_rev s)\<rparr>))),
         k_update = write,
         k_status_update = write,
         k_delete = (\<lambda>x s. case map_of (get s) (mName x) of
             None \<Rightarrow> (Some (ApiError NotFound), s)
           | Some _ \<Rightarrow> (None, upd (AList.delete (mName x)) s))\<rparr>)"

text \<open>A kind of which nothing is stored and every write succeeds.\<close>

definition stub_api :: "('o, 's) kind_api" where
  "stub_api = \<lparr>k_get = (\<lambda>_ s. (Inl (ApiError NotFound), s)), k_list = (\<lambda>_ s. (Inr [], s)),
     k_create = (\<lambda>x s. (Inr x, s)), k_update = (\<lambda>x s. (Inr x, s)),
     k_status_update = (\<lambda>x s. (Inr x, s)), k_delete = (\<lambda>_ s. (None, s))\<rparr>"

fun retry_times :: "nat \<Rightarrow> 's attempt \<Rightarrow> 's attempt" where
  "retry_times 0 m = m"
| "retry_times (Suc n) m = do {
     (err, x) \<leftarrow> m;
     case err of
       None \<Rightarrow> State_Monad.return (None, x)
     | Some _ \<Rightarrow> retry_times n m
   }"

definition merge_map :: "gomap \<Rightarrow> smap \<Rightarrow> gomap" where
  "merge_map m a = Some ((case m of None \<Rightarrow> Map.empty | Some f \<Rightarrow> f) ++ a)"

definition sample_env :: "sample env" where
  "sample_env = \<lparr>
     ns_api = store_api sm_ns sm_ns_update,
     project_api = stub_api,
     pool_api = store_api sm_pools sm_pools_update,
     res_api = store_api sm_res sm_res_update,
     env_api = store_api sm_envs sm_envs_update,
     fe_api = store_api sm_frontends sm_frontends_update,
     svc_api = stub_api,
     secret_api = store_api sm_secrets sm_secrets_update,
     cluster_api = store_api sm_clusters sm_clusters_update,
     ucluster_api = stub_api,
     rosa_api = store_api sm_rosa sm_rosa_update,
     lr_api = stub_api,
     rq_api = stub_api,
     rb_api = stub_api,
     copy_secret = (\<lambda>src dst s. (case map_of (sm_secrets s) (snd src) of
         None \<Rightarrow> Inl (ApiError NotFound)
       | Some x \<Rightarrow> Inr (x\<lparr>mName := snd dst, mNamespace := fst dst\<rparr>), s)),
     rand_string = (\<lambda>n s. (replicate n CHR ''A'', s)),
     clock_now = (\<lambda>s. (sm_clock s, s)),
     go_sleep = (\<lambda>d s. ((), s\<lparr>sm_clock := sm_clock s + d\<rparr>)),
     range_order = Pair,
     time_String = (\<lambda>_. ''now''),
     retry_on_error = retry_times 3,
     retry_on_conflict = retry_times 3,
     utils_UpdateAnnotations = merge_map,
     utils_UpdateLabels = merge_map,
     ContainsFinalizer = (\<lambda>fs f. f \<in> set fs),
     AddFinalizer = (\<lambda>fs f. if f \<in> set fs then fs else fs @ [f]),
     RemoveFinalizer = (\<lambda>fs f. filter (\<lambda>g. g \<noteq> f) fs),
     labels_Parse = (\<lambda>s. Some [(takeWhile (\<lambda>c. c \<noteq> CHR ''='') s,
                              tl (dropWhile (\<lambda>c. c \<noteq> CHR ''='') s))]),
     labels_ValidatedSelectorFromSet = (\<lambda>m. Some [(''pool'', case m ''pool'' of None \<Rightarrow> '''' | Some v \<Rightarrow> v)])\<rparr>"

definition sample_world :: "sample \<Rightarrow> sample world" where
  "sample_world s = \<lparr>srv = s, active = [], log = []\<rparr>"

lemma retry_times_law: "retry_law (retry_times n :: 's attempt \<Rightarrow> 's attempt)"
proof -
  have "attempts m w (run_state (retry_times n m) w)" for m :: "'s attempt" and w
  proof (induction n arbitrary: w)
    case 0
    show ?case by (simp add: attempts.last)
  next
    case (Suc n)
    obtain err x w' where m: "run_state m w = ((err, x), w')" by (metis prod.exhaust)
    show ?case
    proof (cases err)
      case None
      with m show ?thesis by (simp add: attempts.last)
    next
      case (Some e)
      with m show ?thesis by (auto intro: attempts.again Suc.IH)
    qed
  qed
  then show ?thesis by (simp add: retry_law_def)
qed

lemma sample_lib_ok: "lib_ok sample_env"
  by (auto simp: lib_ok_def sample_env_def merge_law_def finalizer_law_def range_law_def
      merge_map_def map_add_def retry_times_law split: option.splits)

lemmas sample_run = events_def sample_world_def empty_sample_def sample_env_def store_api_def
  stub_api_def selects_def next_version_def Let_def

definition sample_object :: "string \<Rightarrow> k8sobj" where
  "sample_object n = zero_meta\<lparr>mName := n, mNamespace := ''ns''\<rparr>"

definition sample_pool :: "string \<Rightarrow> clowdenv_spec option \<Rightarrow> pool" where
  "sample_pool n ce = k8sobj.extend ((sample_object n)\<lparr>mNamespace := '''', mUID := ''uid''\<rparr>)
     \<lparr>poolSpec = \<lparr>psSize = 2, psSizeLimit = Some 3, psLocal = True, psClowdEnvironment = ce,
        psDefaultSecretSourceNamespace = '''',
        psLimitRange = k8sobj.extend zero_meta \<lparr>lrPayload = ''''\<rparr>, psResourceQuotas = [],
        psDescription = '''', psTeams = []\<rparr>,
      poolStatus = \<lparr>poolReady = 0, poolCreating = 0, poolReserved = 0\<rparr>\<rparr>"

definition sample_reservation :: "string \<Rightarrow> reservation" where
  "sample_reservation tm = k8sobj.extend (sample_object ''r'')
     \<lparr>resSpec = \<lparr>rsDuration = Some ''1h'', rsRequester = ''me'', rsTeam = tm, rsPool = '''',
                 rsSecretSourceNamespace = ''''\<rparr>,
      resStatus = \<lparr>rsExpiration = 0, rsState = '''', rsNamespace = '''', rsStatusPool = ''''\<rparr>\<rparr>"

lemma sample_pool_simps [simp]:
  "mName (sample_pool n ce) = n" "mUID (sample_pool n ce) = ''uid''"
  "psSize (poolSpec (sample_pool n ce)) = 2" "psSizeLimit (poolSpec (sample_pool n ce)) = Some 3"
  "psLocal (poolSpec (sample_pool n ce))" "psClowdEnvironment (poolSpec (sample_pool n ce)) = ce"
  "poolStatus (sample_pool n ce) = \<lparr>poolReady = 0, poolCreating = 0, poolReserved = 0\<rparr>"
  by (simp_all add: sample_pool_def sample_object_def zero_meta_def k8sobj.defs pool.defs)

end
