(* ===== verification/Helper_Types.thy ===== *)
theory Helper_Types
  imports Sample_Cluster
begin

text \<open>
  \<^verbatim>\<open>helpers/constants.go\<close> and \<^verbatim>\<open>helpers/types.go\<close>: the annotation and label vocabulary
  by which the controllers tell each other what state a namespace is in.
\<close>

section \<open>Constants\<close>

definition AnnotationEnvStatus :: string where "AnnotationEnvStatus = ''env-status''"
definition AnnotationReserved :: string where "AnnotationReserved = ''reserved''"
definition CompletionTime :: string where "CompletionTime = ''completion-time''"
definition EnvStatusCreating :: string where "EnvStatusCreating = ''creating''"
definition EnvStatusDeleting :: string where "EnvStatusDeleting = ''deleting''"
definition EnvStatusError :: string where "EnvStatusError = ''error''"
definition EnvStatusReady :: string where "EnvStatusReady = ''ready''"
definition KindNamespacePool :: string where "KindNamespacePool = ''NamespacePool''"
definition LabelOperatorNS :: string where "LabelOperatorNS = ''operator-ns''"
definition LabelPool :: string where "LabelPool = ''pool''"
definition NamespaceEphemeralBase :: string where "NamespaceEphemeralBase = ''ephemeral-base''"
definition NamespaceHcmAi :: string where "NamespaceHcmAi = ''ephemeral-hcm-ai''"
definition PoolAiDevelopment :: string where "PoolAiDevelopment = ''ai-development''"
definition BonfireIgnoreAnnotation :: string where "BonfireIgnoreAnnotation = ''bonfire.ignore''"
definition OpenShiftVaultSecretsProvider :: string where
  "OpenShiftVaultSecretsProvider = ''openshift-vault-secrets''"
definition OpenShiftRhcsCertsProvider :: string where
  "OpenShiftRhcsCertsProvider = ''openshift-rhcs-certs''"
definition QontractIntegrationAnnotation :: string where
  "QontractIntegrationAnnotation = ''qontract.integration''"
definition TrueValue :: string where "TrueValue = ''true''"
definition FalseValue :: string where "FalseValue = ''false''"

lemmas annotation_defs = AnnotationEnvStatus_def AnnotationReserved_def CompletionTime_def
lemmas env_status_defs = EnvStatusCreating_def EnvStatusDeleting_def EnvStatusError_def
  EnvStatusReady_def
lemmas flag_defs = TrueValue_def FalseValue_def

lemma env_status_distinct [simp]:
  "EnvStatusReady \<noteq> EnvStatusCreating" "EnvStatusReady \<noteq> EnvStatusError"
  "EnvStatusReady \<noteq> EnvStatusDeleting" "EnvStatusCreating \<noteq> EnvStatusError"
  "EnvStatusCreating \<noteq> EnvStatusReady" "EnvStatusError \<noteq> EnvStatusReady"
  "EnvStatusDeleting \<noteq> EnvStatusReady" "EnvStatusError \<noteq> EnvStatusCreating"
  "EnvStatusReady \<noteq> ''''" "EnvStatusCreating \<noteq> ''''" "EnvStatusError \<noteq> ''''"
  by (simp_all add: env_status_defs)

lemma annotation_distinct [simp]:
  "AnnotationEnvStatus \<noteq> AnnotationReserved" "AnnotationReserved \<noteq> AnnotationEnvStatus"
  "AnnotationEnvStatus \<noteq> CompletionTime" "CompletionTime \<noteq> AnnotationEnvStatus"
  "AnnotationReserved \<noteq> CompletionTime" "CompletionTime \<noteq> AnnotationReserved"
  by (simp_all add: annotation_defs)

section \<open>Annotation and label values\<close>

record CustomAnnotation =
  caAnnotation :: string
  caValue :: string

record CustomLabel =
  clLabel :: string
  clValue :: string

definition CreateInitialAnnotations :: smap where
  "CreateInitialAnnotations =
     [AnnotationEnvStatus \<mapsto> EnvStatusCreating, AnnotationReserved \<mapsto> FalseValue]"

definition CreateInitialLabels :: "string \<Rightarrow> smap" where
  "CreateInitialLabels poolName = [LabelOperatorNS \<mapsto> TrueValue, LabelPool \<mapsto> poolName]"

definition CustomAnnotation_ToMap :: "CustomAnnotation \<Rightarrow> smap" where
  "CustomAnnotation_ToMap a = [caAnnotation a \<mapsto> caValue a]"

definition CustomLabel_ToMap :: "CustomLabel \<Rightarrow> smap" where
  "CustomLabel_ToMap l = [clLabel l \<mapsto> clValue l]"

definition AnnotationEnvReady :: CustomAnnotation where
  "AnnotationEnvReady = \<lparr>caAnnotation = AnnotationEnvStatus, caValue = EnvStatusReady\<rparr>"
definition AnnotationEnvCreating :: CustomAnnotation where
  "AnnotationEnvCreating = \<lparr>caAnnotation = AnnotationEnvStatus, caValue = EnvStatusCreating\<rparr>"
definition AnnotationEnvError :: CustomAnnotation where
  "AnnotationEnvError = \<lparr>caAnnotation = AnnotationEnvStatus, caValue = EnvStatusError\<rparr>"
definition AnnotationEnvDeleting :: CustomAnnotation where
  "AnnotationEnvDeleting = \<lparr>caAnnotation = AnnotationEnvStatus, caValue = EnvStatusDeleting\<rparr>"
definition AnnotationReservedTrue :: CustomAnnotation where
  "AnnotationReservedTrue = \<lparr>caAnnotation = AnnotationReserved, caValue = TrueValue\<rparr>"
definition AnnotationReservedFalse :: CustomAnnotation where
  "AnnotationReservedFalse = \<lparr>caAnnotation = AnnotationReserved, caValue = FalseValue\<rparr>"
definition LabelOperatorNamespaceTrue :: CustomLabel where
  "LabelOperatorNamespaceTrue = \<lparr>clLabel = LabelOperatorNS, clValue = TrueValue\<rparr>"

lemmas custom_annotation_defs = AnnotationEnvReady_def AnnotationEnvCreating_def
  AnnotationEnvError_def AnnotationEnvDeleting_def AnnotationReservedTrue_def
  AnnotationReservedFalse_def

lemma ToMap_env_status [simp]:
  "CustomAnnotation_ToMap AnnotationEnvReady = [AnnotationEnvStatus \<mapsto> EnvStatusReady]"
  "CustomAnnotation_ToMap AnnotationEnvError = [AnnotationEnvStatus \<mapsto> EnvStatusError]"
  "CustomAnnotation_ToMap AnnotationEnvDeleting = [AnnotationEnvStatus \<mapsto> EnvStatusDeleting]"
  by (simp_all add: CustomAnnotation_ToMap_def custom_annotation_defs)

end
