(* ===== verification/Namespace_Access.thy ===== *)
theory Namespace_Access
  imports Helper_Types
begin

text \<open>
  The first half of \<^verbatim>\<open>helpers/namespaces.go\<close>: reading namespaces with retries, selecting
  the ready ones of a pool, changing annotations, deleting.
\<close>

section \<open>Operations\<close>

definition GetNamespace :: "'s env \<Rightarrow> string \<Rightarrow> ('s world, gerr + namespace) state" where
  "GetNamespace E namespaceName = do {
     (err, namespace) \<leftarrow> retry_on_error E (do {
       r \<leftarrow> getNs E (cluster_key namespaceName);
       State_Monad.return (case r of
           Inl e \<Rightarrow> (Some e, zero_meta)
         | Inr ns \<Rightarrow> (None, ns))
     });
     State_Monad.return (case err of Some e \<Rightarrow> Inl e | None \<Rightarrow> Inr namespace)
   }"

definition CheckReadyStatus :: "string \<Rightarrow> namespace \<Rightarrow> namespace list \<Rightarrow> namespace list" where
  "CheckReadyStatus pool ns ready =
     (if gm_index (mLabels ns) LabelPool = pool
      then (case gm_lookup (mAnnotations ns) AnnotationEnvStatus of
              Some val \<Rightarrow> if val = EnvStatusReady then ready @ [ns] else ready
            | None \<Rightarrow> ready)
      else ready)"

fun ready_owner_loop ::
  "string \<Rightarrow> namespace \<Rightarrow> owner_ref list \<Rightarrow> namespace list \<Rightarrow> namespace list" where
  "ready_owner_loop poolName ns [] ready = ready"
| "ready_owner_loop poolName ns (owner # os) ready =
     ready_owner_loop poolName ns os
       (if rKind owner = KindNamespacePool then CheckReadyStatus poolName ns ready else ready)"

fun ready_namespace_loop ::
  "string \<Rightarrow> namespace list \<Rightarrow> namespace list \<Rightarrow> namespace list" where
  "ready_namespace_loop poolName [] ready = ready"
| "ready_namespace_loop poolName (ns # nss) ready =
     ready_namespace_loop poolName nss
       (ready_owner_loop poolName ns (mOwnerReferences ns) ready)"

definition GetReadyNamespaces ::
  "'s env \<Rightarrow> string \<Rightarrow> ('s world, gerr + namespace list) state" where
  "GetReadyNamespaces E poolName = (
     let LabelPoolType = \<lparr>clLabel = LabelPool, clValue = poolName\<rparr>;
         validatedSelector = labels_ValidatedSelectorFromSet E (CustomLabel_ToMap LabelPoolType)
     in do {
       r \<leftarrow> listNs E (WithSelector validatedSelector);
       State_Monad.return (case r of
           Inl err \<Rightarrow> Inl (Errorf ''error listing namespaces for pool'' (Some err))
         | Inr items \<Rightarrow> Inr (ready_namespace_loop poolName items []))
     })"

definition UpdateAnnotations ::
  "'s env \<Rightarrow> string \<Rightarrow> smap \<Rightarrow> ('s world, gerr option) state" where
  "UpdateAnnotations E namespaceName annotations = do {
     (err, _) \<leftarrow> retry_on_conflict E (do {
       r \<leftarrow> GetNamespace E namespaceName;
       case r of
         Inl err \<Rightarrow> State_Monad.return
           (Some (Errorf ''error updating annotations for namespace'' (Some err)), zero_meta)
       | Inr namespace \<Rightarrow> (
           let namespace = namespace\<lparr>mAnnotations :=
                 utils_UpdateAnnotations E (mAnnotations namespace) annotations\<rparr>
           in do {
             u \<leftarrow> updateNs E namespace;
             State_Monad.return (case u of
                 Inl err \<Rightarrow> (Some (Errorf ''there was an issue updating annotations'' (Some err)),
                   namespace)
               | Inr updated \<Rightarrow> (None, updated))
           })
     });
     State_Monad.return err
   }"

definition DeleteNamespace :: "'s env \<Rightarrow> string \<Rightarrow> ('s world, gerr option) state" where
  "DeleteNamespace E namespaceName = do {
     u \<leftarrow> UpdateAnnotations E namespaceName (CustomAnnotation_ToMap AnnotationEnvDeleting);
     case u of
       Some err \<Rightarrow> State_Monad.return (Some (Errorf ''error updating annotations'' (Some err)))
     | None \<Rightarrow> do {
         r \<leftarrow> GetNamespace E namespaceName;
         case r of
           Inl err \<Rightarrow> State_Monad.return
             (Some (Errorf ''could not retrieve namespace to be deleted'' (Some err)))
         | Inr namespace \<Rightarrow> do {
             d \<leftarrow> deleteNs E namespace;
             State_Monad.return (case d of
                 Some err \<Rightarrow> Some (Errorf ''could not delete namespace'' (Some err))
               | None \<Rightarrow> None)
           }
       }
   }"

section \<open>Policies\<close>

text \<open>
  A policy says which calls are allowed. The calls that change nothing on the cluster, among
  them the updates of metrics that fit their collector, are the same for every policy of this
  development; what a policy adds is stated by the
  locales that extend \<open>read_policy\<close>.
\<close>

fun reads :: "'o act \<Rightarrow> bool" where
  "reads (Get k r) = True"
| "reads (ListAll opts r) = True"
| "reads _ = False"

fun is_read :: "event \<Rightarrow> bool" where
  "is_read (NsEv a) = reads a"
| "is_read (ProjectEv a) = reads a"
| "is_read (PoolEv a) = reads a"
| "is_read (ResEv a) = reads a"
| "is_read (EnvEv a) = reads a"
| "is_read (FrontendEv a) = reads a"
| "is_read (ServiceEv a) = reads a"
| "is_read (SecretEv a) = reads a"
| "is_read (ClusterEv a) = reads a"
| "is_read (UClusterEv a) = reads a"
| "is_read (RosaEv a) = reads a"
| "is_read (LimitRangeEv a) = reads a"
| "is_read (QuotaEv a) = reads a"
| "is_read (RoleBindingEv a) = reads a"
| "is_read (MetricEv m) = metric_fits m"
| "is_read _ = True"

locale read_policy =
  fixes ok :: "event \<Rightarrow> bool"
  assumes read_ok: "is_read e \<Longrightarrow> ok e"
begin

lemma emits_GetNamespace:
  assumes "lib_ok E"
  shows "emits ok (GetNamespace E n)"
  unfolding GetNamespace_def
  by (intro emits_intros assms read_ok) simp_all

lemma emits_GetReadyNamespaces: "emits ok (GetReadyNamespaces E p)"
  unfolding GetReadyNamespaces_def Let_def by (intro emits_intros read_ok) simp_all

end

locale annotate_policy = read_policy +
  assumes annotate_ok: "ok (NsEv (Update (ns\<lparr>mAnnotations := m\<rparr>) r))"
begin

lemma emits_UpdateAnnotations:
  assumes "lib_ok E"
  shows "emits ok (UpdateAnnotations E n a)"
  unfolding UpdateAnnotations_def Let_def
  by (intro emits_intros assms annotate_ok emits_GetNamespace)

end

locale delete_policy = annotate_policy +
  assumes delete_ok: "ok (NsEv (Delete ns r))"
begin

lemma emits_DeleteNamespace:
  assumes "lib_ok E"
  shows "emits ok (DeleteNamespace E n)"
  unfolding DeleteNamespace_def
  by (intro emits_intros emits_GetNamespace emits_UpdateAnnotations assms delete_ok)

end

section \<open>What a call did, read off its history\<close>

definition failed_gets :: "string \<Rightarrow> event list \<Rightarrow> bool" where
  "failed_gets n tr \<longleftrightarrow> (\<forall>e \<in> set tr. \<exists>err. e = NsEv (Get (cluster_key n) (Inl err)))"

lemma failed_gets_simps [simp]:
  "failed_gets n []"
  "failed_gets n (tr @ tr') \<longleftrightarrow> failed_gets n tr \<and> failed_gets n tr'"
  "failed_gets n (NsEv (Get k r) # tr) \<longleftrightarrow>
     k = cluster_key n \<and> (\<exists>err. r = Inl err) \<and> failed_gets n tr"
  by (auto simp: failed_gets_def)

text \<open>\<open>GetNamespace\<close> gives the answer of its last read; every read before it failed.\<close>

lemma wp_GetNamespace:
  assumes "lib_ok E"
    and post: "\<And>r tr w'. log w' = log w @ tr @ [NsEv (Get (cluster_key n) r)] \<Longrightarrow>
      failed_gets n tr \<Longrightarrow> active w' = active w \<Longrightarrow> Q r w'"
  shows "wp (GetNamespace E n) Q w"
proof -
  let ?I = "\<lambda>w'. (\<exists>tr. log w' = log w @ tr \<and> failed_gets n tr) \<and> active w' = active w"
  let ?res = "\<lambda>x. case fst x of Some e \<Rightarrow> Inl e | None \<Rightarrow> Inr (snd x)"
  let ?R = "\<lambda>x w'. \<exists>tr. log w' = log w @ tr @ [NsEv (Get (cluster_key n) (?res x))] \<and>
      failed_gets n tr \<and> active w' = active w"
  have "wp (retry_on_error E (do {
       r \<leftarrow> getNs E (cluster_key n);
       State_Monad.return (case r of
           Inl e \<Rightarrow> (Some e, zero_meta)
         | Inr ns \<Rightarrow> (None, ns))
     })) ?R w"
  proof (rule wp_retry_on_error [where I = ?I, OF assms(1)])
    fix w1 :: "'a world"
    assume "?I w1"
    then obtain tr where tr: "log w1 = log w @ tr" "failed_gets n tr" "active w1 = active w"
      by blast
    show "wp (do {
       r \<leftarrow> getNs E (cluster_key n);
       State_Monad.return (case r of
           Inl e \<Rightarrow> (Some e, zero_meta)
         | Inr ns \<Rightarrow> (None, ns))
     }) (\<lambda>x w'. (fst x \<noteq> None \<longrightarrow> ?I w') \<and> ?R x w') w1"
      unfolding wp_bind wp_return
      by (rule wp_k_call) (use tr in \<open>auto split: sum.splits intro!: exI [of _ tr] exI [of _ "tr @ _"]\<close>)
  qed simp
  then show ?thesis
    unfolding GetNamespace_def wp_bind
    by (rule wp_mono) (auto simp: prod.case_eq_if intro: post)
qed

lemma GetNamespace_log:
  assumes "lib_ok E" and "run_state (GetNamespace E n) w = (r, w')"
  shows "\<exists>tr. log w' = log w @ tr @ [NsEv (Get (cluster_key n) r)]"
proof -
  have "wp (GetNamespace E n) (\<lambda>r w'. \<exists>tr. log w' = log w @ tr @ [NsEv (Get (cluster_key n) r)]) w"
    by (rule wp_GetNamespace [OF assms(1)]) blast
  from wpD [OF this assms(2)] show ?thesis .
qed

text \<open>
  \<open>UpdateAnnotations\<close> succeeds when its last two calls are a read of the namespace and a
  write of that very answer with the annotations merged in; every write before failed.
\<close>

definition annotated :: "'s env \<Rightarrow> smap \<Rightarrow> namespace \<Rightarrow> namespace" where
  "annotated E a ns = ns\<lparr>mAnnotations := utils_UpdateAnnotations E (mAnnotations ns) a\<rparr>"

definition failed_annotates :: "'s env \<Rightarrow> string \<Rightarrow> smap \<Rightarrow> event list \<Rightarrow> bool" where
  "failed_annotates E n a tr \<longleftrightarrow> (\<forall>e \<in> set tr. (\<exists>r. e = NsEv (Get (cluster_key n) r)) \<or>
     (\<exists>ns err. e = NsEv (Update (annotated E a ns) (Inl err))))"

lemma failed_annotates_simps [simp]:
  "failed_annotates E n a []"
  "failed_annotates E n a (tr @ tr') \<longleftrightarrow> failed_annotates E n a tr \<and> failed_annotates E n a tr'"
  "failed_annotates E n a (NsEv (Get k r) # tr) \<longleftrightarrow>
     k = cluster_key n \<and> failed_annotates E n a tr"
  "failed_annotates E n a (NsEv (Update (annotated E a ns) (Inl err)) # tr) \<longleftrightarrow>
     failed_annotates E n a tr"
  "failed_gets n tr \<Longrightarrow> failed_annotates E n a tr"
  by (auto simp: failed_annotates_def failed_gets_def)

lemma annotated_simps [simp]:
  "mName (annotated E a ns) = mName ns"
  "mOwnerReferences (annotated E a ns) = mOwnerReferences ns"
  "mLabels (annotated E a ns) = mLabels ns"
  by (simp_all add: annotated_def)

lemma annotated_lookup:
  "lib_ok E \<Longrightarrow> gm_lookup (mAnnotations (annotated E a ns)) k =
     (case a k of Some v \<Rightarrow> Some v | None \<Rightarrow> gm_lookup (mAnnotations ns) k)"
  by (simp add: annotated_def lib_okD)

definition annotate_done :: "'s env \<Rightarrow> string \<Rightarrow> smap \<Rightarrow> event list \<Rightarrow> gerr option \<Rightarrow> bool" where
  "annotate_done E n a tr err \<longleftrightarrow> (case err of
       Some e \<Rightarrow> failed_annotates E n a tr
     | None \<Rightarrow> \<exists>tr0 ns ns'. failed_annotates E n a tr0 \<and>
         tr = tr0 @ [NsEv (Get (cluster_key n) (Inr ns)), NsEv (Update (annotated E a ns) (Inr ns'))])"

lemma wp_UpdateAnnotations:
  assumes "lib_ok E"
    and post: "\<And>err tr w'. log w' = log w @ tr \<Longrightarrow> annotate_done E n a tr err \<Longrightarrow>
      active w' = active w \<Longrightarrow> Q err w'"
  shows "wp (UpdateAnnotations E n a) Q w"
proof -
  let ?I = "\<lambda>w'. (\<exists>tr. log w' = log w @ tr \<and> failed_annotates E n a tr) \<and> active w' = active w"
  let ?R = "\<lambda>x w'. \<exists>tr. log w' = log w @ tr \<and> annotate_done E n a tr (fst x) \<and>
      active w' = active w"
  let ?body = "do {
       r \<leftarrow> GetNamespace E n;
       case r of
         Inl err \<Rightarrow> State_Monad.return
           (Some (Errorf ''error updating annotations for namespace'' (Some err)), zero_meta)
       | Inr namespace \<Rightarrow> (
           let namespace = namespace\<lparr>mAnnotations :=
                 utils_UpdateAnnotations E (mAnnotations namespace) a\<rparr>
           in do {
             u \<leftarrow> updateNs E namespace;
             State_Monad.return (case u of
                 Inl err \<Rightarrow> (Some (Errorf ''there was an issue updating annotations'' (Some err)),
                   namespace)
               | Inr updated \<Rightarrow> (None, updated))
           })
     }"
  have body: "wp ?body (\<lambda>x w'. (fst x \<noteq> None \<longrightarrow> ?I w') \<and> ?R x w') w1" if I: "?I w1" for w1
  proof -
    from I obtain tr1 where tr1: "log w1 = log w @ tr1" "failed_annotates E n a tr1"
        "active w1 = active w" by blast
    have "failed_annotates E n a (tr1 @ tr @ [NsEv (Get (cluster_key n) r)])"
      if "failed_gets n tr" for tr r using that tr1 by simp
    then show ?thesis
      unfolding wp_bind Let_def annotated_def [symmetric]
      by (intro wp_GetNamespace [OF assms(1)] wp_intros wp_bind [THEN iffD2])
        (auto simp: tr1 annotate_done_def split: sum.splits intro!: exI [of _ "tr1 @ _"])
  qed
  have "wp (retry_on_conflict E ?body) ?R w"
    by (rule wp_retry_on_conflict [where I = ?I, OF assms(1) body]) simp_all
  then show ?thesis
    unfolding UpdateAnnotations_def wp_bind
    by (rule wp_mono) (auto simp: prod.case_eq_if intro: post)
qed

section \<open>Creating and deleting namespaces\<close>

fun creates_namespace :: "event \<Rightarrow> bool" where
  "creates_namespace (NsEv (Create ns r)) = True"
| "creates_namespace (ProjectEv (Create p r)) = True"
| "creates_namespace _ = False"

fun deletes_namespace :: "event \<Rightarrow> bool" where
  "deletes_namespace (NsEv (Delete ns r)) = True"
| "deletes_namespace _ = False"

definition no_delete :: "event \<Rightarrow> bool" where
  "no_delete e \<longleftrightarrow> \<not> deletes_namespace e"

interpretation keeping: annotate_policy no_delete
  by unfold_locales (auto simp: no_delete_def elim!: deletes_namespace.elims)

interpretation anything: delete_policy "\<lambda>_. True"
  by unfold_locales simp_all

definition marked_deleting :: "'s env \<Rightarrow> event list \<Rightarrow> bool" where
  "marked_deleting E h \<longleftrightarrow> (\<exists>z z'. NsEv (Update
     (annotated E [AnnotationEnvStatus \<mapsto> EnvStatusDeleting] z) (Inr z')) \<in> set h)"

lemma annotate_done_marked:
  assumes "annotate_done E n [AnnotationEnvStatus \<mapsto> EnvStatusDeleting] tr None"
  shows "marked_deleting E tr"
proof -
  from assms obtain tr0 ns ns' where "tr = tr0 @ [NsEv (Get (cluster_key n) (Inr ns)),
      NsEv (Update (annotated E [AnnotationEnvStatus \<mapsto> EnvStatusDeleting] ns) (Inr ns'))]"
    by (auto simp: annotate_done_def)
  then show ?thesis
    unfolding marked_deleting_def by (intro exI [of _ ns] exI [of _ ns']) simp
qed

text \<open>
  \<open>DeleteNamespace\<close> deletes the object it read last, after it marked the namespace as
  being deleted.
\<close>

lemma follows_DeleteNamespace:
  assumes lib: "lib_ok E" and other: "\<And>h e. no_delete e \<Longrightarrow> \<Gamma> h e"
    and del: "\<And>tr ns r. marked_deleting E tr \<Longrightarrow>
      \<Gamma> (log w @ tr @ [NsEv (Get (cluster_key n) (Inr ns))]) (NsEv (Delete ns r))"
  shows "follows \<Gamma> (DeleteNamespace E n) w"
  unfolding DeleteNamespace_def ToMap_env_status
proof (rule follows_bind)
  show "follows \<Gamma> (UpdateAnnotations E n [AnnotationEnvStatus \<mapsto> EnvStatusDeleting]) w"
    by (rule emits_follows [OF keeping.emits_UpdateAnnotations [OF lib] other])
next
  fix u :: "gerr option" and w1 :: "'a world"
  assume u: "run_state (UpdateAnnotations E n [AnnotationEnvStatus \<mapsto> EnvStatusDeleting]) w = (u, w1)"
  have "wp (UpdateAnnotations E n [AnnotationEnvStatus \<mapsto> EnvStatusDeleting]) (\<lambda>u w1.
      \<exists>tr. log w1 = log w @ tr \<and> (u = None \<longrightarrow> marked_deleting E tr)) w"
    by (rule wp_UpdateAnnotations [OF lib]) (auto intro: annotate_done_marked)
  from wpD [OF this u] obtain tr where
    w1: "log w1 = log w @ tr" "u = None \<Longrightarrow> marked_deleting E tr" by blast
  note got = GetNamespace_log [OF lib]
  have "\<Gamma> (log w2) (NsEv (Delete ns d))"
    if run: "run_state (GetNamespace E n) w1 = (Inr ns, w2)" and "u = None" for ns w2 d
  proof -
    from got [OF run] obtain tr' where "log w2 = log w1 @ tr' @ [NsEv (Get (cluster_key n) (Inr ns))]" ..
    moreover have "marked_deleting E (tr @ tr')"
      using w1(2) that(2) by (auto simp: marked_deleting_def)
    ultimately show ?thesis using w1(1) del [of "tr @ tr'" ns d] by simp
  qed
  then show "follows \<Gamma> (case u of
      Some err \<Rightarrow> State_Monad.return (Some (Errorf ''error updating annotations'' (Some err)))
    | None \<Rightarrow> do {
        r \<leftarrow> GetNamespace E n;
        case r of
          Inl err \<Rightarrow> State_Monad.return
            (Some (Errorf ''could not retrieve namespace to be deleted'' (Some err)))
        | Inr namespace \<Rightarrow> do {
            d \<leftarrow> deleteNs E namespace;
            State_Monad.return (case d of
                Some err \<Rightarrow> Some (Errorf ''could not delete namespace'' (Some err))
              | None \<Rightarrow> None)
          }
      }) w1"
    by (intro follows_intros emits_follows [OF keeping.emits_GetNamespace [OF lib] other]) auto
qed

section \<open>Selecting the ready namespaces\<close>

definition offers :: "string \<Rightarrow> namespace \<Rightarrow> bool" where
  "offers p ns \<longleftrightarrow> gm_index (mLabels ns) LabelPool = p \<and>
     gm_lookup (mAnnotations ns) AnnotationEnvStatus = Some EnvStatusReady"

definition pool_owners :: "namespace \<Rightarrow> nat" where
  "pool_owners ns = length (filter (\<lambda>ow. rKind ow = KindNamespacePool) (mOwnerReferences ns))"

lemma CheckReadyStatus_offers:
  "CheckReadyStatus p ns ready = (if offers p ns then ready @ [ns] else ready)"
  by (auto simp: CheckReadyStatus_def offers_def split: option.splits)

lemma ready_owner_loop_replicate:
  "ready_owner_loop p ns os ready = ready @ (if offers p ns
     then replicate (length (filter (\<lambda>ow. rKind ow = KindNamespacePool) os)) ns else [])"
  by (induction os arbitrary: ready) (auto simp: CheckReadyStatus_offers)

lemma ready_namespace_loop_concat:
  "ready_namespace_loop p items ready = ready @
     concat (map (\<lambda>ns. if offers p ns then replicate (pool_owners ns) ns else []) items)"
  by (induction items arbitrary: ready) (auto simp: ready_owner_loop_replicate pool_owners_def)

definition ready_selector :: "'s env \<Rightarrow> string \<Rightarrow> list_opts" where
  "ready_selector E p = WithSelector (labels_ValidatedSelectorFromSet E [LabelPool \<mapsto> p])"

lemma wp_GetReadyNamespaces:
  assumes "\<And>err r s. r = Inl err \<Longrightarrow> Q (Inl (Errorf ''error listing namespaces for pool'' (Some err)))
      (w\<lparr>srv := s, log := log w @ [NsEv (ListAll (ready_selector E p) r)]\<rparr>)"
    and "\<And>items r s. r = Inr items \<Longrightarrow>
      Q (Inr (concat (map (\<lambda>ns. if offers p ns then replicate (pool_owners ns) ns else []) items)))
      (w\<lparr>srv := s, log := log w @ [NsEv (ListAll (ready_selector E p) r)]\<rparr>)"
  shows "wp (GetReadyNamespaces E p) Q w"
  unfolding GetReadyNamespaces_def Let_def wp_bind
  by (rule wp_k_call) (auto simp: ready_namespace_loop_concat ready_selector_def
      CustomLabel_ToMap_def assms [unfolded ready_selector_def] split: sum.split)

section \<open>Properties\<close>

text \<open>
  A successful \<open>UpdateAnnotations\<close> ends with a read of the namespace and the accepted
  write of exactly what was read with the annotations merged in, every earlier write having
  failed: each given annotation has its value, every other one the value just read.
\<close>

theorem update_annotations_read_modify_write:
  assumes "lib_ok E" and "run_state (UpdateAnnotations E n a) w = (None, w')"
  shows "\<exists>tr0 ns x ns'. log w' = log w @ tr0 @ [NsEv (Get (cluster_key n) (Inr ns)), NsEv (Update x (Inr ns'))] \<and>
    failed_annotates E n a tr0 \<and> x = ns\<lparr>mAnnotations := mAnnotations x\<rparr> \<and>
    (\<forall>k. gm_lookup (mAnnotations x) k =
       (case a k of Some v \<Rightarrow> Some v | None \<Rightarrow> gm_lookup (mAnnotations ns) k))"
proof -
  have "wp (UpdateAnnotations E n a)
      (\<lambda>err w'. \<exists>tr. log w' = log w @ tr \<and> annotate_done E n a tr err) w"
    by (rule wp_UpdateAnnotations [OF assms(1)]) blast
  from wpD [OF this assms(2)] obtain tr0 ns ns' where
    "log w' = log w @ tr0 @ [NsEv (Get (cluster_key n) (Inr ns)),
       NsEv (Update (annotated E a ns) (Inr ns'))]" "failed_annotates E n a tr0"
    by (auto simp: annotate_done_def)
  moreover have "annotated E a ns = ns\<lparr>mAnnotations := mAnnotations (annotated E a ns)\<rparr>"
    by (simp add: annotated_def)
  ultimately show ?thesis
    using annotated_lookup [OF assms(1), of a ns] by blast
qed

definition ready_ns :: namespace where
  "ready_ns = (sample_object ''n'')\<lparr>mLabels := Some [LabelPool \<mapsto> ''p''],
     mAnnotations := Some [AnnotationEnvStatus \<mapsto> EnvStatusReady, AnnotationReserved \<mapsto> ''false''],
     mOwnerReferences := [\<lparr>rAPIVersion = ''v1'', rKind = KindNamespacePool, rName = ''p'',
       rUID = ''uid'', rController = TruePtr\<rparr>]\<rparr>"

definition ready_sample :: sample where
  "ready_sample = empty_sample\<lparr>sm_ns := [(''n'', ready_ns)]\<rparr>"

lemmas access_run = sample_run ready_sample_def ready_ns_def sample_object_def zero_meta_def
  UpdateAnnotations_def GetNamespace_def GetReadyNamespaces_def CustomLabel_ToMap_def LabelPool_def
  KindNamespacePool_def CheckReadyStatus_def gm_index_def cluster_key_def numeral_3_eq_3

theorem update_annotations_read_modify_write_witness:
  "\<exists>x ns'. NsEv (Update x (Inr ns')) \<in> set (log (snd (run_state
     (UpdateAnnotations sample_env ''n'' [''k'' \<mapsto> ''v'']) (sample_world ready_sample)))) \<and>
     gm_lookup (mAnnotations x) ''k'' = Some ''v''"
proof -
  have "fst (run_state (UpdateAnnotations sample_env ''n'' [''k'' \<mapsto> ''v''])
      (sample_world ready_sample)) = None"
    by (simp add: access_run)
  then obtain w' where run: "run_state (UpdateAnnotations sample_env ''n'' [''k'' \<mapsto> ''v''])
      (sample_world ready_sample) = (None, w')"
    by (metis prod.collapse)
  from update_annotations_read_modify_write [OF sample_lib_ok run]
  obtain tr0 ns x ns' where "log w' = log (sample_world ready_sample) @ tr0 @
      [NsEv (Get (cluster_key ''n'') (Inr ns)), NsEv (Update x (Inr ns'))]"
    "\<forall>k. gm_lookup (mAnnotations x) k = (case [''k'' \<mapsto> ''v''] k of Some v \<Rightarrow> Some v
       | None \<Rightarrow> gm_lookup (mAnnotations ns) k)" by blast
  then have "NsEv (Update x (Inr ns')) \<in> set (log w')" "gm_lookup (mAnnotations x) ''k'' = Some ''v''"
    by simp_all
  then show ?thesis unfolding run snd_conv by blast
qed

text \<open>
  C38. The namespaces \<open>GetReadyNamespaces\<close> offers are, in the order of the listing, those that
  carry the pool's label, are annotated ready and are owned by a NamespacePool (once per such
  owner). A reserved namespace, which only its reservation owns, is not offered.
\<close>

theorem ready_namespaces_exact:
  assumes "run_state (GetReadyNamespaces E p) w = (Inr offered, w')"
  shows "\<exists>items. log w' = log w @ [NsEv (ListAll (ready_selector E p) (Inr items))] \<and>
    offered = concat (map (\<lambda>ns. if offers p ns then replicate (pool_owners ns) ns else []) items) \<and>
    set offered = {ns \<in> set items. offers p ns \<and> (\<exists>ow \<in> set (mOwnerReferences ns). rKind ow = KindNamespacePool)}"
proof -
  have "wp (GetReadyNamespaces E p) (\<lambda>r w'. \<forall>offered. r = Inr offered \<longrightarrow>
      (\<exists>items. log w' = log w @ [NsEv (ListAll (ready_selector E p) (Inr items))] \<and>
       offered = concat (map (\<lambda>ns. if offers p ns then replicate (pool_owners ns) ns else []) items))) w"
    by (rule wp_GetReadyNamespaces) auto
  from wpD [OF this assms] obtain items where
    items: "log w' = log w @ [NsEv (ListAll (ready_selector E p) (Inr items))]"
    "offered = concat (map (\<lambda>ns. if offers p ns then replicate (pool_owners ns) ns else []) items)"
    by blast
  have "0 < pool_owners ns \<longleftrightarrow> (\<exists>ow \<in> set (mOwnerReferences ns). rKind ow = KindNamespacePool)"
    for ns by (auto simp: pool_owners_def filter_empty_conv)
  then have "set offered =
      {ns \<in> set items. offers p ns \<and> (\<exists>ow \<in> set (mOwnerReferences ns). rKind ow = KindNamespacePool)}"
    by (auto simp: items(2) set_replicate_conv_if split: if_splits)
  with items show ?thesis by blast
qed

theorem ready_namespaces_exact_witness:
  "\<exists>items. set [ready_ns] = {ns \<in> set items. offers ''p'' ns \<and>
     (\<exists>ow \<in> set (mOwnerReferences ns). rKind ow = KindNamespacePool)}"
proof -
  have run: "fst (run_state (GetReadyNamespaces sample_env ''p'') (sample_world ready_sample)) =
      Inr [ready_ns]"
    by (simp add: access_run)
  then obtain w' where "run_state (GetReadyNamespaces sample_env ''p'') (sample_world ready_sample) =
      (Inr [ready_ns], w')" by (metis prod.collapse)
  from ready_namespaces_exact [OF this] show ?thesis by blast
qed

text \<open>
  \<open>DeleteNamespace\<close> deletes only the object it read just before, and only after a write
  that marks the namespace as being deleted was accepted.
\<close>

theorem delete_namespace_marks_first:
  assumes "lib_ok E" and "events (DeleteNamespace E n) w = pre @ NsEv (Delete ns r) # post"
  shows "\<exists>tr. pre = tr @ [NsEv (Get (cluster_key n) (Inr ns))] \<and> marked_deleting E tr"
proof -
  let ?G = "\<lambda>h e. \<forall>ns r. e = NsEv (Delete ns r) \<longrightarrow>
    (\<exists>tr. h = tr @ [NsEv (Get (cluster_key n) (Inr ns))] \<and> marked_deleting E tr)"
  have "follows ?G (DeleteNamespace E n) (w\<lparr>log := []\<rparr>)"
    by (rule follows_DeleteNamespace [OF assms(1)]) (auto simp: no_delete_def)
  from follows_events [OF this assms(2)] show ?thesis by simp
qed

theorem delete_namespace_marks_first_witness:
  "\<exists>pre ns r post. events (DeleteNamespace sample_env ''n'') (sample_world ready_sample) =
     pre @ NsEv (Delete ns r) # post \<and> (\<exists>tr. pre = tr @ [NsEv (Get (cluster_key ''n'') (Inr ns))] \<and>
     marked_deleting sample_env tr)"
proof -
  let ?evs = "events (DeleteNamespace sample_env ''n'') (sample_world ready_sample)"
  have "\<exists>ns r. ?evs = take 3 ?evs @ NsEv (Delete ns r) # []"
    by (simp add: DeleteNamespace_def access_run)
  then obtain ns r where evs: "?evs = take 3 ?evs @ NsEv (Delete ns r) # []" by blast
  from delete_namespace_marks_first [OF sample_lib_ok this] evs show ?thesis by blast
qed

end
