(* ===== verification/Secret_Copy.thy ===== *)
theory Secret_Copy
  imports Namespace_Access
begin

text \<open>
  \<^verbatim>\<open>CopySecretsFrom\<close> of \<^verbatim>\<open>helpers/namespaces.go\<close> and the team secrets of
  \<^verbatim>\<open>helpers/reservation.go\<close>. The loop's five name lists are the fields of a summary
  record; the log lines it feeds are not modelled.
\<close>

section \<open>CopySecretsFrom\<close>

record copy_summary =
  skippedMissingAnnotation :: "string list"
  skippedAnnotationMismatch :: "string list"
  skippedBonfireIgnore :: "string list"
  successful :: "string list"
  failed :: "string list"

definition empty_summary :: copy_summary where
  "empty_summary = \<lparr>skippedMissingAnnotation = [], skippedAnnotationMismatch = [],
     skippedBonfireIgnore = [], successful = [], failed = []\<rparr>"

definition zero_secret :: secret where
  "zero_secret = k8sobj.extend zero_meta \<lparr>secretPayload = ''''\<rparr>"

definition note_failed :: "secret \<Rightarrow> copy_summary \<Rightarrow> copy_summary" where
  "note_failed sec sm = sm\<lparr>failed := failed sm @ [mName sec]\<rparr>"

definition note_successful :: "secret \<Rightarrow> copy_summary \<Rightarrow> copy_summary" where
  "note_successful sec sm = sm\<lparr>successful := successful sm @ [mName sec]\<rparr>"

text \<open>Creating the copy in the target, and what is done when a secret of the name is there.\<close>

definition create_secret_copy ::
  "'s env \<Rightarrow> string \<Rightarrow> bool \<Rightarrow> secret \<Rightarrow> secret \<Rightarrow> copy_summary \<Rightarrow> ('s world, copy_summary) state"
where
  "create_secret_copy E namespaceName overwrite sec newNamespaceSecret sm = do {
     c \<leftarrow> createSecret E newNamespaceSecret;
     case c of
       Inr _ \<Rightarrow> State_Monad.return (note_successful sec sm)
     | Inl err \<Rightarrow>
         (if IsAlreadyExists err then
           (if overwrite then do {
              d \<leftarrow> deleteSecret E (zero_secret\<lparr>mName := mName sec, mNamespace := namespaceName\<rparr>);
              case d of
                Some _ \<Rightarrow> State_Monad.return (note_failed sec sm)
              | None \<Rightarrow> do {
                  c2 \<leftarrow> createSecret E newNamespaceSecret;
                  case c2 of
                    Inl _ \<Rightarrow> State_Monad.return (note_failed sec sm)
                  | Inr _ \<Rightarrow> State_Monad.return (note_successful sec sm)
                }
            }
            else State_Monad.return (note_successful sec sm))
          else State_Monad.return (note_failed sec sm))
   }"

definition copy_one_secret ::
  "'s env \<Rightarrow> string \<Rightarrow> bool \<Rightarrow> secret \<Rightarrow> copy_summary \<Rightarrow> ('s world, copy_summary) state" where
  "copy_one_secret E namespaceName overwrite sec sm =
     (case gm_lookup (mAnnotations sec) QontractIntegrationAnnotation of
        None \<Rightarrow> State_Monad.return
          (sm\<lparr>skippedMissingAnnotation := skippedMissingAnnotation sm @ [mName sec]\<rparr>)
      | Some val \<Rightarrow>
          if val \<noteq> OpenShiftVaultSecretsProvider \<and> val \<noteq> OpenShiftRhcsCertsProvider
          then State_Monad.return
            (sm\<lparr>skippedAnnotationMismatch := skippedAnnotationMismatch sm @ [mName sec]\<rparr>)
          else if gm_lookup (mAnnotations sec) BonfireIgnoreAnnotation = Some ''true''
          then State_Monad.return
            (sm\<lparr>skippedBonfireIgnore := skippedBonfireIgnore sm @ [mName sec]\<rparr>)
          else do {
            r \<leftarrow> utils_CopySecret E (mNamespace sec, mName sec) (namespaceName, mName sec);
            case r of
              Inl _ \<Rightarrow> State_Monad.return (note_failed sec sm)
            | Inr newNamespaceSecret \<Rightarrow>
                create_secret_copy E namespaceName overwrite sec newNamespaceSecret sm
          })"

fun copy_secrets_loop ::
  "'s env \<Rightarrow> string \<Rightarrow> bool \<Rightarrow> secret list \<Rightarrow> copy_summary \<Rightarrow> ('s world, copy_summary) state" where
  "copy_secrets_loop E namespaceName overwrite [] sm = State_Monad.return sm"
| "copy_secrets_loop E namespaceName overwrite (sec # secs) sm = do {
     sm' \<leftarrow> copy_one_secret E namespaceName overwrite sec sm;
     copy_secrets_loop E namespaceName overwrite secs sm'
   }"

definition CopySecretsFrom ::
  "'s env \<Rightarrow> string \<Rightarrow> string \<Rightarrow> bool \<Rightarrow> ('s world, gerr option) state" where
  "CopySecretsFrom E srcNamespace namespaceName overwrite = do {
     r \<leftarrow> listSecrets E (InNamespace srcNamespace);
     case r of
       Inl err \<Rightarrow> State_Monad.return (Some (Errorf ''could not list secrets'' (Some err)))
     | Inr secrets \<Rightarrow> do {
         sm \<leftarrow> copy_secrets_loop E namespaceName overwrite secrets empty_summary;
         State_Monad.return
           (if length (failed sm) > 0 then Some (Errorf ''failed to copy secrets to namespace'' None)
            else None)
       }
   }"

definition CopySecrets :: "'s env \<Rightarrow> string \<Rightarrow> ('s world, gerr option) state" where
  "CopySecrets E namespaceName = CopySecretsFrom E NamespaceEphemeralBase namespaceName False"

section \<open>Team secrets\<close>

fun findTeamByName :: "team list \<Rightarrow> string \<Rightarrow> team option" where
  "findTeamByName [] teamNm = None"
| "findTeamByName (t # ts) teamNm = (if teamName t = teamNm then Some t else findTeamByName ts teamNm)"

fun findSecretByName :: "secret list \<Rightarrow> string \<Rightarrow> secret option" where
  "findSecretByName [] secretName = None"
| "findSecretByName (s # ss) secretName =
     (if mName s = secretName then Some s else findSecretByName ss secretName)"

definition copySecretToNamespace ::
  "'s env \<Rightarrow> secret \<Rightarrow> secrets_data \<Rightarrow> string \<Rightarrow> ('s world, gerr option) state" where
  "copySecretToNamespace E sec teamSecret targetNamespace = (
     let sourceNamespaceName = (mNamespace sec, mName sec);
         destinationSecretName =
           (if sdDestName teamSecret \<noteq> '''' then sdDestName teamSecret else sdName teamSecret);
         destinationNamespaceName = (targetNamespace, destinationSecretName)
     in do {
       r \<leftarrow> utils_CopySecret E sourceNamespaceName destinationNamespaceName;
       case r of
         Inl err \<Rightarrow> State_Monad.return (Some (Errorf ''could not copy secret'' (Some err)))
       | Inr newNamespaceSecret \<Rightarrow> do {
           c \<leftarrow> createSecret E newNamespaceSecret;
           State_Monad.return (case c of
               Inl err \<Rightarrow> Some (Errorf ''could not create secret'' (Some err))
             | Inr _ \<Rightarrow> None)
         }
     })"

fun copyTeamSecrets ::
  "'s env \<Rightarrow> secret list \<Rightarrow> secrets_data list \<Rightarrow> string \<Rightarrow> ('s world, gerr option) state" where
  "copyTeamSecrets E availableSecrets [] targetNamespace = State_Monad.return None"
| "copyTeamSecrets E availableSecrets (teamSecret # rest) targetNamespace =
     (case findSecretByName availableSecrets (sdName teamSecret) of
        None \<Rightarrow> copyTeamSecrets E availableSecrets rest targetNamespace
      | Some sec \<Rightarrow> do {
          r \<leftarrow> copySecretToNamespace E sec teamSecret targetNamespace;
          case r of
            Some err \<Rightarrow> State_Monad.return (Some (Errorf ''failed to copy secret'' (Some err)))
          | None \<Rightarrow> copyTeamSecrets E availableSecrets rest targetNamespace
        })"

text \<open>An error of the pool read is logged and leaves the zero pool, which has no teams.\<close>

definition CopyReservationSecrets ::
  "'s env \<Rightarrow> string \<Rightarrow> reservation \<Rightarrow> ('s world, gerr option) state" where
  "CopyReservationSecrets E namespaceName res = do {
     p \<leftarrow> getPool E (NamespaceHcmAi, ''ai-development'');
     l \<leftarrow> listSecrets E (InNamespace NamespaceHcmAi);
     case l of
       Inl err \<Rightarrow> State_Monad.return (Some (Errorf ''could not list secrets'' (Some err)))
     | Inr secrets \<Rightarrow> (
         let allTeams = (case p of Inl _ \<Rightarrow> [] | Inr nsPoolObject \<Rightarrow> psTeams (poolSpec nsPoolObject))
         in case findTeamByName allTeams (rsTeam (resSpec res)) of
              None \<Rightarrow> State_Monad.return None
            | Some t \<Rightarrow> copyTeamSecrets E secrets (teamSecrets t) namespaceName)
   }"

section \<open>Which secrets are copied\<close>

locale secret_policy = read_policy +
  assumes secret_ok: "ok (SecretEv a)"
begin

lemma emits_copy_one_secret: "emits ok (copy_one_secret E n ow sec sm)"
  unfolding copy_one_secret_def create_secret_copy_def
  by (intro emits_intros secret_ok read_ok) simp_all

lemma emits_copy_secrets_loop: "emits ok (copy_secrets_loop E n ow secs sm)"
  by (induction secs arbitrary: sm) (auto intro!: emits_return emits_bind emits_copy_one_secret)

lemma emits_CopySecretsFrom: "emits ok (CopySecretsFrom E src n ow)"
  unfolding CopySecretsFrom_def
  by (intro emits_intros secret_ok emits_copy_secrets_loop)

lemma emits_copyTeamSecrets: "emits ok (copyTeamSecrets E av ts n)"
proof (induction ts)
  case (Cons t ts)
  then show ?case
    unfolding copyTeamSecrets.simps copySecretToNamespace_def Let_def
    by (intro emits_intros secret_ok read_ok) simp_all
qed (simp add: emits_return)

lemma emits_CopyReservationSecrets: "emits ok (CopyReservationSecrets E n res)"
  unfolding CopyReservationSecrets_def Let_def
  by (intro emits_intros secret_ok read_ok emits_copyTeamSecrets) simp_all

end

text \<open>Every call extends the history; a policy of its own for what touches only secrets.\<close>

definition secrets_only :: "event \<Rightarrow> bool" where
  "secrets_only e \<longleftrightarrow> is_read e \<or> (case e of SecretEv a \<Rightarrow> True | _ \<Rightarrow> False)"

interpretation any_secret: secret_policy secrets_only
  by unfold_locales (simp_all add: secrets_only_def)

text \<open>The secrets the loop copies, and the writes it may do after the history \<open>h\<close>.\<close>

definition has_provider :: "secret \<Rightarrow> bool" where
  "has_provider sec \<longleftrightarrow> (case gm_lookup (mAnnotations sec) QontractIntegrationAnnotation of
       None \<Rightarrow> False
     | Some v \<Rightarrow> v = OpenShiftVaultSecretsProvider \<or> v = OpenShiftRhcsCertsProvider)"

definition eligible :: "secret \<Rightarrow> bool" where
  "eligible sec \<longleftrightarrow> has_provider sec \<and>
     gm_lookup (mAnnotations sec) BonfireIgnoreAnnotation \<noteq> Some ''true''"

definition copy_of :: "string \<Rightarrow> string \<Rightarrow> event list \<Rightarrow> secret \<Rightarrow> bool" where
  "copy_of src tgt h x \<longleftrightarrow> (\<exists>items sec.
     SecretEv (ListAll (InNamespace src) (Inr items)) \<in> set h \<and> sec \<in> set items \<and> eligible sec \<and>
     CopySecretEv (mNamespace sec, mName sec) (tgt, mName sec) (Inr x) \<in> set h)"

definition copy_guard :: "string \<Rightarrow> string \<Rightarrow> bool \<Rightarrow> event list \<Rightarrow> event \<Rightarrow> bool" where
  "copy_guard src tgt overwrite h e \<longleftrightarrow> (case e of
       SecretEv (ListAll opts r) \<Rightarrow> opts = InNamespace src
     | CopySecretEv s d r \<Rightarrow> fst d = tgt \<and> snd d = snd s
     | SecretEv (Create x r) \<Rightarrow> copy_of src tgt h x
     | SecretEv (Delete x r) \<Rightarrow> overwrite \<and> mNamespace x = tgt \<and>
         (\<exists>h0 y err. h = h0 @ [SecretEv (Create y (Inl err))] \<and> IsAlreadyExists err)
     | _ \<Rightarrow> False)"

lemma copy_of_intro:
  assumes "SecretEv (ListAll (InNamespace src) (Inr items)) \<in> set h" "sec \<in> set items" "eligible sec"
    and "CopySecretEv (mNamespace sec, mName sec) (tgt, mName sec) (Inr x) \<in> set h"
  shows "copy_of src tgt h x"
  using assms unfolding copy_of_def by blast

lemma copy_one_secret_eligible:
  "eligible sec \<Longrightarrow> copy_one_secret E n ow sec sm = do {
     r \<leftarrow> utils_CopySecret E (mNamespace sec, mName sec) (n, mName sec);
     case r of
       Inl _ \<Rightarrow> State_Monad.return (note_failed sec sm)
     | Inr newNamespaceSecret \<Rightarrow> create_secret_copy E n ow sec newNamespaceSecret sm
   }"
  by (auto simp: copy_one_secret_def eligible_def has_provider_def split: option.splits)

text \<open>What is noted of a secret that is not copied.\<close>

definition note_skipped :: "secret \<Rightarrow> copy_summary \<Rightarrow> copy_summary" where
  "note_skipped sec sm =
     (if gm_lookup (mAnnotations sec) QontractIntegrationAnnotation = None
      then sm\<lparr>skippedMissingAnnotation := skippedMissingAnnotation sm @ [mName sec]\<rparr>
      else if \<not> has_provider sec
      then sm\<lparr>skippedAnnotationMismatch := skippedAnnotationMismatch sm @ [mName sec]\<rparr>
      else sm\<lparr>skippedBonfireIgnore := skippedBonfireIgnore sm @ [mName sec]\<rparr>)"

lemma copy_one_secret_skipped:
  "\<not> eligible sec \<Longrightarrow> copy_one_secret E n ow sec sm = State_Monad.return (note_skipped sec sm)"
  by (auto simp: copy_one_secret_def eligible_def has_provider_def note_skipped_def
      split: option.splits)

lemma follows_copy_one_secret:
  assumes "SecretEv (ListAll (InNamespace src) (Inr items)) \<in> set (log w)" and "sec \<in> set items"
  shows "follows (copy_guard src tgt ow) (copy_one_secret E tgt ow sec sm) w"
proof (cases "eligible sec")
  case True
  with assms show ?thesis
    unfolding copy_one_secret_eligible [OF True] create_secret_copy_def
    by (intro follows_intros) (auto simp: copy_guard_def intro!: copy_of_intro split: if_splits)
qed (simp add: copy_one_secret_skipped follows_return)

lemma follows_copy_secrets_loop:
  assumes "SecretEv (ListAll (InNamespace src) (Inr items)) \<in> set (log w)"
    and "set secs \<subseteq> set items"
  shows "follows (copy_guard src tgt ow) (copy_secrets_loop E tgt ow secs sm) w"
  using assms
proof (induction secs arbitrary: sm w)
  case (Cons sec secs)
  show ?case
    unfolding copy_secrets_loop.simps
  proof (rule follows_bind)
    show "follows (copy_guard src tgt ow) (copy_one_secret E tgt ow sec sm) w"
      using Cons.prems by (intro follows_copy_one_secret) auto
    fix sm' w'
    assume "run_state (copy_one_secret E tgt ow sec sm) w = (sm', w')"
    then obtain tr where "log w' = log w @ tr"
      using emits_log [OF any_secret.emits_copy_one_secret] by metis
    with Cons.prems show "follows (copy_guard src tgt ow) (copy_secrets_loop E tgt ow secs sm') w'"
      by (intro Cons.IH) auto
  qed
qed (simp add: follows_return)

lemma follows_CopySecretsFrom:
  "follows (copy_guard src tgt ow) (CopySecretsFrom E src tgt ow) w"
  unfolding CopySecretsFrom_def
  by (intro follows_intros follows_copy_secrets_loop) (auto simp: copy_guard_def)

section \<open>What the summary says\<close>

text \<open>
  \<open>placed\<close>: among the calls \<open>tr\<close>, the copy of \<open>sec\<close> was made and the target accepted it, or
  already had a secret of that name that was not to be overwritten.
\<close>

definition placed :: "string \<Rightarrow> bool \<Rightarrow> event list \<Rightarrow> secret \<Rightarrow> bool" where
  "placed tgt overwrite tr sec \<longleftrightarrow> (\<exists>x r.
     CopySecretEv (mNamespace sec, mName sec) (tgt, mName sec) (Inr x) \<in> set tr \<and>
     SecretEv (Create x r) \<in> set tr \<and>
     (case r of Inr _ \<Rightarrow> True | Inl err \<Rightarrow> \<not> overwrite \<and> IsAlreadyExists err))"

lemma placed_mono: "placed tgt ow tr sec \<Longrightarrow> set tr \<subseteq> set tr' \<Longrightarrow> placed tgt ow tr' sec"
  unfolding placed_def by blast

lemma wp_copy_one_secret:
  assumes "eligible sec"
  shows "wp (copy_one_secret E tgt ow sec sm) (\<lambda>sm' w'. \<exists>tr. log w' = log w @ tr \<and>
    (sm' = note_failed sec sm \<or> sm' = note_successful sec sm \<and> placed tgt ow tr sec)) w"
  unfolding copy_one_secret_eligible [OF assms] create_secret_copy_def
  by (intro wp_bind [THEN iffD2] wp_intros wp_k_call) (auto simp: placed_def)

definition copy_report ::
  "string \<Rightarrow> bool \<Rightarrow> secret list \<Rightarrow> copy_summary \<Rightarrow> copy_summary \<Rightarrow> event list \<Rightarrow> bool" where
  "copy_report tgt overwrite secs sm sm' tr \<longleftrightarrow> (\<exists>good bad.
     successful sm' = successful sm @ map mName good \<and> failed sm' = failed sm @ map mName bad \<and>
     mset good + mset bad = mset (filter eligible secs) \<and>
     (\<forall>sec \<in> set good. placed tgt overwrite tr sec) \<and>
     mset (skippedMissingAnnotation sm') + mset (skippedAnnotationMismatch sm') +
       mset (skippedBonfireIgnore sm') =
     mset (skippedMissingAnnotation sm) + mset (skippedAnnotationMismatch sm) +
       mset (skippedBonfireIgnore sm) + mset (map mName (filter (\<lambda>s. \<not> eligible s) secs)))"

lemma copy_report_Nil: "copy_report tgt ow [] sm sm []"
  by (simp add: copy_report_def)

lemma copy_report_skip:
  "\<not> eligible sec \<Longrightarrow> copy_report tgt ow secs (note_skipped sec sm) sm' tr \<Longrightarrow>
   copy_report tgt ow (sec # secs) sm sm' tr"
  by (auto simp: copy_report_def note_skipped_def split: if_splits)

lemma copy_report_failed:
  assumes "eligible sec" and "copy_report tgt ow secs (note_failed sec sm) sm' tr'"
  shows "copy_report tgt ow (sec # secs) sm sm' (tr @ tr')"
proof -
  from assms(2) obtain good bad where "mset good + mset bad = mset (filter eligible secs)"
      "successful sm' = successful sm @ map mName good"
      "failed sm' = failed sm @ map mName (sec # bad)"
      "\<forall>s \<in> set good. placed tgt ow tr' s"
    by (auto simp: copy_report_def note_failed_def)
  with assms show ?thesis
    unfolding copy_report_def
    by (intro exI [of _ good] exI [of _ "sec # bad"])
      (auto simp: note_failed_def copy_report_def intro: placed_mono)
qed

lemma copy_report_successful:
  assumes "eligible sec" and "copy_report tgt ow secs (note_successful sec sm) sm' tr'"
    and "placed tgt ow tr sec"
  shows "copy_report tgt ow (sec # secs) sm sm' (tr @ tr')"
proof -
  from assms(2) obtain good bad where "mset good + mset bad = mset (filter eligible secs)"
      "successful sm' = successful sm @ map mName (sec # good)"
      "failed sm' = failed sm @ map mName bad"
      "\<forall>s \<in> set good. placed tgt ow tr' s"
    by (auto simp: copy_report_def note_successful_def)
  with assms show ?thesis
    unfolding copy_report_def
    by (intro exI [of _ "sec # good"] exI [of _ bad])
      (auto simp: note_successful_def copy_report_def intro: placed_mono)
qed

lemma wp_copy_secrets_loop:
  "wp (copy_secrets_loop E tgt ow secs sm)
     (\<lambda>sm' w'. \<exists>tr. log w' = log w @ tr \<and> copy_report tgt ow secs sm sm' tr) w"
proof (induction secs arbitrary: sm w)
  case Nil
  then show ?case by (simp add: copy_report_Nil)
next
  case (Cons sec secs)
  show ?case
  proof (cases "eligible sec")
    case False
    then show ?thesis
      by (auto simp: copy_one_secret_skipped intro: wp_mono [OF Cons.IH] copy_report_skip)
  next
    case True
    show ?thesis
      unfolding copy_secrets_loop.simps wp_bind
    proof (rule wp_mono [OF wp_copy_one_secret [OF True]], elim exE conjE)
      fix sm1 tr and w1 :: "'a world"
      assume w1: "log w1 = log w @ tr"
        and out: "sm1 = note_failed sec sm \<or> sm1 = note_successful sec sm \<and> placed tgt ow tr sec"
      show "wp (copy_secrets_loop E tgt ow secs sm1)
          (\<lambda>sm' w'. \<exists>tr. log w' = log w @ tr \<and> copy_report tgt ow (sec # secs) sm sm' tr) w1"
      proof (rule wp_mono [OF Cons.IH], elim exE conjE)
        fix sm' tr' and w' :: "'a world"
        assume w': "log w' = log w1 @ tr'" and rep: "copy_report tgt ow secs sm1 sm' tr'"
        with out have "copy_report tgt ow (sec # secs) sm sm' (tr @ tr')"
          using copy_report_failed [OF True] copy_report_successful [OF True] by metis
        with w1 w' show "\<exists>tr. log w' = log w @ tr \<and> copy_report tgt ow (sec # secs) sm sm' tr"
          by (intro exI [of _ "tr @ tr'"]) simp
      qed
    qed
  qed
qed

section \<open>Team secrets, by name\<close>

locale keyed_find =
  fixes find :: "'o list \<Rightarrow> string \<Rightarrow> 'o option" and name_of :: "'o \<Rightarrow> string"
  assumes find_empty: "find [] n = None"
    and find_step: "find (x # xs) n = (if name_of x = n then Some x else find xs n)"
begin

lemma find_is_List_find: "find xs n = List.find (\<lambda>x. name_of x = n) xs"
  by (induction xs) (simp_all add: find_empty find_step)

lemma found_sound: "find xs n = Some x \<Longrightarrow> x \<in> set xs \<and> name_of x = n"
  using find_SomeD [of "\<lambda>x. name_of x = n" xs x] by (simp add: find_is_List_find)

lemma found_None_iff: "find xs n = None \<longleftrightarrow> n \<notin> name_of ` set xs"
  by (auto simp: find_is_List_find find_None_iff)

lemma found_first:
  "find xs n = Some x \<Longrightarrow> \<exists>ys zs. xs = ys @ x # zs \<and> (\<forall>y \<in> set ys. name_of y \<noteq> n)"
  using find_Some_split [of "\<lambda>x. name_of x = n" xs x] by (auto simp: find_is_List_find)

end

interpretation team_find: keyed_find findTeamByName teamName
  by unfold_locales simp_all

interpretation secret_find: keyed_find findSecretByName mName
  by unfold_locales simp_all

text \<open>The writes of \<open>CopyReservationSecrets\<close> to the namespace \<open>n\<close> after the history \<open>h\<close>.\<close>

definition dest_name :: "secrets_data \<Rightarrow> string" where
  "dest_name d = (if sdDestName d \<noteq> '''' then sdDestName d else sdName d)"

definition team_copy :: "string \<Rightarrow> reservation \<Rightarrow> event list \<Rightarrow> secret \<Rightarrow> bool" where
  "team_copy n res h x \<longleftrightarrow> (\<exists>h0 p t d items sec.
     h = h0 @ [CopySecretEv (mNamespace sec, mName sec) (n, dest_name d) (Inr x)] \<and>
     PoolEv (Get (NamespaceHcmAi, PoolAiDevelopment) (Inr p)) \<in> set h0 \<and>
     SecretEv (ListAll (InNamespace NamespaceHcmAi) (Inr items)) \<in> set h0 \<and>
     t \<in> set (psTeams (poolSpec p)) \<and> teamName t = rsTeam (resSpec res) \<and>
     d \<in> set (teamSecrets t) \<and> sec \<in> set items \<and> mName sec = sdName d)"

definition team_guard :: "string \<Rightarrow> reservation \<Rightarrow> event list \<Rightarrow> event \<Rightarrow> bool" where
  "team_guard n res h e \<longleftrightarrow>
     is_read e \<or> (\<exists>x r. e = SecretEv (Create x r) \<and> team_copy n res h x)"

lemma team_copy_intro:
  assumes "PoolEv (Get (NamespaceHcmAi, PoolAiDevelopment) (Inr p)) \<in> set h"
    "SecretEv (ListAll (InNamespace NamespaceHcmAi) (Inr items)) \<in> set h"
    "t \<in> set (psTeams (poolSpec p))" "teamName t = rsTeam (resSpec res)"
    "d \<in> set (teamSecrets t)" "sec \<in> set items" "mName sec = sdName d"
  shows "team_guard n res
    (h @ [CopySecretEv (mNamespace sec, sdName d) (n, dest_name d) (Inr x)]) (SecretEv (Create x r))"
  using assms unfolding team_guard_def team_copy_def by metis

lemma follows_copyTeamSecrets:
  assumes "PoolEv (Get (NamespaceHcmAi, PoolAiDevelopment) (Inr p)) \<in> set (log w)"
    "SecretEv (ListAll (InNamespace NamespaceHcmAi) (Inr items)) \<in> set (log w)"
    "t \<in> set (psTeams (poolSpec p))" "teamName t = rsTeam (resSpec res)"
    "set ds \<subseteq> set (teamSecrets t)"
  shows "follows (team_guard n res) (copyTeamSecrets E items ds n) w"
  using assms
proof (induction ds arbitrary: w)
  case (Cons d ds)
  show ?case
  proof (cases "findSecretByName items (sdName d)")
    case None
    with Cons show ?thesis by simp
  next
    case (Some sec)
    then have "sec \<in> set items" "mName sec = sdName d"
      by (auto dest: secret_find.found_sound)
    with Cons Some show ?thesis
      unfolding copyTeamSecrets.simps copySecretToNamespace_def Let_def dest_name_def [symmetric]
      by (simp only: option.case)
        (intro follows_intros, auto simp: team_guard_def [of _ _ _ "CopySecretEv _ _ _"]
          intro!: team_copy_intro split: sum.splits)
  qed
qed (simp add: follows_return)

lemma follows_CopyReservationSecrets:
  "follows (team_guard n res) (CopyReservationSecrets E n res) w"
  unfolding CopyReservationSecrets_def Let_def
  by (intro follows_intros)
    (auto simp: team_guard_def [of _ _ _ "PoolEv _"] team_guard_def [of _ _ _ "SecretEv (ListAll _ _)"]
      PoolAiDevelopment_def dest!: team_find.found_sound intro!: follows_copyTeamSecrets
      split: sum.splits)

text \<open>A round of copies without an error.\<close>

definition copied_all :: "string \<Rightarrow> string \<Rightarrow> bool \<Rightarrow> event list \<Rightarrow> bool" where
  "copied_all src tgt overwrite tr \<longleftrightarrow> (\<exists>items tr'.
     tr = SecretEv (ListAll (InNamespace src) (Inr items)) # tr' \<and>
     (\<forall>sec \<in> set items. eligible sec \<longrightarrow> placed tgt overwrite tr' sec))"

lemma copy_report_all_placed:
  assumes "copy_report tgt ow secs empty_summary sm' tr" and "failed sm' = []"
  shows "\<forall>sec \<in> set secs. eligible sec \<longrightarrow> placed tgt ow tr sec"
proof -
  from assms obtain good where "mset good = mset (filter eligible secs)"
      "\<forall>sec \<in> set good. placed tgt ow tr sec"
    by (auto simp: copy_report_def empty_summary_def)
  moreover from this(1) have "set good = set (filter eligible secs)" by (rule mset_eq_setD)
  ultimately show ?thesis by auto
qed

lemma wp_CopySecretsFrom:
  assumes "\<And>r tr w'. log w' = log w @ tr \<Longrightarrow> (r = None \<Longrightarrow> copied_all src tgt overwrite tr) \<Longrightarrow> Q r w'"
  shows "wp (CopySecretsFrom E src tgt overwrite) Q w"
proof -
  have "wp (CopySecretsFrom E src tgt overwrite) (\<lambda>r w'. \<exists>tr. log w' = log w @ tr \<and>
      (r = None \<longrightarrow> copied_all src tgt overwrite tr)) w"
    unfolding CopySecretsFrom_def
    by (intro wp_bind [THEN iffD2] wp_intros wp_k_call wp_mono [OF wp_copy_secrets_loop])
      (auto simp: copied_all_def dest: copy_report_all_placed split: if_splits)
  then show ?thesis by (rule wp_mono) (use assms in blast)
qed

lemma copied_all_run:
  assumes "run_state (CopySecretsFrom E src tgt overwrite) w = (None, w')"
  obtains tr where "log w' = log w @ tr" "copied_all src tgt overwrite tr"
proof -
  have "wp (CopySecretsFrom E src tgt overwrite)
      (\<lambda>r w'. r = None \<longrightarrow> (\<exists>tr. log w' = log w @ tr \<and> copied_all src tgt overwrite tr)) w"
    by (rule wp_CopySecretsFrom) blast
  from wpD [OF this assms] that show ?thesis by blast
qed

section \<open>Properties\<close>

text \<open>
  C14. Every write of \<open>CopySecretsFrom\<close> is allowed by \<open>copy_guard\<close>: it creates only copies,
  under the same name and in the target namespace, of listed secrets of the source namespace
  that carry one of the two providers and are not marked \<^verbatim>\<open>bonfire.ignore\<close>; it deletes a
  secret only in the target, only if asked to overwrite, and only right after a create was
  refused because the name was taken.
\<close>

theorem copy_writes_only_copies:
  assumes "events (CopySecretsFrom E src tgt overwrite) w = pre @ e # post"
  shows "copy_guard src tgt overwrite pre e"
  using follows_events [OF follows_CopySecretsFrom assms] .

definition secret_sample :: sample where
  "secret_sample = empty_sample\<lparr>sm_secrets :=
     [(''s'', k8sobj.extend ((sample_object ''s'')\<lparr>mAnnotations := Some
        [QontractIntegrationAnnotation \<mapsto> OpenShiftVaultSecretsProvider]\<rparr>) \<lparr>secretPayload = ''p''\<rparr>),
      (''t'', k8sobj.extend (sample_object ''t'') \<lparr>secretPayload = ''q''\<rparr>)]\<rparr>"

lemmas secret_run = sample_run secret_sample_def sample_object_def zero_meta_def
  copy_one_secret_def create_secret_copy_def CopySecretsFrom_def note_failed_def
  note_successful_def empty_summary_def IsAlreadyExists_def k8sobj.defs secret.defs
  BonfireIgnoreAnnotation_def QontractIntegrationAnnotation_def OpenShiftVaultSecretsProvider_def

theorem copy_writes_only_copies_witness:
  "\<exists>pre e. e \<in> set (events (CopySecretsFrom sample_env ''ns'' ''other'' False)
     (sample_world secret_sample)) \<and> \<not> is_read e \<and> copy_guard ''ns'' ''other'' False pre e"
proof -
  let ?evs = "events (CopySecretsFrom sample_env ''ns'' ''other'' False) (sample_world secret_sample)"
  have "\<exists>x r. ?evs = take 2 ?evs @ SecretEv (Create x r) # []"
    by (simp add: secret_run)
  then obtain x r where evs: "?evs = take 2 ?evs @ SecretEv (Create x r) # []" by blast
  then have "SecretEv (Create x r) \<in> set ?evs" by (metis in_set_conv_decomp)
  with copy_writes_only_copies [OF evs] show ?thesis by fastforce
qed

text \<open>
  C35. When \<open>CopySecretsFrom\<close> reports no error, every eligible secret of the source was placed:
  its copy was accepted by the target, or the target already had a secret of that name and
  overwriting was not asked for.
\<close>

theorem copy_success_places_all:
  assumes "run_state (CopySecretsFrom E src tgt overwrite) w = (None, w')"
  shows "\<exists>items tr. log w' = log w @ SecretEv (ListAll (InNamespace src) (Inr items)) # tr \<and>
    (\<forall>sec \<in> set items. eligible sec \<longrightarrow> placed tgt overwrite tr sec)"
  using assms by (auto elim!: copied_all_run simp: copied_all_def)

theorem copy_success_places_all_witness:
  "\<exists>items tr. log (snd (run_state (CopySecretsFrom sample_env ''ns'' ''other'' False)
     (sample_world secret_sample))) = SecretEv (ListAll (InNamespace ''ns'') (Inr items)) # tr \<and>
     (\<forall>sec \<in> set items. eligible sec \<longrightarrow> placed ''other'' False tr sec)"
proof -
  have "fst (run_state (CopySecretsFrom sample_env ''ns'' ''other'' False)
      (sample_world secret_sample)) = None"
    by (simp add: secret_run)
  then obtain w' where run: "run_state (CopySecretsFrom sample_env ''ns'' ''other'' False)
      (sample_world secret_sample) = (None, w')"
    by (metis prod.collapse)
  from copy_success_places_all [OF this] run show ?thesis by (simp add: sample_world_def)
qed

text \<open>
  The summary accounts for every secret of the source exactly once: the five name lists
  together are the names of the list, whatever the cluster answers.
\<close>

theorem copy_summary_accounts_for_all:
  "let sm = fst (run_state (copy_secrets_loop E tgt overwrite secs empty_summary) w) in
   mset (skippedMissingAnnotation sm) + mset (skippedAnnotationMismatch sm) +
   mset (skippedBonfireIgnore sm) + mset (successful sm) + mset (failed sm) = mset (map mName secs)"
proof -
  let ?r = "run_state (copy_secrets_loop E tgt overwrite secs empty_summary) w"
  from wp_copy_secrets_loop [of E tgt overwrite secs empty_summary w]
  obtain good bad where parts: "mset good + mset bad = mset (filter eligible secs)"
    and "successful (fst ?r) = map mName good" "failed (fst ?r) = map mName bad"
    and "mset (skippedMissingAnnotation (fst ?r)) + mset (skippedAnnotationMismatch (fst ?r)) +
      mset (skippedBonfireIgnore (fst ?r)) = mset (map mName (filter (\<lambda>s. \<not> eligible s) secs))"
    by (auto simp: wp_def copy_report_def empty_summary_def)
  moreover have "mset (map mName good) + mset (map mName bad) = mset (map mName (filter eligible secs))"
    by (metis image_mset_union mset_map parts)
  moreover have "mset (map mName secs) = mset (map mName (filter (\<lambda>s. \<not> eligible s) secs)) +
      mset (map mName (filter eligible secs))"
    by (induction secs) simp_all
  ultimately show ?thesis by (simp only: Let_def) (metis add.assoc add.commute)
qed

text \<open>
  C36. The only writes of \<open>CopyReservationSecrets\<close> create copies of secrets of the
  \<^verbatim>\<open>ephemeral-hcm-ai\<close> namespace that the reservation's team lists in the pool
  \<^verbatim>\<open>ai-development\<close>, each under its destination name, or its own if none is given.
\<close>

theorem team_secrets_only:
  assumes "events (CopyReservationSecrets E n res) w = pre @ e # post" and "\<not> is_read e"
  shows "\<exists>x r. e = SecretEv (Create x r) \<and> team_copy n res pre x"
  using follows_events [OF follows_CopyReservationSecrets assms(1)] assms(2)
  by (auto simp: team_guard_def)

definition team_sample :: sample where
  "team_sample = secret_sample\<lparr>
     sm_secrets := [(''s'', k8sobj.extend ((sample_object ''s'')\<lparr>mNamespace := NamespaceHcmAi\<rparr>)
        \<lparr>secretPayload = ''p''\<rparr>)],
     sm_pools := [(PoolAiDevelopment, (sample_pool PoolAiDevelopment None)\<lparr>poolSpec :=
        (poolSpec (sample_pool PoolAiDevelopment None))\<lparr>psTeams := [\<lparr>teamName = ''red'',
          teamSecrets = [\<lparr>sdName = ''s'', sdDestName = ''copied''\<rparr>]\<rparr>]\<rparr>\<rparr>)]\<rparr>"

theorem team_secrets_only_witness:
  "\<exists>pre x. length pre = 3 \<and> team_copy ''n'' (sample_reservation ''red'') pre x"
proof -
  let ?evs = "events (CopyReservationSecrets sample_env ''n'' (sample_reservation ''red''))
    (sample_world team_sample)"
  have "\<exists>x r. ?evs = take 3 ?evs @ SecretEv (Create x r) # [] \<and> length (take 3 ?evs) = 3"
    by (simp add: CopyReservationSecrets_def copySecretToNamespace_def team_sample_def
        sample_pool_def sample_reservation_def secret_run pool.defs reservation.defs PoolAiDevelopment_def
        NamespaceHcmAi_def)
  then obtain x r where evs: "?evs = take 3 ?evs @ SecretEv (Create x r) # []"
    and len: "length (take 3 ?evs) = 3" by blast
  from team_secrets_only [OF evs] len show ?thesis by fastforce
qed

end
