(* ===== verification/Clowdenvs.thy ===== *)
theory Clowdenvs
  imports Namespace_Access
begin

text \<open>
  \<^verbatim>\<open>helpers/clowdenvs.go\<close> and \<^verbatim>\<open>helpers/frontends.go\<close>: the ClowdEnvironment of a namespace,
  when it counts as ready, and the FrontendEnvironment with its shim services.
\<close>

section \<open>ClowdEnvironments\<close>

definition env_name :: "string \<Rightarrow> string" where
  "env_name ns = ''env-'' @ ns"

definition CreateClowdEnv ::
  "'s env \<Rightarrow> clowdenv_spec option \<Rightarrow> string \<Rightarrow> ('s world, gerr option) state" where
  "CreateClowdEnv E spec namespaceName = (case spec of
       None \<Rightarrow> State_Monad.return None
     | Some sp \<Rightarrow> do {
         r \<leftarrow> GetNamespace E namespaceName;
         case r of
           Inl err \<Rightarrow> State_Monad.return
             (Some (Errorf ''could not retrieve namespace for setting the owner reference'' (Some err)))
         | Inr ns \<Rightarrow> (
             let env = k8sobj.extend
                   (zero_meta\<lparr>mName := env_name namespaceName,
                              mOwnerReferences := [namespace_owner ns]\<rparr>)
                   \<lparr>ceSpec = sp\<lparr>TargetNamespace := namespaceName\<rparr>, ceHostname = '''', ceConditions = []\<rparr>
             in do {
               c \<leftarrow> createEnv E env;
               State_Monad.return (case c of
                   Inl err \<Rightarrow> Some (Errorf ''could not create clowdenvironment'' (Some err))
                 | Inr _ \<Rightarrow> None)
             })
       })"

fun ready_conditions_loop :: "condition list \<Rightarrow> bool \<Rightarrow> bool \<Rightarrow> bool \<times> bool" where
  "ready_conditions_loop [] reconciliationSuccessful deploymentsReady =
     (reconciliationSuccessful, deploymentsReady)"
| "ready_conditions_loop (c # cs) reconciliationSuccessful deploymentsReady =
     ready_conditions_loop cs
       (if condType c = ''ReconciliationSuccessful'' \<and> condStatus c = ''True'' then True
        else reconciliationSuccessful)
       (if condType c = ''DeploymentsReady'' \<and> condStatus c = ''True'' then True
        else deploymentsReady)"

definition VerifyClowdEnvReady :: "clowdenv \<Rightarrow> bool" where
  "VerifyClowdEnvReady env =
     (if WebMode (ceSpec env) = ''local'' \<and> ceHostname env = '''' then False
      else case ready_conditions_loop (ceConditions env) False False of
        (reconciliationSuccessful, deploymentsReady) \<Rightarrow>
          reconciliationSuccessful \<and> deploymentsReady)"

definition GetClowdEnv ::
  "'s env \<Rightarrow> string \<Rightarrow> ('s world, bool \<times> clowdenv option \<times> gerr option) state" where
  "GetClowdEnv E namespaceName = do {
     r \<leftarrow> getEnv E (namespaceName, env_name namespaceName);
     State_Monad.return (case r of
         Inl err \<Rightarrow> (False, None, Some (Errorf ''could not retrieve clowdenvironment'' (Some err)))
       | Inr env \<Rightarrow> (VerifyClowdEnvReady env, Some env, None))
   }"

section \<open>Strings\<close>

text \<open>\<^verbatim>\<open>strings.Split\<close> at a one-character separator and \<^verbatim>\<open>strings.Join\<close>.\<close>

fun strings_Split :: "string \<Rightarrow> char \<Rightarrow> string list" where
  "strings_Split [] sep = [[]]"
| "strings_Split (c # s) sep =
     (if c = sep then [] # strings_Split s sep
      else case strings_Split s sep of
        [] \<Rightarrow> [[c]]
      | x # xs \<Rightarrow> (c # x) # xs)"

fun strings_Join :: "string list \<Rightarrow> string \<Rightarrow> string" where
  "strings_Join [] sep = []"
| "strings_Join [x] sep = x"
| "strings_Join (x # y # zs) sep = x @ sep @ strings_Join (y # zs) sep"

section \<open>FrontendEnvironments\<close>

definition frontend_sso_url :: "string \<Rightarrow> string" where
  "frontend_sso_url hostname =
     (let splitFqdn = strings_Split hostname CHR ''.'';
          host = hd splitFqdn;
          domain = (if length splitFqdn > 1 then strings_Join (tl splitFqdn) ''.'' else '''')
      in if domain = '''' then ''https://'' @ host @ ''-auth/auth/''
         else ''https://'' @ host @ ''-auth.'' @ domain @ ''/auth/'')"

definition shim_service :: "namespace \<Rightarrow> string \<Rightarrow> service \<Rightarrow> service" where
  "shim_service ns serviceName origSvc = k8sobj.extend
     (zero_meta\<lparr>mName := serviceName, mNamespace := mName ns,
                mOwnerReferences := [namespace_owner ns]\<rparr>)
     \<lparr>svcClusterIP = '''', svcClusterIPs = [], svcPayload = svcPayload origSvc\<rparr>"

fun shim_services_loop ::
  "'s env \<Rightarrow> namespace \<Rightarrow> clowdenv \<Rightarrow> string list \<Rightarrow> ('s world, gerr option) state" where
  "shim_services_loop E ns clowdEnv [] = State_Monad.return None"
| "shim_services_loop E ns clowdEnv (serviceName # rest) = do {
     r \<leftarrow> getService E (mName ns, mName clowdEnv @ ''-'' @ serviceName);
     case r of
       Inl _ \<Rightarrow> shim_services_loop E ns clowdEnv rest
     | Inr origSvc \<Rightarrow> do {
         c \<leftarrow> createService E (shim_service ns serviceName origSvc);
         case c of
           Inl err \<Rightarrow> State_Monad.return (Some (Errorf ''failed to create shim service'' (Some err)))
         | Inr _ \<Rightarrow> shim_services_loop E ns clowdEnv rest
       }
   }"

definition createShimServices ::
  "'s env \<Rightarrow> namespace \<Rightarrow> clowdenv \<Rightarrow> ('s world, gerr option) state" where
  "createShimServices E ns clowdEnv =
     shim_services_loop E ns clowdEnv [''keycloak'', ''mbop'', ''mocktitlements'']"

definition CreateFrontendEnv ::
  "'s env \<Rightarrow> string \<Rightarrow> clowdenv \<Rightarrow> ('s world, gerr option) state" where
  "CreateFrontendEnv E namespaceName clowdEnv = do {
     g \<leftarrow> getFrontend E (cluster_key (env_name namespaceName));
     case g of
       Inr _ \<Rightarrow> State_Monad.return None
     | Inl err \<Rightarrow>
         if \<not> IsNotFound err
         then State_Monad.return
           (Some (Errorf ''there was an error when retrieving the frontend environment'' (Some err)))
         else do {
           r \<leftarrow> GetNamespace E namespaceName;
           case r of
             Inl err \<Rightarrow> State_Monad.return
               (Some (Errorf ''could not find namespace for newly created frontendenv'' (Some err)))
           | Inr ns \<Rightarrow> (
               let frontendEnv = k8sobj.extend
                     (zero_meta\<lparr>mName := env_name (mName ns),
                                mOwnerReferences := [namespace_owner ns]\<rparr>)
                     \<lparr>feSpec = \<lparr>feHostname = ceHostname clowdEnv,
                                feSSO = frontend_sso_url (ceHostname clowdEnv),
                                feIngressClass = IngressClass (ceSpec clowdEnv),
                                feGenerateNavJSON = True,
                                feEnableAkamaiCacheBust = False,
                                feDefaultReplicas = Some 1\<rparr>\<rparr>
               in do {
                 c \<leftarrow> createFrontend E frontendEnv;
                 case c of
                   Inl err \<Rightarrow> State_Monad.return
                     (Some (Errorf ''error creating frontend environment'' (Some err)))
                 | Inr _ \<Rightarrow> do {
                     s \<leftarrow> createShimServices E ns clowdEnv;
                     State_Monad.return (case s of
                         Some err \<Rightarrow> Some (Errorf ''creation of shim services failed'' (Some err))
                       | None \<Rightarrow> None)
                   }
               })
         }
   }"

section \<open>Events\<close>

locale clowdenv_policy = read_policy +
  assumes env_create_ok: "ok (EnvEv (Create x r))"
begin

lemma emits_CreateClowdEnv:
  assumes "lib_ok E"
  shows "emits ok (CreateClowdEnv E spec n)"
  unfolding CreateClowdEnv_def Let_def
  by (intro emits_intros emits_GetNamespace assms env_create_ok)

lemma emits_GetClowdEnv: "emits ok (GetClowdEnv E n)"
  unfolding GetClowdEnv_def by (intro emits_intros read_ok) simp

end

locale frontend_policy = read_policy +
  assumes frontend_create_ok: "ok (FrontendEv (Create x r))"
    and service_create_ok: "ok (ServiceEv (Create (shim_service ns sn s) u))"
begin

lemma emits_shim_services_loop: "emits ok (shim_services_loop E ns ce sns)"
proof (induction sns)
  case (Cons sn sns)
  then show ?case
    unfolding shim_services_loop.simps
    by (intro emits_intros service_create_ok read_ok) simp_all
qed (simp add: emits_return)

lemma emits_CreateFrontendEnv:
  assumes "lib_ok E"
  shows "emits ok (CreateFrontendEnv E n ce)"
  unfolding CreateFrontendEnv_def createShimServices_def Let_def
  by (intro emits_intros emits_GetNamespace assms frontend_create_ok emits_shim_services_loop
      read_ok) simp_all

end

section \<open>Readiness and names\<close>

definition has_condition :: "clowdenv \<Rightarrow> string \<Rightarrow> bool" where
  "has_condition env t \<longleftrightarrow> (\<exists>c \<in> set (ceConditions env). condType c = t \<and> condStatus c = ''True'')"

lemma ready_conditions_loop_any:
  "ready_conditions_loop cs a b =
     (a \<or> (\<exists>c \<in> set cs. condType c = ''ReconciliationSuccessful'' \<and> condStatus c = ''True''),
      b \<or> (\<exists>c \<in> set cs. condType c = ''DeploymentsReady'' \<and> condStatus c = ''True''))"
  by (induction cs arbitrary: a b) auto

lemma strings_Split_not_Nil: "strings_Split s c \<noteq> []"
  by (induction s) (auto split: list.splits)

lemma strings_Join_Cons: "xs \<noteq> [] \<Longrightarrow> strings_Join (x # xs) sep = x @ sep @ strings_Join xs sep"
  by (cases xs) simp_all

lemma strings_Split_no_sep: "c \<notin> set s \<Longrightarrow> strings_Split s c = [s]"
  by (induction s) auto

lemma strings_Split_first:
  "c \<notin> set s \<Longrightarrow> strings_Split (s @ c # t) c = s # strings_Split t c"
  by (induction s) auto

lemma strings_Join_Split: "strings_Join (strings_Split s c) [c] = s"
proof (induction s)
  case (Cons a s)
  obtain x xs where split: "strings_Split s c = x # xs"
    using strings_Split_not_Nil by (cases "strings_Split s c") auto
  with Cons show ?case
    by (cases xs) (auto simp: strings_Join_Cons)
qed simp

section \<open>The frontend environment\<close>

definition frontend_of :: "namespace \<Rightarrow> clowdenv \<Rightarrow> frontendenv" where
  "frontend_of ns ce = k8sobj.extend
     (zero_meta\<lparr>mName := env_name (mName ns), mOwnerReferences := [namespace_owner ns]\<rparr>)
     \<lparr>feSpec = \<lparr>feHostname = ceHostname ce, feSSO = frontend_sso_url (ceHostname ce),
                feIngressClass = IngressClass (ceSpec ce), feGenerateNavJSON = True,
                feEnableAkamaiCacheBust = False, feDefaultReplicas = Some 1\<rparr>\<rparr>"

text \<open>
  The writes of \<open>CreateFrontendEnv\<close> after the history \<open>h\<close>: the frontend environment, after it
  was found missing; then shims of services that were just read.
\<close>

definition frontend_guard :: "string \<Rightarrow> clowdenv \<Rightarrow> event list \<Rightarrow> event \<Rightarrow> bool" where
  "frontend_guard n ce h e \<longleftrightarrow> is_read e \<or>
     (\<exists>tr ns err r. e = FrontendEv (Create (frontend_of ns ce) r) \<and>
        h = tr @ [NsEv (Get (cluster_key n) (Inr ns))] \<and>
        FrontendEv (Get (cluster_key (env_name n)) (Inl err)) \<in> set tr \<and> IsNotFound err) \<or>
     (\<exists>tr ns sn orig fe r. e = ServiceEv (Create (shim_service ns sn orig) r) \<and>
        h = tr @ [ServiceEv (Get (mName ns, mName ce @ ''-'' @ sn) (Inr orig))] \<and>
        FrontendEv (Create (frontend_of ns ce) (Inr fe)) \<in> set tr \<and>
        sn \<in> {''keycloak'', ''mbop'', ''mocktitlements''})"

lemma frontend_guard_read: "is_read e \<Longrightarrow> frontend_guard n ce h e"
  by (simp add: frontend_guard_def)

lemma frontend_guard_create:
  "FrontendEv (Get (cluster_key (env_name n)) (Inl err)) \<in> set tr \<Longrightarrow> IsNotFound err \<Longrightarrow>
   frontend_guard n ce (tr @ [NsEv (Get (cluster_key n) (Inr ns))])
     (FrontendEv (Create (frontend_of ns ce) r))"
  unfolding frontend_guard_def by blast

lemma frontend_guard_shim:
  "FrontendEv (Create (frontend_of ns ce) (Inr fe)) \<in> set tr \<Longrightarrow>
   sn \<in> {''keycloak'', ''mbop'', ''mocktitlements''} \<Longrightarrow>
   frontend_guard n ce (tr @ [ServiceEv (Get (mName ns, mName ce @ ''-'' @ sn) (Inr orig))])
     (ServiceEv (Create (shim_service ns sn orig) r))"
  unfolding frontend_guard_def by blast

lemma follows_shim_services_loop:
  assumes "FrontendEv (Create (frontend_of ns ce) (Inr fe)) \<in> set (log w)"
    and "set sns \<subseteq> {''keycloak'', ''mbop'', ''mocktitlements''}"
  shows "follows (frontend_guard n ce) (shim_services_loop E ns ce sns) w"
  using assms
proof (induction sns arbitrary: w)
  case (Cons sn sns)
  show ?case
    unfolding shim_services_loop.simps
    by (intro follows_intros Cons.IH)
      (use Cons.prems in \<open>auto intro: frontend_guard_read frontend_guard_shim simp del: append.simps\<close>)
qed (simp add: follows_return)

interpretation reading: read_policy is_read
  by unfold_locales

lemma follows_CreateFrontendEnv:
  assumes lib: "lib_ok E"
  shows "follows (frontend_guard n ce) (CreateFrontendEnv E n ce) w"
proof -
  have reads: "follows (frontend_guard n ce) (GetNamespace E n) w" for w
    by (rule emits_follows [OF reading.emits_GetNamespace [OF lib] frontend_guard_read])
  show ?thesis
    unfolding CreateFrontendEnv_def createShimServices_def Let_def frontend_of_def [symmetric]
    by (intro follows_intros reads follows_shim_services_loop)
      (auto intro: frontend_guard_read intro!: frontend_guard_create dest!: GetNamespace_log [OF lib] simp flip: append_assoc)
qed


section \<open>Properties\<close>

text \<open>
  A ClowdEnvironment counts as ready exactly when both of its conditions,
  \<^verbatim>\<open>ReconciliationSuccessful\<close> and \<^verbatim>\<open>DeploymentsReady\<close>, are there with status True, in any
  position, and, if its web mode is local, its hostname is known.
\<close>

theorem env_ready_iff:
  "VerifyClowdEnvReady env \<longleftrightarrow> has_condition env ''ReconciliationSuccessful'' \<and>
     has_condition env ''DeploymentsReady'' \<and> \<not> (WebMode (ceSpec env) = ''local'' \<and> ceHostname env = '''')"
  by (auto simp: VerifyClowdEnvReady_def ready_conditions_loop_any has_condition_def)

text \<open>
  The single sign-on URL puts \<^verbatim>\<open>-auth\<close> after the first label of the hostname and keeps
  the rest of the domain, however many dots it has.
\<close>

theorem sso_url_of_hostname:
  assumes "CHR ''.'' \<notin> set host"
  shows "frontend_sso_url host = ''https://'' @ host @ ''-auth/auth/'' \<and>
    (domain \<noteq> '''' \<longrightarrow> frontend_sso_url (host @ ''.'' @ domain) =
       ''https://'' @ host @ ''-auth.'' @ domain @ ''/auth/'')"
  using assms strings_Split_not_Nil [of domain "CHR ''.''"]
  by (simp add: frontend_sso_url_def Let_def strings_Split_no_sep strings_Split_first
      strings_Join_Split Suc_lessI)

theorem sso_url_of_hostname_witness:
  "frontend_sso_url ''a.b.c'' = ''https://a-auth.b.c/auth/''"
  using sso_url_of_hostname [of "''a''" "''b.c''"] by simp

text \<open>
  \<open>CreateFrontendEnv\<close> writes nothing if the frontend environment is there. Else it creates
  the one of the namespace and environment, right after reading the namespace, and then
  copies, without their cluster IPs, those of the three services that the namespace has.
\<close>

theorem frontend_env_writes:
  assumes "lib_ok E" and "events (CreateFrontendEnv E n ce) w = pre @ e # post" and "\<not> is_read e"
  shows "(\<exists>tr ns err r. e = FrontendEv (Create (frontend_of ns ce) r) \<and>
      pre = tr @ [NsEv (Get (cluster_key n) (Inr ns))] \<and>
      FrontendEv (Get (cluster_key (env_name n)) (Inl err)) \<in> set tr \<and> IsNotFound err) \<or>
    (\<exists>tr ns sn orig fe r. e = ServiceEv (Create (shim_service ns sn orig) r) \<and>
      pre = tr @ [ServiceEv (Get (mName ns, mName ce @ ''-'' @ sn) (Inr orig))] \<and>
      FrontendEv (Create (frontend_of ns ce) (Inr fe)) \<in> set tr \<and>
      sn \<in> {''keycloak'', ''mbop'', ''mocktitlements''})"
  using follows_events [OF follows_CreateFrontendEnv [OF assms(1)] assms(2)] assms(3)
  by (simp add: frontend_guard_def)

definition sample_clowdenv :: clowdenv where
  "sample_clowdenv = k8sobj.extend (zero_meta\<lparr>mName := ''env-n''\<rparr>)
     \<lparr>ceSpec = \<lparr>TargetNamespace = ''n'', WebMode = ''operator'', IngressClass = '''',
        clowdenvPayload = ''''\<rparr>, ceHostname = ''h.d'',
      ceConditions = [\<lparr>condType = ''ReconciliationSuccessful'', condStatus = ''True''\<rparr>,
        \<lparr>condType = ''DeploymentsReady'', condStatus = ''True''\<rparr>]\<rparr>"

theorem frontend_env_writes_witness:
  "\<exists>ns r. FrontendEv (Create (frontend_of ns sample_clowdenv) r) \<in>
     set (events (CreateFrontendEnv sample_env ''n'' sample_clowdenv) (sample_world ready_sample))"
proof -
  let ?evs = "events (CreateFrontendEnv sample_env ''n'' sample_clowdenv) (sample_world ready_sample)"
  have "\<exists>x r. FrontendEv (Create x r) \<in> set ?evs"
    by (simp add: CreateFrontendEnv_def access_run env_name_def IsNotFound_def createShimServices_def)
  then obtain x r where ev: "FrontendEv (Create x r) \<in> set ?evs" by blast
  then obtain pre post where split: "?evs = pre @ FrontendEv (Create x r) # post" by (meson split_list)
  from frontend_env_writes [OF sample_lib_ok split] ev show ?thesis by auto
qed

end
