(* ===== verification/Namespace_Setup.thy ===== *)
theory Namespace_Setup
  imports Secret_Copy Clowdenvs
begin

text \<open>
  The provisioning half of \<^verbatim>\<open>helpers/namespaces.go\<close>: creating a namespace (or an OpenShift
  project) under a random name and turning it into a member of a pool.
\<close>

text \<open>\<^verbatim>\<open>strings.ToLower\<close> on ASCII text.\<close>

definition lower_char :: "char \<Rightarrow> char" where
  "lower_char c = (if (65 :: nat) \<le> of_char c \<and> of_char c \<le> (90 :: nat)
                   then char_of (of_char c + 32 :: nat) else c)"

definition strings_ToLower :: "string \<Rightarrow> string" where
  "strings_ToLower s = map lower_char s"

text \<open>The name is returned with the error, as the Go function does.\<close>

definition CreateNamespace :: "'s env \<Rightarrow> pool \<Rightarrow> ('s world, string \<times> gerr option) state" where
  "CreateNamespace E pool = do {
     suffix \<leftarrow> utils_RandString E 6;
     let nsName = ''ephemeral-'' @ strings_ToLower suffix;
     (if psLocal (poolSpec pool) then do {
        c \<leftarrow> createNs E (zero_meta\<lparr>mName := nsName\<rparr>);
        State_Monad.return (case c of
            Inl err \<Rightarrow> (nsName, Some (Errorf ''could not create namespace'' (Some err)))
          | Inr ns \<Rightarrow> (mName ns, None))
      }
      else do {
        c \<leftarrow> createProject E (zero_meta\<lparr>mName := nsName\<rparr>);
        State_Monad.return (case c of
            Inl err \<Rightarrow> (nsName, Some (Errorf ''could not create project'' (Some err)))
          | Inr _ \<Rightarrow> (nsName, None))
      })
   }"

fun create_quotas_loop ::
  "'s env \<Rightarrow> resource_quota list \<Rightarrow> string \<Rightarrow> ('s world, gerr option) state" where
  "create_quotas_loop E [] nsName = State_Monad.return None"
| "create_quotas_loop E (quota # quotas) nsName = do {
     c \<leftarrow> createQuota E (quota\<lparr>mNamespace := nsName\<rparr>);
     case c of
       Inl err \<Rightarrow> State_Monad.return (Some (Errorf ''error creating ResourceQuota'' (Some err)))
     | Inr _ \<Rightarrow> create_quotas_loop E quotas nsName
   }"

text \<open>What a namespace looks like once the pool has taken it over.\<close>

definition adopt_namespace :: "'s env \<Rightarrow> pool \<Rightarrow> namespace \<Rightarrow> namespace" where
  "adopt_namespace E pool ns =
     ns\<lparr>mAnnotations := utils_UpdateAnnotations E (mAnnotations ns) CreateInitialAnnotations,
        mLabels := utils_UpdateLabels E (mLabels ns) (CreateInitialLabels (mName pool)),
        mOwnerReferences := [Pool_MakeOwnerReference pool]\<rparr>"

definition adopt_step :: "'s env \<Rightarrow> pool \<Rightarrow> string \<Rightarrow> ('s world, gerr option \<times> namespace) state" where
  "adopt_step E pool nsName = retry_on_conflict E (do {
     r \<leftarrow> GetNamespace E nsName;
     case r of
       Inl err \<Rightarrow> State_Monad.return
         (Some (Errorf ''could not retrieve namespace'' (Some err)), zero_meta)
     | Inr ns \<Rightarrow> do {
         u \<leftarrow> updateNs E (adopt_namespace E pool ns);
         State_Monad.return (case u of
             Inl err \<Rightarrow> (Some err, adopt_namespace E pool ns)
           | Inr updated \<Rightarrow> (None, updated))
       }
   })"

text \<open>The namespace variable is returned on every path; the callers delete by it.\<close>

definition UpdateNamespaceResources ::
  "'s env \<Rightarrow> pool \<Rightarrow> string \<Rightarrow> ('s world, namespace \<times> gerr option) state" where
  "UpdateNamespaceResources E pool nsName = do {
     (err, ns) \<leftarrow> adopt_step E pool nsName;
     case err of
       Some e \<Rightarrow> State_Monad.return (ns, Some (Errorf ''could not update Project'' (Some e)))
     | None \<Rightarrow> do {
     ce \<leftarrow> CreateClowdEnv E (psClowdEnvironment (poolSpec pool)) nsName;
     case ce of
       Some e \<Rightarrow> State_Monad.return (ns, Some (Errorf ''error creating ClowdEnvironment'' (Some e)))
     | None \<Rightarrow> do {
     lr \<leftarrow> createLimitRange E ((psLimitRange (poolSpec pool))\<lparr>mNamespace := nsName\<rparr>);
     case lr of
       Inl e \<Rightarrow> State_Monad.return (ns, Some (Errorf ''error creating LimitRange'' (Some e)))
     | Inr _ \<Rightarrow> do {
     rq \<leftarrow> create_quotas_loop E (psResourceQuotas (poolSpec pool)) nsName;
     case rq of
       Some e \<Rightarrow> State_Monad.return (ns, Some e)
     | None \<Rightarrow> do {
     let srcNs = (if psDefaultSecretSourceNamespace (poolSpec pool) \<noteq> ''''
                  then psDefaultSecretSourceNamespace (poolSpec pool)
                  else NamespaceEphemeralBase);
     cs \<leftarrow> CopySecretsFrom E srcNs nsName False;
     case cs of
       Some e \<Rightarrow> State_Monad.return (ns, Some (Errorf ''error copying secrets'' (Some e)))
     | None \<Rightarrow>
         (if psClowdEnvironment (poolSpec pool) = None then do {
            u \<leftarrow> UpdateAnnotations E nsName [AnnotationEnvStatus \<mapsto> EnvStatusReady];
            State_Monad.return (case u of
                Some e \<Rightarrow> (ns, Some (Errorf ''error marking namespace as ready'' (Some e)))
              | None \<Rightarrow> (ns, None))
          }
          else State_Monad.return (ns, None))
     }}}}
   }"

section \<open>Events\<close>

locale setup_policy = annotate_policy + secret_policy + clowdenv_policy +
  assumes limit_range_ok: "ok (LimitRangeEv (Create x r))"
    and quota_ok: "ok (QuotaEv (Create q s))"
    and adopt_ok: "ok (NsEv (Update
      (ns\<lparr>mAnnotations := m, mLabels := l, mOwnerReferences := os\<rparr>) u))"
begin

lemma emits_create_quotas_loop: "emits ok (create_quotas_loop E qs n)"
  by (induction qs) (auto intro!: emits_return emits_bind emits_k_call quota_ok split: sum.splits)

lemma emits_adopt_step:
  assumes "lib_ok E"
  shows "emits ok (adopt_step E pool n)"
  unfolding adopt_step_def adopt_namespace_def
  by (intro emits_intros emits_GetNamespace assms adopt_ok)

lemma emits_UpdateNamespaceResources:
  assumes "lib_ok E"
  shows "emits ok (UpdateNamespaceResources E pool n)"
  unfolding UpdateNamespaceResources_def Let_def
  by (intro emits_intros emits_adopt_step emits_CreateClowdEnv emits_create_quotas_loop
      emits_CopySecretsFrom emits_UpdateAnnotations limit_range_ok assms)

end

text \<open>Filling in a namespace neither creates nor deletes one.\<close>

definition fills_only :: "event \<Rightarrow> bool" where
  "fills_only e \<longleftrightarrow> \<not> creates_namespace e \<and> \<not> deletes_namespace e"

lemma reads_fill_only: "is_read e \<Longrightarrow> fills_only e"
  by (auto simp: fills_only_def elim!: creates_namespace.elims deletes_namespace.elims)

interpretation filling: setup_policy fills_only
  by unfold_locales (simp_all add: reads_fill_only, simp_all add: fills_only_def)

section \<open>What a namespace went through\<close>

definition adopt_report ::
  "'s env \<Rightarrow> pool \<Rightarrow> string \<Rightarrow> gerr option \<Rightarrow> namespace \<Rightarrow> event list \<Rightarrow> bool" where
  "adopt_report E pool n err ns tr \<longleftrightarrow> (case err of
       None \<Rightarrow> \<exists>tr0 x. tr = tr0 @ [NsEv (Get (cluster_key n) (Inr x)),
         NsEv (Update (adopt_namespace E pool x) (Inr ns))]
     | Some _ \<Rightarrow> ns = zero_meta \<or> (\<exists>x. NsEv (Get (cluster_key n) (Inr x)) \<in> set tr \<and>
         ns = adopt_namespace E pool x))"

lemma adopt_report_failed:
  "adopt_report E pool n (Some e) zero_meta tr"
  "NsEv (Get (cluster_key n) (Inr x)) \<in> set tr \<Longrightarrow>
   adopt_report E pool n (Some e) (adopt_namespace E pool x) tr"
  by (auto simp: adopt_report_def)

lemma wp_adopt_step:
  assumes "lib_ok E"
    and post: "\<And>err ns tr w'. log w' = log w @ tr \<Longrightarrow> adopt_report E pool n err ns tr \<Longrightarrow>
      Q (err, ns) w'"
  shows "wp (adopt_step E pool n) Q w"
proof -
  let ?R = "\<lambda>x w'. \<exists>tr. log w' = log w @ tr \<and> adopt_report E pool n (fst x) (snd x) tr"
  have "wp (adopt_step E pool n) ?R w"
    unfolding adopt_step_def
  proof (rule wp_retry_on_conflict [where I = "\<lambda>w1. \<exists>tr. log w1 = log w @ tr", OF assms(1)])
    fix w1 :: "'a world"
    assume "\<exists>tr. log w1 = log w @ tr"
    then obtain tr1 where tr1: "log w1 = log w @ tr1" ..
    show "wp (do {
        r \<leftarrow> GetNamespace E n;
        case r of
          Inl err \<Rightarrow> State_Monad.return
            (Some (Errorf ''could not retrieve namespace'' (Some err)), zero_meta)
        | Inr ns \<Rightarrow> do {
            u \<leftarrow> updateNs E (adopt_namespace E pool ns);
            State_Monad.return (case u of
                Inl err \<Rightarrow> (Some err, adopt_namespace E pool ns)
              | Inr updated \<Rightarrow> (None, updated))
          }
      }) (\<lambda>x w'. (fst x \<noteq> None \<longrightarrow> (\<exists>tr. log w' = log w @ tr)) \<and> ?R x w') w1"
      unfolding wp_bind
      by (intro wp_GetNamespace [OF assms(1)] wp_intros wp_bind [THEN iffD2])
        (auto simp: tr1 adopt_report_failed adopt_report_def [of _ _ _ None] split: sum.splits)
  qed simp
  then show ?thesis by (rule wp_mono) (auto intro: post)
qed

lemma wp_create_quotas_loop:
  "wp (create_quotas_loop E qs n) (\<lambda>r w'. \<exists>rs. log w' = log w @ map QuotaEv rs \<and>
     (r = None \<longrightarrow> list_all2 (\<lambda>q a. \<exists>x. a = Create (q\<lparr>mNamespace := n\<rparr>) (Inr x)) qs rs)) w"
proof (induction qs arbitrary: w)
  case (Cons q qs)
  let ?Q = "\<lambda>r w'. \<exists>rs. log w' = log w @ map QuotaEv rs \<and>
     (r = None \<longrightarrow> list_all2 (\<lambda>q a. \<exists>x. a = Create (q\<lparr>mNamespace := n\<rparr>) (Inr x)) (q # qs) rs)"
  have later: "wp (create_quotas_loop E qs n) ?Q w'"
    if "log w' = log w @ [QuotaEv (Create (q\<lparr>mNamespace := n\<rparr>) (Inr x))]" for x w'
  proof (rule wp_mono [OF Cons.IH], elim exE conjE)
    fix r w'' rs
    assume "log w'' = log w' @ map QuotaEv rs"
      "r = None \<longrightarrow> list_all2 (\<lambda>q a. \<exists>x. a = Create (q\<lparr>mNamespace := n\<rparr>) (Inr x)) qs rs"
    with that show "?Q r w''"
      by (intro exI [of _ "Create (q\<lparr>mNamespace := n\<rparr>) (Inr x) # rs"]) simp
  qed
  show ?case
    unfolding create_quotas_loop.simps
    by (intro wp_intros wp_bind [THEN iffD2] wp_k_call later)
      (auto intro!: exI [of _ "[Create _ (Inl _)]"])
qed simp

definition env_part :: "clowdenv_spec option \<Rightarrow> string \<Rightarrow> event list \<Rightarrow> bool" where
  "env_part spec n tr \<longleftrightarrow> (case spec of
       None \<Rightarrow> tr = []
     | Some sp \<Rightarrow> \<exists>tr' e e'. tr = tr' @ [EnvEv (Create e (Inr e'))] \<and> mName e = env_name n \<and>
         ceSpec e = sp\<lparr>TargetNamespace := n\<rparr>)"

lemma wp_CreateClowdEnv:
  assumes "lib_ok E"
    and post: "\<And>r tr w'. log w' = log w @ tr \<Longrightarrow> (r = None \<Longrightarrow> env_part spec n tr) \<Longrightarrow> Q r w'"
  shows "wp (CreateClowdEnv E spec n) Q w"
proof -
  have "wp (CreateClowdEnv E spec n)
      (\<lambda>r w'. \<exists>tr. log w' = log w @ tr \<and> (r = None \<longrightarrow> env_part spec n tr)) w"
    unfolding CreateClowdEnv_def Let_def
    by (intro wp_intros wp_bind [THEN iffD2] wp_GetNamespace [OF assms(1)])
      (auto simp: env_part_def k8sobj.defs clowdenv.defs split: sum.splits)
  then show ?thesis by (rule wp_mono) (use post in blast)
qed

definition default_source :: "pool \<Rightarrow> string" where
  "default_source pool = (if psDefaultSecretSourceNamespace (poolSpec pool) \<noteq> ''''
     then psDefaultSecretSourceNamespace (poolSpec pool) else NamespaceEphemeralBase)"

definition ready_part :: "'s env \<Rightarrow> clowdenv_spec option \<Rightarrow> string \<Rightarrow> event list \<Rightarrow> bool" where
  "ready_part E spec n tr \<longleftrightarrow> (case spec of
       None \<Rightarrow> annotate_done E n [AnnotationEnvStatus \<mapsto> EnvStatusReady] tr None
     | Some _ \<Rightarrow> tr = [])"

text \<open>
  The calls of a setup that ended well: adoption by the pool, the ClowdEnvironment if the pool
  has one, the limit range, every quota, the default secrets, and the mark that the namespace
  is ready if no ClowdEnvironment has to become ready first.
\<close>

definition setup_done :: "'s env \<Rightarrow> pool \<Rightarrow> string \<Rightarrow> event list \<Rightarrow> bool" where
  "setup_done E pool n tr \<longleftrightarrow> (\<exists>tr0 x y tr1 lr rs tr2 tr3.
     tr = tr0 @ [NsEv (Get (cluster_key n) (Inr x)),
                 NsEv (Update (adopt_namespace E pool x) (Inr y))] @ tr1 @
       [LimitRangeEv (Create ((psLimitRange (poolSpec pool))\<lparr>mNamespace := n\<rparr>) (Inr lr))] @
       map QuotaEv rs @ tr2 @ tr3 \<and>
     env_part (psClowdEnvironment (poolSpec pool)) n tr1 \<and>
     list_all2 (\<lambda>q a. \<exists>z. a = Create (q\<lparr>mNamespace := n\<rparr>) (Inr z))
       (psResourceQuotas (poolSpec pool)) rs \<and>
     copied_all (default_source pool) n False tr2 \<and>
     ready_part E (psClowdEnvironment (poolSpec pool)) n tr3)"

text \<open>Where the namespace value that the function returns on every path comes from.\<close>

definition adopted_from :: "'s env \<Rightarrow> pool \<Rightarrow> string \<Rightarrow> namespace \<Rightarrow> event list \<Rightarrow> bool" where
  "adopted_from E pool n ns h \<longleftrightarrow> ns = zero_meta \<or>
     (\<exists>x. NsEv (Get (cluster_key n) (Inr x)) \<in> set h \<and> (ns = adopt_namespace E pool x \<or>
        NsEv (Update (adopt_namespace E pool x) (Inr ns)) \<in> set h))"

lemma adopt_report_from:
  "adopt_report E pool n err ns tr \<Longrightarrow> adopted_from E pool n ns tr"
  "adopt_report E pool n err ns tr \<Longrightarrow> adopted_from E pool n ns (tr @ h)"
  by (auto simp: adopt_report_def adopted_from_def split: option.splits)

lemma setup_doneI:
  assumes "adopt_report E pool n None ns tr" "env_part (psClowdEnvironment (poolSpec pool)) n tr1"
    "list_all2 (\<lambda>q a. \<exists>z. a = Create (q\<lparr>mNamespace := n\<rparr>) (Inr z))
       (psResourceQuotas (poolSpec pool)) rs"
    "copied_all (default_source pool) n False tr2"
    "ready_part E (psClowdEnvironment (poolSpec pool)) n tr3"
  shows "setup_done E pool n (tr @ tr1 @
    LimitRangeEv (Create ((psLimitRange (poolSpec pool))\<lparr>mNamespace := n\<rparr>) (Inr lr)) #
      map QuotaEv rs @ tr2 @ tr3)"
proof -
  from assms(1) obtain tr0 x where "tr = tr0 @ [NsEv (Get (cluster_key n) (Inr x)),
      NsEv (Update (adopt_namespace E pool x) (Inr ns))]"
    by (auto simp: adopt_report_def)
  with assms(2-) show ?thesis
    unfolding setup_done_def
    by (intro exI [of _ tr0] exI [of _ x] exI [of _ ns] exI [of _ tr1] exI [of _ lr]
        exI [of _ rs] exI [of _ tr2] exI [of _ tr3]) simp
qed

lemmas setup_doneI_no_ready = setup_doneI [where ?tr3.0 = "[]", simplified append_Nil2]

lemma adopted_from_append: "adopted_from E pool n ns h \<Longrightarrow> adopted_from E pool n ns (h @ h')"
  by (auto simp: adopted_from_def)

lemma wp_UpdateNamespaceResources:
  assumes lib: "lib_ok E"
    and post: "\<And>ns err tr w'. log w' = log w @ tr \<Longrightarrow> adopted_from E pool n ns tr \<Longrightarrow>
      (err = None \<Longrightarrow> setup_done E pool n tr) \<Longrightarrow> Q (ns, err) w'"
  shows "wp (UpdateNamespaceResources E pool n) Q w"
proof -
  let ?R = "\<lambda>(ns, err) w'. \<exists>tr. log w' = log w @ tr \<and> adopted_from E pool n ns tr \<and>
      (err = None \<longrightarrow> setup_done E pool n tr)"
  have "wp (UpdateNamespaceResources E pool n) ?R w"
    unfolding UpdateNamespaceResources_def Let_def default_source_def [symmetric]
    by (intro wp_bind [THEN iffD2] wp_adopt_step [OF lib] wp_intros wp_CreateClowdEnv [OF lib]
        wp_k_call wp_mono [OF wp_create_quotas_loop] wp_CopySecretsFrom wp_UpdateAnnotations [OF lib])
      (auto split: option.splits,
        (erule adopt_report_from | (erule setup_doneI setup_doneI_no_ready; simp add: ready_part_def))+)
  then show ?thesis by (rule wp_mono) (use post in auto)
qed

text \<open>What of the setup writes no namespace: the environment and the secrets.\<close>

definition no_ns_write :: "event \<Rightarrow> bool" where
  "no_ns_write e \<longleftrightarrow> (case e of NsEv a \<Rightarrow> reads a | _ \<Rightarrow> True)"

interpretation quiet_secrets: secret_policy no_ns_write
  by unfold_locales (auto simp: no_ns_write_def split: event.splits)

interpretation quiet_env: clowdenv_policy no_ns_write
  by unfold_locales (simp add: no_ns_write_def)

definition writes_adopted :: "'s env \<Rightarrow> pool \<Rightarrow> event \<Rightarrow> bool" where
  "writes_adopted E pool e \<longleftrightarrow> no_ns_write e \<or> (\<exists>x r. e = NsEv (Update (adopt_namespace E pool x) r))"

lemma emits_clowd_setup:
  assumes "lib_ok E" and "psClowdEnvironment (poolSpec pool) = Some sp"
  shows "emits (writes_adopted E pool) (UpdateNamespaceResources E pool n)"
proof -
  have quiet: "emits (writes_adopted E pool) m" if "emits no_ns_write m" for m :: "('a world, 'b) state"
    using that by (rule emits_weaken) (simp add: writes_adopted_def)
  have quotas: "emits no_ns_write (create_quotas_loop E qs n)" for qs
    by (induction qs) (auto intro!: emits_return emits_bind emits_k_call simp: no_ns_write_def
        split: sum.splits)
  show ?thesis
    unfolding UpdateNamespaceResources_def adopt_step_def Let_def assms(2)
    by (intro emits_intros assms(1) quiet [OF quiet_secrets.emits_GetNamespace] quiet [OF quotas]
        quiet [OF quiet_env.emits_CreateClowdEnv] quiet [OF quiet_secrets.emits_CopySecretsFrom])
      (auto simp: writes_adopted_def no_ns_write_def)
qed

section \<open>Properties\<close>

text \<open>
  C22. A namespace setup that reports no error went through all its steps, in the order of the
  code and each accepted: adoption by the pool, ClowdEnvironment, limit range, quotas, default
  secrets and, for a pool without ClowdEnvironment only, the mark that the namespace is ready.
\<close>

theorem setup_success_means_all_steps:
  assumes "lib_ok E" and "run_state (UpdateNamespaceResources E pool n) w = ((ns, None), w')"
  shows "\<exists>tr. log w' = log w @ tr \<and> setup_done E pool n tr"
proof -
  have "wp (UpdateNamespaceResources E pool n) (\<lambda>r w'. snd r = None \<longrightarrow>
      (\<exists>tr. log w' = log w @ tr \<and> setup_done E pool n tr)) w"
    by (rule wp_UpdateNamespaceResources [OF assms(1)]) auto
  from wpD [OF this assms(2)] show ?thesis by simp
qed

definition setup_sample :: sample where
  "setup_sample = empty_sample\<lparr>sm_ns := [(''n'', zero_meta\<lparr>mName := ''n''\<rparr>)]\<rparr>"

lemmas setup_run = sample_run setup_sample_def sample_pool_def sample_object_def zero_meta_def
  UpdateNamespaceResources_def adopt_step_def adopt_namespace_def GetNamespace_def
  UpdateAnnotations_def CreateClowdEnv_def CopySecretsFrom_def copy_one_secret_def
  empty_summary_def k8sobj.defs pool.defs limit_range.defs clowdenv.defs numeral_3_eq_3 cluster_key_def

theorem setup_success_means_all_steps_witness:
  "\<exists>tr. setup_done sample_env (sample_pool ''p'' None) ''n'' tr"
proof -
  have "snd (fst (run_state (UpdateNamespaceResources sample_env (sample_pool ''p'' None) ''n'')
      (sample_world setup_sample))) = None"
    by (simp add: setup_run)
  then obtain ns w' where "run_state (UpdateNamespaceResources sample_env (sample_pool ''p'' None)
      ''n'') (sample_world setup_sample) = ((ns, None), w')"
    by (metis prod.collapse)
  from setup_success_means_all_steps [OF sample_lib_ok this] show ?thesis by blast
qed

text \<open>
  C37. While it sets up a namespace of a pool with a ClowdEnvironment, the operator writes the
  namespace only in the state in which it was adopted: creating, not reserved, owned by the
  pool alone and labelled with it. So such a namespace is never offered before its
  environment is ready.
\<close>

theorem clowd_setup_never_marks_ready:
  assumes "lib_ok E" and "psClowdEnvironment (poolSpec pool) = Some sp"
    and "NsEv (Update ns r) \<in> set (events (UpdateNamespaceResources E pool n) w)"
  shows "gm_lookup (mAnnotations ns) AnnotationEnvStatus = Some EnvStatusCreating \<and>
    gm_lookup (mAnnotations ns) AnnotationReserved = Some FalseValue \<and>
    gm_lookup (mLabels ns) LabelPool = Some (mName pool) \<and>
    mOwnerReferences ns = [Pool_MakeOwnerReference pool]"
  using emits_events [OF emits_clowd_setup [OF assms(1,2)] assms(3)]
  by (auto simp: writes_adopted_def no_ns_write_def adopt_namespace_def lib_okD [OF assms(1)]
      CreateInitialAnnotations_def CreateInitialLabels_def LabelPool_def LabelOperatorNS_def)

definition sample_env_spec :: clowdenv_spec where
  "sample_env_spec = \<lparr>TargetNamespace = '''', WebMode = ''operator'', IngressClass = '''',
     clowdenvPayload = ''''\<rparr>"

theorem clowd_setup_never_marks_ready_witness:
  "\<exists>ns r. NsEv (Update ns r) \<in> set (events (UpdateNamespaceResources sample_env
       (sample_pool ''p'' (Some sample_env_spec)) ''n'') (sample_world setup_sample)) \<and>
     gm_lookup (mAnnotations ns) AnnotationEnvStatus = Some EnvStatusCreating"
proof -
  have "\<exists>ns r. NsEv (Update ns r) \<in> set (events (UpdateNamespaceResources sample_env
      (sample_pool ''p'' (Some sample_env_spec)) ''n'') (sample_world setup_sample))"
    by (simp add: setup_run)
  moreover have "psClowdEnvironment (poolSpec (sample_pool ''p'' (Some sample_env_spec))) =
      Some sample_env_spec"
    by (simp add: setup_run)
  ultimately show ?thesis using clowd_setup_never_marks_ready [OF sample_lib_ok] by blast
qed

end
