(* ===== verification/Pool_Controller.thy ===== *)
theory Pool_Controller
  imports Pool_Size Namespace_Setup
begin

text \<open>
  \<^verbatim>\<open>namespacepool_controller.go\<close>: the NamespacePool reconciler, which counts the namespaces
  of a pool, deletes the broken ones and creates or drops ready ones to reach the size.
\<close>

text \<open>\<^verbatim>\<open>ctrl.Result\<close>.\<close>

record ctrl_result =
  Requeue :: bool
  RequeueAfter :: duration

definition no_requeue :: ctrl_result where
  "no_requeue = \<lparr>Requeue = False, RequeueAfter = 0\<rparr>"

definition requeue :: ctrl_result where
  "requeue = \<lparr>Requeue = True, RequeueAfter = 0\<rparr>"

type_synonym reconcile_result = "ctrl_result \<times> gerr option"

section \<open>Events\<close>

definition EnqueueNamespace :: "'a k8sobj_scheme \<Rightarrow> key list" where
  "EnqueueNamespace a = (case gm_lookup (mLabels a) ''pool'' of
       Some pool \<Rightarrow> [cluster_key pool]
     | None \<Rightarrow> [])"

section \<open>Counting\<close>

record pool_counts =
  readyNamespaceCount :: int
  creatingNamespaceCount :: int
  reservedNamespaceCount :: int
  errNamespaceList :: "string list"

definition zero_counts :: pool_counts where
  "zero_counts = \<lparr>readyNamespaceCount = 0, creatingNamespaceCount = 0,
     reservedNamespaceCount = 0, errNamespaceList = []\<rparr>"

definition count_owner :: "string \<Rightarrow> namespace \<Rightarrow> owner_ref \<Rightarrow> pool_counts \<Rightarrow> pool_counts" where
  "count_owner uid ns owner c =
     (if rUID owner = uid then
        (let st = gm_index (mAnnotations ns) AnnotationEnvStatus in
         if st = EnvStatusReady then c\<lparr>readyNamespaceCount := readyNamespaceCount c + 1\<rparr>
         else if st = EnvStatusCreating then c\<lparr>creatingNamespaceCount := creatingNamespaceCount c + 1\<rparr>
         else if st = EnvStatusError then c\<lparr>errNamespaceList := errNamespaceList c @ [mName ns]\<rparr>
         else c)
      else if rKind owner = ''NamespaceReservation''
      then c\<lparr>reservedNamespaceCount := reservedNamespaceCount c + 1\<rparr>
      else c)"

fun count_owners_loop :: "string \<Rightarrow> namespace \<Rightarrow> owner_ref list \<Rightarrow> pool_counts \<Rightarrow> pool_counts" where
  "count_owners_loop uid ns [] c = c"
| "count_owners_loop uid ns (o1 # os) c = count_owners_loop uid ns os (count_owner uid ns o1 c)"

fun count_namespaces_loop :: "string \<Rightarrow> namespace list \<Rightarrow> pool_counts \<Rightarrow> pool_counts" where
  "count_namespaces_loop uid [] c = c"
| "count_namespaces_loop uid (ns # nss) c =
     count_namespaces_loop uid nss (count_owners_loop uid ns (mOwnerReferences ns) c)"

definition status_of_counts :: "pool_counts \<Rightarrow> pool_status" where
  "status_of_counts c = \<lparr>poolReady = readyNamespaceCount c, poolCreating = creatingNamespaceCount c,
     poolReserved = reservedNamespaceCount c\<rparr>"

text \<open>The pool whose status the function fills in is returned with the error list.\<close>

definition getPoolStatus :: "'s env \<Rightarrow> pool \<Rightarrow> ('s world, gerr + string list \<times> pool) state" where
  "getPoolStatus E pool = do {
     r \<leftarrow> listNs E (WithSelector (labels_Parse E (''pool='' @ mName pool)));
     State_Monad.return (case r of
         Inl err \<Rightarrow> Inl err
       | Inr items \<Rightarrow>
           (let c = count_namespaces_loop (mUID pool) items zero_counts
            in Inr (errNamespaceList c, pool\<lparr>poolStatus := status_of_counts c\<rparr>)))
   }"

definition getNamespaceQuantityDelta :: "pool \<Rightarrow> int" where
  "getNamespaceQuantityDelta pool =
     CalculateNamespaceQuantityDelta (psSizeLimit (poolSpec pool)) (psSize (poolSpec pool))
       (poolReady (poolStatus pool)) (poolCreating (poolStatus pool)) (poolReserved (poolStatus pool))"

section \<open>Deleting, filling and shrinking\<close>

fun deleteErrorNamespaces :: "'s env \<Rightarrow> string list \<Rightarrow> ('s world, gerr option) state" where
  "deleteErrorNamespaces E [] = State_Monad.return None"
| "deleteErrorNamespaces E (nsName # rest) = do {
     d \<leftarrow> DeleteNamespace E nsName;
     case d of
       Some err \<Rightarrow> State_Monad.return
         (Some (Errorf ''could not delete namespace in error state'' (Some err)))
     | None \<Rightarrow> deleteErrorNamespaces E rest
   }"

text \<open>
  The counting loop runs \<open>n\<close> times; \<open>increaseReadyNamespacesQueue\<close> takes Go's \<^verbatim>\<open>int\<close>, of
  which a value below one means no round. The error of \<^verbatim>\<open>CreateNamespace\<close> is only logged.
\<close>

fun increase_loop :: "'s env \<Rightarrow> pool \<Rightarrow> nat \<Rightarrow> ('s world, gerr option) state" where
  "increase_loop E pool 0 = State_Monad.return None"
| "increase_loop E pool (Suc i) = do {
     (nsName, _) \<leftarrow> CreateNamespace E pool;
     (ns, err) \<leftarrow> UpdateNamespaceResources E pool nsName;
     case err of
       None \<Rightarrow> increase_loop E pool i
     | Some _ \<Rightarrow> do {
         d \<leftarrow> deleteNs E ns;
         case d of
           Some _ \<Rightarrow> State_Monad.return (Some (Errorf ''cannot delete error namespace'' None))
         | None \<Rightarrow> increase_loop E pool i
       }
   }"

definition increaseReadyNamespacesQueue ::
  "'s env \<Rightarrow> pool \<Rightarrow> int \<Rightarrow> ('s world, gerr option) state" where
  "increaseReadyNamespacesQueue E pool increaseSize = increase_loop E pool (nat increaseSize)"

text \<open>
  One pass over the list: the first namespace that is ready and not reserved is marked, then
  the pass ends. The list is the one read at the start, in every round.
\<close>

fun mark_first_excess :: "'s env \<Rightarrow> namespace list \<Rightarrow> ('s world, gerr option) state" where
  "mark_first_excess E [] = State_Monad.return None"
| "mark_first_excess E (ns # nss) =
     (if gm_index (mAnnotations ns) AnnotationEnvStatus = EnvStatusReady \<and>
         gm_index (mAnnotations ns) AnnotationReserved = ''false''
      then UpdateAnnotations E (mName ns) (CustomAnnotation_ToMap AnnotationEnvError)
      else mark_first_excess E nss)"

fun decrease_loop :: "'s env \<Rightarrow> namespace list \<Rightarrow> nat \<Rightarrow> ('s world, gerr option) state" where
  "decrease_loop E namespaceList 0 = State_Monad.return None"
| "decrease_loop E namespaceList (Suc i) = do {
     u \<leftarrow> mark_first_excess E namespaceList;
     case u of
       Some err \<Rightarrow> State_Monad.return (Some err)
     | None \<Rightarrow> decrease_loop E namespaceList i
   }"

definition decreaseReadyNamespacesQueue ::
  "'s env \<Rightarrow> string \<Rightarrow> int \<Rightarrow> ('s world, gerr option) state" where
  "decreaseReadyNamespacesQueue E poolName decreaseSize = do {
     r \<leftarrow> GetReadyNamespaces E poolName;
     case r of
       Inl err \<Rightarrow> State_Monad.return (Some err)
     | Inr namespaceList \<Rightarrow> decrease_loop E namespaceList (nat (- decreaseSize))
   }"

section \<open>Reconcile\<close>

text \<open>The part of the handler after the broken namespaces are gone.\<close>

definition resize_step :: "'s env \<Rightarrow> pool \<Rightarrow> ('s world, gerr option) state" where
  "resize_step E pool =
     (let quantityOfNamespaces = getNamespaceQuantityDelta pool in
      if quantityOfNamespaces > 0
      then increaseReadyNamespacesQueue E pool quantityOfNamespaces
      else if quantityOfNamespaces < 0
      then decreaseReadyNamespacesQueue E (mName pool) quantityOfNamespaces
      else State_Monad.return None)"

definition Pool_Reconcile :: "'s env \<Rightarrow> key \<Rightarrow> ('s world, reconcile_result) state" where
  "Pool_Reconcile E req = do {
     g \<leftarrow> getPool E req;
     case g of
       Inl err \<Rightarrow> State_Monad.return
         (if IsNotFound err then (no_requeue, None) else (requeue, Some err))
     | Inr pool0 \<Rightarrow> do {
     s \<leftarrow> getPoolStatus E pool0;
     case s of
       Inl err \<Rightarrow> State_Monad.return (requeue, Some err)
     | Inr (errList, pool) \<Rightarrow> do {
     d \<leftarrow> (if length errList > 0 then deleteErrorNamespaces E errList
           else State_Monad.return None);
     case d of
       Some err \<Rightarrow> State_Monad.return (requeue, Some err)
     | None \<Rightarrow> do {
     q \<leftarrow> resize_step E pool;
     case q of
       Some err \<Rightarrow> State_Monad.return (requeue, Some err)
     | None \<Rightarrow> do {
     u \<leftarrow> statusPool E pool;
     State_Monad.return (case u of
         Inl err \<Rightarrow> (no_requeue, Some err)
       | Inr _ \<Rightarrow> (no_requeue, None))
     }}}}
   }"

section \<open>What the counts are\<close>

definition owned_pairs :: "namespace list \<Rightarrow> (namespace \<times> owner_ref) list" where
  "owned_pairs items = concat (map (\<lambda>ns. map (Pair ns) (mOwnerReferences ns)) items)"

definition pool_status_is :: "string \<Rightarrow> string \<Rightarrow> namespace \<times> owner_ref \<Rightarrow> bool" where
  "pool_status_is uid st x \<longleftrightarrow> rUID (snd x) = uid \<and>
     gm_index (mAnnotations (fst x)) AnnotationEnvStatus = st"

definition reserved_pair :: "string \<Rightarrow> namespace \<times> owner_ref \<Rightarrow> bool" where
  "reserved_pair uid x \<longleftrightarrow> rUID (snd x) \<noteq> uid \<and> rKind (snd x) = ''NamespaceReservation''"

definition how_many :: "('a \<Rightarrow> bool) \<Rightarrow> 'a list \<Rightarrow> int" where
  "how_many P xs = int (length (filter P xs))"

definition counted :: "string \<Rightarrow> (namespace \<times> owner_ref) list \<Rightarrow> pool_counts \<Rightarrow> pool_counts" where
  "counted uid xs c = c
     \<lparr>readyNamespaceCount := readyNamespaceCount c + how_many (pool_status_is uid EnvStatusReady) xs,
      creatingNamespaceCount :=
        creatingNamespaceCount c + how_many (pool_status_is uid EnvStatusCreating) xs,
      reservedNamespaceCount := reservedNamespaceCount c + how_many (reserved_pair uid) xs,
      errNamespaceList := errNamespaceList c @
        map (mName \<circ> fst) (filter (pool_status_is uid EnvStatusError) xs)\<rparr>"

lemma counted_append: "counted uid (xs @ ys) c = counted uid ys (counted uid xs c)"
  by (simp add: counted_def how_many_def)

lemma count_owner_counted: "count_owner uid ns ow c = counted uid [(ns, ow)] c"
  by (auto simp: count_owner_def counted_def how_many_def pool_status_is_def reserved_pair_def Let_def)

lemma count_owners_loop_counted:
  "count_owners_loop uid ns os c = counted uid (map (Pair ns) os) c"
proof (induction os arbitrary: c)
  case (Cons ow os)
  have "counted uid (map (Pair ns) (ow # os)) c = counted uid ([(ns, ow)] @ map (Pair ns) os) c"
    by simp
  with Cons show ?case by (simp only: counted_append count_owner_counted count_owners_loop.simps)
qed (simp add: counted_def how_many_def)

lemma count_namespaces_loop_counted:
  "count_namespaces_loop uid items c = counted uid (owned_pairs items) c"
  by (induction items arbitrary: c)
    (simp_all add: owned_pairs_def counted_append count_owners_loop_counted counted_def how_many_def)

text \<open>The status of a listing, and the names of its broken namespaces.\<close>

definition listed_status :: "string \<Rightarrow> namespace list \<Rightarrow> pool_status" where
  "listed_status uid items =
     \<lparr>poolReady = how_many (pool_status_is uid EnvStatusReady) (owned_pairs items),
      poolCreating = how_many (pool_status_is uid EnvStatusCreating) (owned_pairs items),
      poolReserved = how_many (reserved_pair uid) (owned_pairs items)\<rparr>"

definition listed_errors :: "string \<Rightarrow> namespace list \<Rightarrow> string list" where
  "listed_errors uid items = map (mName \<circ> fst)
     (filter (pool_status_is uid EnvStatusError) (owned_pairs items))"

definition pool_selector :: "'s env \<Rightarrow> pool \<Rightarrow> list_opts" where
  "pool_selector E pool = WithSelector (labels_Parse E (''pool='' @ mName pool))"

lemma counts_of_listing:
  "status_of_counts (count_namespaces_loop uid items zero_counts) = listed_status uid items"
  "errNamespaceList (count_namespaces_loop uid items zero_counts) = listed_errors uid items"
  by (simp_all add: count_namespaces_loop_counted counted_def status_of_counts_def zero_counts_def
      listed_status_def listed_errors_def)

lemma getPoolStatus_unfold:
  "getPoolStatus E pool = do {
     r \<leftarrow> listNs E (pool_selector E pool);
     State_Monad.return (case r of
         Inl err \<Rightarrow> Inl err
       | Inr items \<Rightarrow> Inr (listed_errors (mUID pool) items,
           pool\<lparr>poolStatus := listed_status (mUID pool) items\<rparr>))
   }"
  unfolding getPoolStatus_def pool_selector_def Let_def counts_of_listing ..

section \<open>Shrinking\<close>

text \<open>The calls by which one namespace is marked.\<close>

definition marks :: "'s env \<Rightarrow> string \<Rightarrow> smap \<Rightarrow> event \<Rightarrow> bool" where
  "marks E n a e \<longleftrightarrow> (\<exists>r. e = NsEv (Get (cluster_key n) r)) \<or>
     (\<exists>ns r. e = NsEv (Update (annotated E a ns) r))"

lemma emits_marks:
  assumes "lib_ok E"
  shows "emits (marks E n a) (UpdateAnnotations E n a)"
  unfolding UpdateAnnotations_def GetNamespace_def Let_def annotated_def [symmetric]
  by (intro emits_intros assms) (auto simp: marks_def)

definition is_excess :: "namespace \<Rightarrow> bool" where
  "is_excess ns \<longleftrightarrow> gm_index (mAnnotations ns) AnnotationEnvStatus = EnvStatusReady \<and>
     gm_index (mAnnotations ns) AnnotationReserved = ''false''"

lemma mark_first_excess_find:
  "mark_first_excess E items = (case List.find is_excess items of
       None \<Rightarrow> State_Monad.return None
     | Some ns \<Rightarrow> UpdateAnnotations E (mName ns) (CustomAnnotation_ToMap AnnotationEnvError))"
  by (induction items) (auto simp: is_excess_def)

lemma decrease_loop_marks:
  assumes "lib_ok E"
  shows "emits (\<lambda>e. \<exists>ns. List.find is_excess items = Some ns \<and>
    marks E (mName ns) [AnnotationEnvStatus \<mapsto> EnvStatusError] e) (decrease_loop E items k)"
proof (induction k)
  case (Suc k)
  show ?case
    unfolding decrease_loop.simps mark_first_excess_find ToMap_env_status
    by (intro emits_intros Suc emits_weaken [OF emits_marks [OF assms]]) blast
qed (simp add: emits_return)

section \<open>Creations\<close>

lemma CreateNamespace_at_most_one: "emits_at_most creates_namespace 1 (CreateNamespace E pool)"
proof -
  have none: "emits_at_most creates_namespace 0 (State_Monad.return x)" for x
    by (rule emits_at_most_none) (rule emits_return)
  have create: "emits_at_most creates_namespace (1 + 0) (k_call f ev \<bind> (\<lambda>x. State_Monad.return (g x)))"
    for f ev g by (intro emits_at_most_bind none emits_at_most_k_call)
  have "emits_at_most creates_namespace (0 + (1 + 0)) (CreateNamespace E pool)"
    unfolding CreateNamespace_def Let_def
    by (intro emits_at_most_bind emits_at_most_if create emits_at_most_none emits_k_call) simp
  then show ?thesis by simp
qed

lemma increase_loop_creates:
  assumes "lib_ok E"
  shows "emits_at_most creates_namespace k (increase_loop E pool k)"
proof (induction k)
  case 0
  show ?case by (simp add: emits_at_most_none emits_return)
next
  case (Suc k)
  have fills: "emits_at_most creates_namespace 0 (UpdateNamespaceResources E pool n)" for n
    by (rule emits_at_most_none, rule emits_weaken
        [OF filling.emits_UpdateNamespaceResources [OF assms]]) (simp add: fills_only_def)
  have ret: "emits_at_most creates_namespace i (State_Monad.return x)" for i and x :: "gerr option"
    by (rule emits_at_most_mono [of _ 0]) (simp_all add: emits_at_most_none emits_return)
  have "emits_at_most creates_namespace (1 + (0 + (0 + k))) (increase_loop E pool (Suc k))"
    unfolding increase_loop.simps case_prod_beta
    by (intro emits_at_most_bind CreateNamespace_at_most_one fills)
      (auto split: option.split intro!: Suc ret emits_at_most_bind [where i = 0, simplified]
        emits_at_most_none [OF emits_k_call])
  then show ?case by simp
qed

lemma resize_creates:
  assumes "lib_ok E"
  shows "emits_at_most creates_namespace (nat (getNamespaceQuantityDelta pool)) (resize_step E pool)"
proof -
  have "emits_at_most creates_namespace 0 (decreaseReadyNamespacesQueue E p k)" for p k
    unfolding decreaseReadyNamespacesQueue_def
    by (rule emits_at_most_none, rule emits_weaken [where \<Phi> = fills_only])
      (auto simp: fills_only_def marks_def intro!: emits_bind filling.emits_GetReadyNamespaces emits_return
        emits_weaken [OF decrease_loop_marks [OF assms]] split: sum.split)
  then show ?thesis
    by (auto simp: resize_step_def Let_def increaseReadyNamespacesQueue_def emits_at_most_none
        emits_return intro: increase_loop_creates assms)
qed

section \<open>Deletions\<close>

text \<open>
  The two reasons for which the reconciler of the pool \<open>req\<close> deletes the namespace value
  \<open>ns\<close>: the pool's listing had it in error; or the history ends with a run of the setup of a
  namespace it had asked for, and that run returned \<open>ns\<close> and an error.
\<close>

definition listed_broken :: "'s env \<Rightarrow> key \<Rightarrow> event list \<Rightarrow> namespace \<Rightarrow> bool" where
  "listed_broken E req h ns \<longleftrightarrow> (\<exists>h0 pool items n. h = h0 @ [NsEv (Get (cluster_key n) (Inr ns))] \<and>
     PoolEv (Get req (Inr pool)) \<in> set h0 \<and>
     NsEv (ListAll (pool_selector E pool) (Inr items)) \<in> set h0 \<and>
     n \<in> set (listed_errors (mUID pool) items) \<and> marked_deleting E h0)"

definition asked_for :: "string \<Rightarrow> event list \<Rightarrow> bool" where
  "asked_for n h \<longleftrightarrow> (\<exists>suffix. RandEv 6 suffix \<in> set h \<and>
     (n = ''ephemeral-'' @ strings_ToLower suffix \<or>
      (\<exists>x y. NsEv (Create x (Inr y)) \<in> set h \<and>
         mName x = ''ephemeral-'' @ strings_ToLower suffix \<and> mName y = n)))"

definition failed_setup :: "'s env \<Rightarrow> key \<Rightarrow> event list \<Rightarrow> namespace \<Rightarrow> bool" where
  "failed_setup E req h ns \<longleftrightarrow> (\<exists>pool n. PoolEv (Get req (Inr pool)) \<in> set h \<and>
     asked_for n h \<and> adopted_from E pool n ns h \<and>
     (\<exists>s w0 w1 err. run_state (UpdateNamespaceResources E (pool\<lparr>poolStatus := s\<rparr>) n) w0 =
        ((ns, Some err), w1) \<and> log w1 = h))"

definition delete_guard :: "'s env \<Rightarrow> key \<Rightarrow> event list \<Rightarrow> event \<Rightarrow> bool" where
  "delete_guard E req h e \<longleftrightarrow> (\<forall>ns r. e = NsEv (Delete ns r) \<longrightarrow>
     listed_broken E req h ns \<or> failed_setup E req h ns)"

lemma delete_guard_other: "no_delete e \<Longrightarrow> delete_guard E req h e"
  by (auto simp: delete_guard_def no_delete_def)

lemma fills_no_delete: "fills_only e \<Longrightarrow> no_delete e"
  by (simp add: fills_only_def no_delete_def)

lemma asked_for_mono: "asked_for n h \<Longrightarrow> set h \<subseteq> set h' \<Longrightarrow> asked_for n h'"
  unfolding asked_for_def by blast

lemma adopted_from_status [simp]:
  "adopted_from E (pool\<lparr>poolStatus := s\<rparr>) n ns h \<longleftrightarrow> adopted_from E pool n ns h"
  by (simp add: adopted_from_def adopt_namespace_def Pool_MakeOwnerReference_def)

lemma adopted_from_mono: "adopted_from E pool n ns h \<Longrightarrow> set h \<subseteq> set h' \<Longrightarrow> adopted_from E pool n ns h'"
  unfolding adopted_from_def by blast

lemma wp_CreateNamespace:
  assumes "\<And>n err tr w'. log w' = log w @ tr \<Longrightarrow> asked_for n tr \<Longrightarrow> Q (n, err) w'"
  shows "wp (CreateNamespace E pool) Q w"
  unfolding CreateNamespace_def Let_def
  by (intro wp_bind [THEN iffD2] wp_if wp_k_call)
    (auto simp: asked_for_def split: sum.split intro!: assms)

lemma follows_CreateNamespace: "follows (delete_guard E req) (CreateNamespace E pool) w"
  unfolding CreateNamespace_def Let_def
  by (intro follows_intros) (auto simp: delete_guard_def)

lemma follows_deleteErrorNamespaces:
  assumes lib: "lib_ok E" and "PoolEv (Get req (Inr pool)) \<in> set (log w)"
    and "NsEv (ListAll (pool_selector E pool) (Inr items)) \<in> set (log w)"
    and "set ns \<subseteq> set (listed_errors (mUID pool) items)"
  shows "follows (delete_guard E req) (deleteErrorNamespaces E ns) w"
  using assms(2-)
proof (induction ns arbitrary: w)
  case (Cons n ns)
  have step: "follows (delete_guard E req) (DeleteNamespace E n) w"
  proof (rule follows_DeleteNamespace [OF lib delete_guard_other])
    fix tr x r
    assume "marked_deleting E tr"
    then have "marked_deleting E (log w @ tr)" by (auto simp: marked_deleting_def)
    then show "delete_guard E req (log w @ tr @ [NsEv (Get (cluster_key n) (Inr x))]) (NsEv (Delete x r))"
      using Cons.prems unfolding delete_guard_def listed_broken_def
      by (intro allI impI disjI1 exI [of _ "log w @ tr"] exI [of _ pool] exI [of _ items] exI [of _ n])
        auto
  qed
  show ?case
    unfolding deleteErrorNamespaces.simps
    by (intro follows_intros step Cons.IH; drule emits_grows [OF anything.emits_DeleteNamespace [OF lib]])
      (use Cons.prems in auto)
qed (simp add: follows_return)


lemma follows_increase_loop:
  assumes lib: "lib_ok E" and "PoolEv (Get req (Inr pool)) \<in> set (log w)"
  shows "follows (delete_guard E req) (increase_loop E (pool\<lparr>poolStatus := s\<rparr>) k) w"
  using assms(2)
proof (induction k arbitrary: w)
  case (Suc k)
  let ?pool = "pool\<lparr>poolStatus := s\<rparr>"
  have created: "asked_for n (log w1) \<and> set (log w) \<subseteq> set (log w1)"
    if "run_state (CreateNamespace E ?pool) w = ((n, err), w1)" for n err w1
  proof -
    have "wp (CreateNamespace E ?pool)
        (\<lambda>r w1. asked_for (fst r) (log w1) \<and> set (log w) \<subseteq> set (log w1)) w"
      by (rule wp_CreateNamespace) (auto intro: asked_for_mono)
    from wpD [OF this that] show ?thesis by simp
  qed
  have filled: "adopted_from E pool n ns (log w2) \<and> set (log w1) \<subseteq> set (log w2)"
    if "run_state (UpdateNamespaceResources E ?pool n) w1 = ((ns, err), w2)" for n ns err w1 w2
  proof -
    have "wp (UpdateNamespaceResources E ?pool n)
        (\<lambda>r w2. adopted_from E pool n (fst r) (log w2) \<and> set (log w1) \<subseteq> set (log w2)) w1"
      by (rule wp_UpdateNamespaceResources [OF lib]) (auto intro: adopted_from_mono)
    from wpD [OF this that] show ?thesis by simp
  qed
  have del: "delete_guard E req (log w2) (NsEv (Delete ns r))"
    if "run_state (CreateNamespace E ?pool) w = ((n, e1), w1)"
      "run_state (UpdateNamespaceResources E ?pool n) w1 = ((ns, Some e2), w2)" for n e1 w1 ns e2 w2 r
  proof -
    from created [OF that(1)] filled [OF that(2)] Suc.prems
    have "PoolEv (Get req (Inr pool)) \<in> set (log w2)" "adopted_from E pool n ns (log w2)"
      "asked_for n (log w2)" by (auto intro: asked_for_mono)
    with that(2) show ?thesis unfolding delete_guard_def failed_setup_def by blast
  qed
  have kept: "PoolEv (Get req (Inr pool)) \<in> set (log w2)"
    if "run_state (CreateNamespace E ?pool) w = ((n, e1), w1)"
      "run_state (UpdateNamespaceResources E ?pool n) w1 = ((ns, e2), w2)" for n e1 w1 ns e2 w2
    using created [OF that(1)] filled [OF that(2)] Suc.prems by auto
  have fills: "follows (delete_guard E req) (UpdateNamespaceResources E ?pool n) w1" for n w1
    by (rule emits_follows [OF filling.emits_UpdateNamespaceResources [OF lib]])
      (simp add: delete_guard_other fills_no_delete)
  show ?case
    unfolding increase_loop.simps
    by (intro follows_intros follows_CreateNamespace fills Suc.IH) (auto intro: del dest: kept)
qed (simp add: follows_return)

text \<open>What the reconciler knows after it read the pool and counted its namespaces.\<close>

definition listed_pool :: "'s env \<Rightarrow> key \<Rightarrow> string list \<Rightarrow> pool \<Rightarrow> event list \<Rightarrow> bool" where
  "listed_pool E req errs pool h \<longleftrightarrow> (\<exists>pool0 items. PoolEv (Get req (Inr pool0)) \<in> set h \<and>
     NsEv (ListAll (pool_selector E pool0) (Inr items)) \<in> set h \<and>
     errs = listed_errors (mUID pool0) items \<and>
     pool = pool0\<lparr>poolStatus := listed_status (mUID pool0) items\<rparr>)"

lemma listed_pool_mono: "listed_pool E req errs pool h \<Longrightarrow> set h \<subseteq> set h' \<Longrightarrow> listed_pool E req errs pool h'"
  unfolding listed_pool_def by blast

lemma getPoolStatus_listed:
  assumes "run_state (getPoolStatus E pool0) w = (Inr (errs, pool), w')"
    and "PoolEv (Get req (Inr pool0)) \<in> set (log w)"
  shows "listed_pool E req errs pool (log w')"
  using assms unfolding getPoolStatus_unfold listed_pool_def
  by (auto split: sum.splits intro!: exI [of _ pool0])

lemma follows_resize_step:
  assumes "lib_ok E" and "listed_pool E req errs pool (log w)"
  shows "follows (delete_guard E req) (resize_step E pool) w"
proof -
  have shrink: "follows (delete_guard E req) (decreaseReadyNamespacesQueue E p k) w" for p k
    unfolding decreaseReadyNamespacesQueue_def
    by (rule emits_follows [where \<Phi> = no_delete])
      (auto simp: no_delete_def marks_def intro!: emits_bind keeping.emits_GetReadyNamespaces emits_return
        emits_weaken [OF decrease_loop_marks [OF assms(1)]] delete_guard_other split: sum.split)
  from assms(2) obtain pool0 s where "pool = pool0\<lparr>poolStatus := s\<rparr>"
      "PoolEv (Get req (Inr pool0)) \<in> set (log w)"
    by (auto simp: listed_pool_def)
  then show ?thesis
    unfolding resize_step_def Let_def increaseReadyNamespacesQueue_def
    by (intro follows_intros shrink) (auto intro: follows_increase_loop assms(1))
qed

lemma follows_Pool_Reconcile:
  assumes lib: "lib_ok E"
  shows "follows (delete_guard E req) (Pool_Reconcile E req) w"
proof -
  have status: "follows (delete_guard E req) (getPoolStatus E p) w" for p w
    unfolding getPoolStatus_unfold by (intro follows_intros) (simp add: delete_guard_def)
  have errors: "follows (delete_guard E req) (deleteErrorNamespaces E errs) w"
    if "\<exists>p. listed_pool E req errs p (log w)" for errs w
    using that by (auto simp: listed_pool_def intro: follows_deleteErrorNamespaces lib)
  have grows: "emits (\<lambda>_. True) (deleteErrorNamespaces E ns)" for ns
    by (induction ns) (auto intro!: emits_return emits_bind anything.emits_DeleteNamespace lib
        split: option.split)
  have rest: "listed_pool E req errs p (log w')"
    if "run_state (deleteErrorNamespaces E ns) w = (r, w')" "listed_pool E req errs p (log w)"
    for errs ns r p w w'
    using that by (auto dest!: emits_grows [OF grows] elim: listed_pool_mono)
  have listed: "listed_pool E req errs p (log w2)"
    if "run_state (getPoolStatus E p0) w1 = (Inr (errs, p), w2)"
      "log w1 = h @ [PoolEv (Get req (Inr p0))]" for errs p p0 w1 w2 h
    using that by (auto intro: getPoolStatus_listed)
  show ?thesis
    unfolding Pool_Reconcile_def
    by (intro follows_intros status errors follows_resize_step lib)
      (auto simp: delete_guard_def split: if_splits dest!: listed dest: rest)
qed


section \<open>Properties\<close>

text \<open>
  C32. The status that \<open>getPoolStatus\<close> fills in is exact for the namespaces it listed: per owner
  reference to the pool, the namespace counts as ready or creating by its annotation and its
  name is returned if it is in error; an owner that is a reservation counts as reserved.
\<close>

theorem pool_status_counts_listing:
  assumes "run_state (getPoolStatus E pool) w = (Inr (errs, pool'), w')"
  shows "\<exists>items. log w' = log w @ [NsEv (ListAll (pool_selector E pool) (Inr items))] \<and>
    (let xs = owned_pairs items; uid = mUID pool in
     pool' = pool\<lparr>poolStatus :=
       \<lparr>poolReady = how_many (pool_status_is uid EnvStatusReady) xs,
        poolCreating = how_many (pool_status_is uid EnvStatusCreating) xs,
        poolReserved = how_many (reserved_pair uid) xs\<rparr>\<rparr> \<and>
     errs = map (mName \<circ> fst) (filter (pool_status_is uid EnvStatusError) xs))"
  using assms unfolding getPoolStatus_unfold
  by (auto simp: listed_status_def listed_errors_def Let_def split: sum.splits)

theorem pool_status_counts_listing_witness:
  "\<exists>items. how_many (pool_status_is ''uid'' EnvStatusReady) (owned_pairs items) = 1"
proof -
  have "fst (run_state (getPoolStatus sample_env (sample_pool ''p'' None)) (sample_world ready_sample)) =
      Inr ([], (sample_pool ''p'' None)\<lparr>poolStatus := \<lparr>poolReady = 1, poolCreating = 0, poolReserved = 0\<rparr>\<rparr>)"
    by (simp add: getPoolStatus_def access_run sample_pool_def zero_counts_def count_owner_def
        status_of_counts_def k8sobj.defs pool.defs)
  then obtain w' where "run_state (getPoolStatus sample_env (sample_pool ''p'' None)) (sample_world ready_sample) =
      (Inr ([], (sample_pool ''p'' None)\<lparr>poolStatus := \<lparr>poolReady = 1, poolCreating = 0, poolReserved = 0\<rparr>\<rparr>), w')"
    by (metis prod.collapse)
  from pool_status_counts_listing [OF this] show ?thesis
    by (auto simp: Let_def sample_pool_def pool.defs k8sobj.defs)
qed

text \<open>
  C11. Resizing a pool creates at most as many namespaces as its counted status leaves room
  for: with those created, ready and creating namespaces stay within the size, and all its
  namespaces within the limit. In particular a pool at its size or limit creates none.
\<close>

theorem resize_within_size_and_limit:
  fixes pool :: pool
  defines "s \<equiv> poolStatus pool" and "p \<equiv> poolSpec pool"
  assumes "lib_ok E"
    and "sane_sizes (psSizeLimit p) (psSize p) (poolReady s) (poolCreating s) (poolReserved s)"
  shows "let created = int (length (filter creates_namespace (events (resize_step E pool) w))) in
    created = 0 \<or> poolReady s + poolCreating s + created \<le> psSize p \<and>
      (\<forall>l. psSizeLimit p = Some l \<longrightarrow> poolReady s + poolCreating s + poolReserved s + created \<le> l)"
proof -
  let ?c = "int (length (filter creates_namespace (events (resize_step E pool) w)))"
  have "?c \<le> int (nat (getNamespaceQuantityDelta pool))"
    unfolding of_nat_le_iff by (rule emits_at_most_events [OF resize_creates [OF assms(3)]])
  then have "?c = 0 \<or> ?c \<le> getNamespaceQuantityDelta pool" by linarith
  then show ?thesis
    using pool_size.fill_fits [OF assms(4), of ?c]
    by (auto simp: Let_def getNamespaceQuantityDelta_def s_def p_def pool_size.within_def
        split: option.splits)
qed

theorem resize_within_size_and_limit_witness:
  "0 < length (filter creates_namespace (events (resize_step sample_env (sample_pool ''p'' None))
     (sample_world empty_sample))) \<and>
   length (filter creates_namespace (events (resize_step sample_env (sample_pool ''p'' None))
     (sample_world empty_sample))) \<le> 2"
proof -
  have sane: "sane_sizes (psSizeLimit (poolSpec (sample_pool ''p'' None)))
      (psSize (poolSpec (sample_pool ''p'' None))) (poolReady (poolStatus (sample_pool ''p'' None)))
      (poolCreating (poolStatus (sample_pool ''p'' None))) (poolReserved (poolStatus (sample_pool ''p'' None)))"
    by (simp add: sane_sizes_def)
  have "0 < length (filter creates_namespace (events (resize_step sample_env
      (sample_pool ''p'' None)) (sample_world empty_sample)))" by code_simp
  with resize_within_size_and_limit [OF sample_lib_ok sane, of "sample_world empty_sample"]
  show ?thesis by (simp add: Let_def)
qed


text \<open>
  C13. The pool reconciler deletes a namespace for two reasons only. Either the pool's listing
  named it as owned by the pool and in error; then it was marked as being deleted and read
  again before. Or the calls just before are those of a setup, of a namespace it had asked for,
  that returned this value with an error.
\<close>

theorem pool_deletes_only_broken:
  assumes "lib_ok E" and "events (Pool_Reconcile E req) w = pre @ NsEv (Delete ns r) # post"
  shows "listed_broken E req pre ns \<or> failed_setup E req pre ns"
  using follows_events [OF follows_Pool_Reconcile [OF assms(1)] assms(2)]
  by (simp add: delete_guard_def)

definition broken_sample :: sample where
  "broken_sample = empty_sample\<lparr>sm_pools := [(''p'', sample_pool ''p'' None)],
     sm_ns := [(''n'', ready_ns\<lparr>mAnnotations := Some [AnnotationEnvStatus \<mapsto> EnvStatusError]\<rparr>)]\<rparr>"

theorem pool_deletes_only_broken_witness:
  "\<exists>pre ns. listed_broken sample_env (cluster_key ''p'') pre ns \<or>
     failed_setup sample_env (cluster_key ''p'') pre ns"
proof -
  let ?evs = "events (Pool_Reconcile sample_env (cluster_key ''p'')) (sample_world broken_sample)"
  have "list_ex deletes_namespace ?evs" by code_simp
  then obtain ns r where "NsEv (Delete ns r) \<in> set ?evs"
    by (auto simp: list_ex_iff elim!: deletes_namespace.elims)
  then obtain pre post where "?evs = pre @ NsEv (Delete ns r) # post" by (meson split_list)
  from pool_deletes_only_broken [OF sample_lib_ok this] show ?thesis by blast
qed



end
