(* ===== verification/Go_Time.thy ===== *)
theory Go_Time
  imports Cluster_Api
begin

text \<open>
  The parts of Go's package \<^verbatim>\<open>time\<close> that the controllers use: saturating differences of
  instants and \<^verbatim>\<open>time.ParseDuration\<close>, on byte strings, with its 64-bit overflow checks.
  The fraction of a duration is computed in \<^verbatim>\<open>float64\<close>; its rounding to 53 significant bits
  (nearest, ties to even) is written out on fractions.
\<close>

section \<open>Differences\<close>

definition maxDuration :: duration where "maxDuration = 2 ^ 63 - 1"
definition minDuration :: duration where "minDuration = - (2 ^ 63)"

definition time_Sub :: "time \<Rightarrow> time \<Rightarrow> duration" where
  "time_Sub t u = (if t - u > maxDuration then maxDuration
                   else if t - u < minDuration then minDuration else t - u)"

definition Nanosecond :: duration where "Nanosecond = 1"
definition Second :: duration where "Second = 1000000000"
definition Minute :: duration where "Minute = 60 * Second"
definition Hour :: duration where "Hour = 60 * Minute"

lemmas duration_defs = Nanosecond_def Second_def Minute_def Hour_def

lemma time_Sub_sign:
  "time_Sub t u \<le> 0 \<longleftrightarrow> t \<le> u"
  by (auto simp: time_Sub_def maxDuration_def minDuration_def)

lemma time_Sub_less_iff:
  "minDuration < d \<Longrightarrow> d \<le> maxDuration \<Longrightarrow> time_Sub t u < d \<longleftrightarrow> t - u < d"
  by (auto simp: time_Sub_def maxDuration_def minDuration_def)

section \<open>Rounding to float64\<close>

text \<open>\<open>p / q\<close> to the nearest integer, ties to even.\<close>

definition round_half_even :: "int \<Rightarrow> int \<Rightarrow> int" where
  "round_half_even p q = (let d = p div q; r = p mod q in
     if 2 * r < q \<or> (2 * r = q \<and> even d) then d else d + 1)"

text \<open>
  The least \<open>s\<close> with \<open>p < 2 ^ n * (q * 2 ^ s)\<close>, and the least \<open>s\<close> with
  \<open>2 ^ n * q \<le> p * 2 ^ s\<close> (for positive \<open>p\<close> and \<open>q\<close>).
\<close>

function scale_down :: "nat \<Rightarrow> int \<Rightarrow> int \<Rightarrow> nat" where
  "scale_down n p q = (if q \<le> 0 \<or> p < 2 ^ n * q then 0 else Suc (scale_down n p (2 * q)))"
  by pat_completeness auto
termination
proof (relation "measure (\<lambda>(n, p, q). nat (p + 1 - q))", goal_cases)
  case (2 n p q)
  then have "0 < q" and "2 ^ n * q \<le> p" by simp_all
  moreover have "1 * q \<le> 2 ^ n * q"
    using \<open>0 < q\<close> by (intro mult_right_mono) simp_all
  ultimately have "q \<le> p" by linarith
  with \<open>0 < q\<close> show ?case by simp
qed simp

function scale_up :: "nat \<Rightarrow> int \<Rightarrow> int \<Rightarrow> nat" where
  "scale_up n p q = (if p \<le> 0 \<or> 2 ^ n * q \<le> p then 0 else Suc (scale_up n (2 * p) q))"
  by pat_completeness auto
termination
  by (relation "measure (\<lambda>(n, p, q). nat (2 ^ n * q - p))") auto

declare scale_down.simps [simp del] scale_up.simps [simp del]

text \<open>A positive float64 is kept as the fraction it is.\<close>

definition float64 :: "int \<times> int \<Rightarrow> int \<times> int" where
  "float64 x = (case x of (p, q) \<Rightarrow>
     if p \<le> 0 \<or> q \<le> 0 then (0, 1)
     else if 2 ^ 53 * q \<le> p
     then (let s = scale_down 53 p q in (round_half_even p (q * 2 ^ s) * 2 ^ s, 1))
     else (let s = scale_up 52 p q in (round_half_even (p * 2 ^ s) q, 2 ^ s)))"

definition float_mult :: "int \<times> int \<Rightarrow> int \<times> int \<Rightarrow> int \<times> int" where
  "float_mult x y = float64 (fst x * fst y, snd x * snd y)"

definition float_divide :: "int \<times> int \<Rightarrow> int \<times> int \<Rightarrow> int \<times> int" where
  "float_divide x y = float64 (fst x * snd y, snd x * fst y)"

definition float_to_uint64 :: "int \<times> int \<Rightarrow> int" where
  "float_to_uint64 x = fst x div snd x"

section \<open>ParseDuration\<close>

definition is_digit :: "char \<Rightarrow> bool" where
  "is_digit c \<longleftrightarrow> (48 :: nat) \<le> of_char c \<and> of_char c \<le> (57 :: nat)"

definition digit_value :: "char \<Rightarrow> int" where
  "digit_value c = int (of_char c - 48)"

fun leadingInt_loop :: "int \<Rightarrow> string \<Rightarrow> (int \<times> string) option" where
  "leadingInt_loop x [] = Some (x, [])"
| "leadingInt_loop x (c # s) =
     (if \<not> is_digit c then Some (x, c # s)
      else if x > 2 ^ 63 div 10 then None
      else let x' = x * 10 + digit_value c in
        if x' > 2 ^ 63 then None else leadingInt_loop x' s)"

definition leadingInt :: "string \<Rightarrow> (int \<times> string) option" where
  "leadingInt s = leadingInt_loop 0 s"

fun leadingFraction_loop ::
  "int \<Rightarrow> int \<times> int \<Rightarrow> bool \<Rightarrow> string \<Rightarrow> int \<times> (int \<times> int) \<times> string" where
  "leadingFraction_loop x scale ovf [] = (x, scale, [])"
| "leadingFraction_loop x scale ovf (c # s) =
     (if \<not> is_digit c then (x, scale, c # s)
      else if ovf then leadingFraction_loop x scale ovf s
      else if x > (2 ^ 63 - 1) div 10 then leadingFraction_loop x scale True s
      else let y = x * 10 + digit_value c in
        if y > 2 ^ 63 then leadingFraction_loop x scale True s
        else leadingFraction_loop y (float_mult scale (10, 1)) ovf s)"

definition leadingFraction :: "string \<Rightarrow> int \<times> (int \<times> int) \<times> string" where
  "leadingFraction s = leadingFraction_loop 0 (1, 1) False s"

definition unitMap :: "string \<Rightarrow> int option" where
  "unitMap u =
     (if u = ''ns'' then Some 1
      else if u = ''us'' \<or> u = [CHR 0xC2, CHR 0xB5, CHR ''s''] \<or> u = [CHR 0xCE, CHR 0xBC, CHR ''s'']
        then Some 1000
      else if u = ''ms'' then Some 1000000
      else if u = ''s'' then Some 1000000000
      else if u = ''m'' then Some 60000000000
      else if u = ''h'' then Some 3600000000000
      else None)"

definition unit_char :: "char \<Rightarrow> bool" where
  "unit_char c \<longleftrightarrow> \<not> (c = CHR ''.'' \<or> is_digit c)"

definition invalid_duration :: gerr where
  "invalid_duration = Errorf ''time: invalid duration'' None"

text \<open>
  One round of the loop: the optional fraction, then the unit and the value (\<open>v\<close> before the
  point, \<open>f / scale\<close> after it), and the round as a whole.
\<close>

definition parse_fraction :: "string \<Rightarrow> (int \<times> (int \<times> int) \<times> string) \<times> bool" where
  "parse_fraction s = (case s of
     c # r \<Rightarrow> (if c = CHR ''.''
       then (let x = leadingFraction r in (x, length (snd (snd x)) \<noteq> length r))
       else ((0, (1, 1), s), False))
   | [] \<Rightarrow> ((0, (1, 1), s), False))"

definition parse_unit :: "int \<Rightarrow> int \<Rightarrow> int \<times> int \<Rightarrow> string \<Rightarrow> gerr + int \<times> string" where
  "parse_unit v f scale s =
     (let u = takeWhile unit_char s; rest = dropWhile unit_char s in
      if u = [] then Inl (Errorf ''time: missing unit in duration'' None)
      else case unitMap u of
        None \<Rightarrow> Inl (Errorf ''time: unknown unit in duration'' None)
      | Some unit \<Rightarrow>
          if v > 2 ^ 63 div unit then Inl invalid_duration
          else if f > 0
          then (let v' = v * unit + float_to_uint64
                  (float_mult (float64 (f, 1)) (float_divide (unit, 1) scale)) in
                if v' > 2 ^ 63 then Inl invalid_duration else Inr (v', rest))
          else Inr (v * unit, rest))"

definition parse_component :: "string \<Rightarrow> gerr + int \<times> string" where
  "parse_component s =
     (if s = [] \<or> \<not> (hd s = CHR ''.'' \<or> is_digit (hd s)) then Inl invalid_duration
      else case leadingInt s of
        None \<Rightarrow> Inl invalid_duration
      | Some (v, s1) \<Rightarrow>
          (case parse_fraction s1 of ((f, scale, s2), post) \<Rightarrow>
             if length s = length s1 \<and> \<not> post then Inl invalid_duration
             else parse_unit v f scale s2))"

lemma leadingInt_length: "leadingInt s = Some (v, s') \<Longrightarrow> length s' \<le> length s"
proof -
  have "leadingInt_loop x s = Some (v, s') \<Longrightarrow> length s' \<le> length s" for x
    by (induction x s rule: leadingInt_loop.induct) (auto simp: Let_def split: if_splits)
  then show "leadingInt s = Some (v, s') \<Longrightarrow> length s' \<le> length s"
    by (simp add: leadingInt_def)
qed

lemma leadingFraction_length: "length (snd (snd (leadingFraction s))) \<le> length s"
proof -
  have "length (snd (snd (leadingFraction_loop x sc ovf s))) \<le> length s" for x sc ovf
    by (induction x sc ovf s rule: leadingFraction_loop.induct) (auto simp: Let_def le_SucI)
  then show ?thesis by (simp add: leadingFraction_def)
qed

lemma parse_fraction_length: "length (snd (snd (fst (parse_fraction s)))) \<le> length s"
  using leadingFraction_length [of "tl s"]
  by (cases s) (auto simp: parse_fraction_def Let_def)

lemma dropWhile_shorter: "takeWhile P xs \<noteq> [] \<Longrightarrow> length (dropWhile P xs) < length xs"
  by (metis length_append length_greater_0_conv less_add_same_cancel2 takeWhile_dropWhile_id)

lemma parse_unit_shorter: "parse_unit v f sc s = Inr (d, s') \<Longrightarrow> length s' < length s"
  by (auto simp: parse_unit_def Let_def split: if_splits option.splits intro: dropWhile_shorter)

lemma parse_component_shorter:
  assumes "parse_component s = Inr (v, s')"
  shows "length s' < length s"
proof -
  from assms obtain v1 s1 where li: "leadingInt s = Some (v1, s1)"
    by (auto simp: parse_component_def split: if_splits option.splits)
  obtain f sc s2 post where pf: "parse_fraction s1 = ((f, sc, s2), post)"
    by (metis prod.exhaust)
  from assms li pf have "parse_unit v1 f sc s2 = Inr (v, s')"
    by (auto simp: parse_component_def split: if_splits)
  then have "length s' < length s2" by (rule parse_unit_shorter)
  also have "\<dots> \<le> length s1" using parse_fraction_length [of s1] pf by simp
  also have "\<dots> \<le> length s" using li by (rule leadingInt_length)
  finally show ?thesis .
qed

function parse_loop :: "int \<Rightarrow> string \<Rightarrow> gerr + int" where
  "parse_loop d s =
     (if s = [] then Inr d
      else case parse_component s of
        Inl e \<Rightarrow> Inl e
      | Inr (v, s') \<Rightarrow>
          (let d' = (d + v) mod 2 ^ 64 in
           if d' > 2 ^ 63 then Inl invalid_duration else parse_loop d' s'))"
  by pat_completeness auto
termination
  by (relation "measure (\<lambda>(d, s). length s)") (auto dest: parse_component_shorter)

declare parse_loop.simps [simp del]

definition ParseDuration :: "string \<Rightarrow> gerr + duration" where
  "ParseDuration orig =
     (let (neg, s) = (case orig of
            c # r \<Rightarrow> if c = CHR ''-'' \<or> c = CHR ''+'' then (c = CHR ''-'', r) else (False, orig)
          | [] \<Rightarrow> (False, orig))
      in if s = ''0'' then Inr 0
         else if s = [] then Inl invalid_duration
         else case parse_loop 0 s of
           Inl e \<Rightarrow> Inl e
         | Inr d \<Rightarrow>
             if neg then Inr (- d)
             else if d > 2 ^ 63 - 1 then Inl invalid_duration
             else Inr d)"

end
