(* ===== verification/Clowdenv_Controller.thy ===== *)
theory Clowdenv_Controller
  imports Pool_Controller Go_Time
begin

text \<open>
  \<^verbatim>\<open>clowdenvironment_controller.go\<close>: when the ClowdEnvironment of a pooled namespace is
  ready, its FrontendEnvironment is created and the namespace is marked ready.
\<close>

section \<open>Event filter\<close>

fun has_pool_owner :: "owner_ref list \<Rightarrow> bool" where
  "has_pool_owner [] = False"
| "has_pool_owner (owner # os) = (if rKind owner = ''NamespacePool'' then True else has_pool_owner os)"

definition isOwnedByPool :: "'s env \<Rightarrow> string \<Rightarrow> ('s world, bool) state" where
  "isOwnedByPool E nsName = do {
     r \<leftarrow> GetNamespace E nsName;
     State_Monad.return (case r of
         Inl _ \<Rightarrow> False
       | Inr ns \<Rightarrow> has_pool_owner (mOwnerReferences ns))
   }"

fun has_specific_pool_owner :: "string \<Rightarrow> owner_ref list \<Rightarrow> bool" where
  "has_specific_pool_owner uid [] = False"
| "has_specific_pool_owner uid (owner # os) =
     (if rKind owner = ''NamespacePool'' \<and> rUID owner = uid then True
      else has_specific_pool_owner uid os)"

definition isOwnedBySpecificPool :: "'s env \<Rightarrow> string \<Rightarrow> string \<Rightarrow> ('s world, bool) state" where
  "isOwnedBySpecificPool E nsName uid = do {
     r \<leftarrow> GetNamespace E nsName;
     State_Monad.return (case r of
         Inl _ \<Rightarrow> False
       | Inr ns \<Rightarrow> has_specific_pool_owner uid (mOwnerReferences ns))
   }"

datatype env_watch_event = EnvUpdated clowdenv | EnvCreated clowdenv | EnvDeleted

definition poolFilter :: "'s env \<Rightarrow> env_watch_event \<Rightarrow> ('s world, bool) state" where
  "poolFilter E e = (case e of
       EnvUpdated newObject \<Rightarrow> isOwnedByPool E (TargetNamespace (ceSpec newObject))
     | EnvCreated object \<Rightarrow> isOwnedByPool E (TargetNamespace (ceSpec object))
     | EnvDeleted \<Rightarrow> State_Monad.return False)"

section \<open>Reconcile\<close>

text \<open>The end of the handler: the completion time is recorded once per namespace.\<close>

definition record_completion :: "'s env \<Rightarrow> string \<Rightarrow> ('s world, reconcile_result) state" where
  "record_completion E namespaceName = do {
     r \<leftarrow> GetNamespace E namespaceName;
     case r of
       Inl err \<Rightarrow> State_Monad.return
         (requeue, Some (Errorf ''could not retrieve updated namespace'' (Some err)))
     | Inr ns \<Rightarrow>
         (if gm_lookup (mAnnotations ns) CompletionTime \<noteq> None
          then State_Monad.return (no_requeue, None)
          else do {
            nsCompletionTime \<leftarrow> time_Now E;
            let annotationCompletionTime =
              \<lparr>caAnnotation = CompletionTime, caValue = time_String E nsCompletionTime\<rparr>;
            u \<leftarrow> UpdateAnnotations E (mName ns) (CustomAnnotation_ToMap annotationCompletionTime);
            case u of
              Some err \<Rightarrow> State_Monad.return
                (requeue, Some (Errorf ''could not retrieve namespace after updating annotations'' (Some err)))
            | None \<Rightarrow> do {
                w \<leftarrow> updateNs E ns;
                case w of
                  Inl err \<Rightarrow> State_Monad.return (requeue, Some err)
                | Inr ns' \<Rightarrow> do {
                    emit_metric (With averageNamespaceCreationMetrics
                      [(''pool'', gm_index (mLabels ns') ''pool'')]
                      (Observe (Seconds (time_Sub nsCompletionTime (mCreationTimestamp ns')))));
                    State_Monad.return (no_requeue, None)
                  }
              }
          })
   }"

definition Clowdenv_Reconcile :: "'s env \<Rightarrow> key \<Rightarrow> ('s world, reconcile_result) state" where
  "Clowdenv_Reconcile E req = do {
     g \<leftarrow> getEnv E req;
     case g of
       Inl err \<Rightarrow> State_Monad.return
         (if IsNotFound err then (no_requeue, None) else (requeue, Some err))
     | Inr env \<Rightarrow>
         (if \<not> VerifyClowdEnvReady env then State_Monad.return (requeue, None)
          else do {
            let namespaceName = TargetNamespace (ceSpec env);
            fe \<leftarrow> CreateFrontendEnv E namespaceName env;
            aerr \<leftarrow> (case fe of
                Some _ \<Rightarrow> UpdateAnnotations E namespaceName (CustomAnnotation_ToMap AnnotationEnvError)
              | None \<Rightarrow> State_Monad.return None);
            case aerr of
              Some e \<Rightarrow> State_Monad.return (requeue, Some (Errorf ''error setting annotations'' (Some e)))
            | None \<Rightarrow> do {
                u \<leftarrow> UpdateAnnotations E namespaceName (CustomAnnotation_ToMap AnnotationEnvReady);
                case u of
                  Some e \<Rightarrow> State_Monad.return
                    (requeue, Some (Errorf ''error setting annotations'' (Some e)))
                | None \<Rightarrow> record_completion E namespaceName
              }
          })
   }"

section \<open>What the handler writes\<close>

locale env_handler_policy = annotate_policy + frontend_policy +
  assumes complete_ok: "ok (NsEv (Update ns r))"
begin

lemma emits_record_completion:
  assumes "lib_ok E"
  shows "emits ok (record_completion E n)"
  unfolding record_completion_def Let_def
  by (intro emits_intros emits_GetNamespace emits_UpdateAnnotations assms complete_ok read_ok) simp_all

end

text \<open>The handler writes namespaces, frontend environments and services, and deletes nothing.\<close>

definition env_handler_ok :: "event \<Rightarrow> bool" where
  "env_handler_ok e \<longleftrightarrow> is_read e \<or> (case e of
       NsEv (Update x r) \<Rightarrow> True
     | FrontendEv (Create x r) \<Rightarrow> True
     | ServiceEv (Create x r) \<Rightarrow> True
     | _ \<Rightarrow> False)"

interpretation handler: env_handler_policy env_handler_ok
  by unfold_locales (simp_all add: env_handler_ok_def)

definition env_guard :: "key \<Rightarrow> event list \<Rightarrow> event \<Rightarrow> bool" where
  "env_guard req h e \<longleftrightarrow> is_read e \<or> env_handler_ok e \<and>
     (\<exists>env. EnvEv (Get req (Inr env)) \<in> set h \<and> VerifyClowdEnvReady env)"

text \<open>\<open>follows\<close> for a guard that, once it allows something, allows it for ever.\<close>

lemma follows_monotone:
  assumes "emits \<Phi> m" and "\<And>tr e. \<Phi> e \<Longrightarrow> \<Gamma> (log w @ tr) e"
  shows "follows \<Gamma> m w"
proof (cases "run_state m w")
  case (Pair r w')
  with assms(1) obtain tr where "log w' = log w @ tr" "\<forall>e \<in> set tr. \<Phi> e"
    by (metis emits_log)
  with Pair assms(2) show ?thesis by (auto simp: follows_def)
qed

lemma follows_Clowdenv_Reconcile:
  assumes lib: "lib_ok E"
  shows "follows (env_guard req) (Clowdenv_Reconcile E req) w"
proof -
  have rest: "emits env_handler_ok (do {
      fe \<leftarrow> CreateFrontendEnv E n env;
      aerr \<leftarrow> (case fe of
          Some _ \<Rightarrow> UpdateAnnotations E n (CustomAnnotation_ToMap AnnotationEnvError)
        | None \<Rightarrow> State_Monad.return None);
      case aerr of
        Some e \<Rightarrow> State_Monad.return (requeue, Some (Errorf ''error setting annotations'' (Some e)))
      | None \<Rightarrow> do {
          u \<leftarrow> UpdateAnnotations E n (CustomAnnotation_ToMap AnnotationEnvReady);
          case u of
            Some e \<Rightarrow> State_Monad.return
              (requeue, Some (Errorf ''error setting annotations'' (Some e)))
          | None \<Rightarrow> record_completion E n
        }
    })" for n env
    by (intro emits_intros handler.emits_CreateFrontendEnv handler.emits_UpdateAnnotations
        handler.emits_record_completion lib)
  show ?thesis
    unfolding Clowdenv_Reconcile_def Let_def
    by (intro follows_intros follows_monotone [OF rest]) (auto simp: env_guard_def)
qed

definition marked_ready :: "'s env \<Rightarrow> string \<Rightarrow> event list \<Rightarrow> bool" where
  "marked_ready E n h \<longleftrightarrow> (\<exists>ns ns'. NsEv (Get (cluster_key n) (Inr ns)) \<in> set h \<and>
     NsEv (Update (annotated E [AnnotationEnvStatus \<mapsto> EnvStatusReady] ns) (Inr ns')) \<in> set h)"

lemma marked_ready_done:
  assumes "annotate_done E n [AnnotationEnvStatus \<mapsto> EnvStatusReady] tr None" and "set tr \<subseteq> set h"
  shows "marked_ready E n h"
proof -
  from assms(1) obtain tr0 ns ns' where "tr = tr0 @ [NsEv (Get (cluster_key n) (Inr ns)),
      NsEv (Update (annotated E [AnnotationEnvStatus \<mapsto> EnvStatusReady] ns) (Inr ns'))]"
    by (auto simp: annotate_done_def)
  with assms(2) show ?thesis
    unfolding marked_ready_def by (intro exI [of _ ns] exI [of _ ns']) auto
qed

section \<open>Properties\<close>

text \<open>
  C15. The reconciler of ClowdEnvironments writes only namespaces, frontend environments and
  services, and writes nothing before it has read the environment of its request as ready.
\<close>

theorem env_writes_only_when_ready:
  assumes "lib_ok E" and "events (Clowdenv_Reconcile E req) w = pre @ e # post" and "\<not> is_read e"
  shows "env_handler_ok e \<and> (\<exists>env. EnvEv (Get req (Inr env)) \<in> set pre \<and> VerifyClowdEnvReady env)"
  using follows_events [OF follows_Clowdenv_Reconcile [OF assms(1)] assms(2)] assms(3)
  by (simp add: env_guard_def)


definition env_sample :: sample where
  "env_sample = ready_sample\<lparr>
     sm_ns := [(''n'', ready_ns\<lparr>mAnnotations := Some [AnnotationEnvStatus \<mapsto> EnvStatusCreating,
       CompletionTime \<mapsto> ''then'']\<rparr>)],
     sm_envs := [(''env-n'', sample_clowdenv)]\<rparr>"

theorem env_writes_only_when_ready_witness:
  "\<exists>pre env. EnvEv (Get (cluster_key ''env-n'') (Inr env)) \<in> set pre \<and> VerifyClowdEnvReady env"
proof -
  let ?evs = "events (Clowdenv_Reconcile sample_env (cluster_key ''env-n'')) (sample_world env_sample)"
  have "list_ex (\<lambda>e. \<not> is_read e) ?evs" by code_simp
  then obtain e where e: "e \<in> set ?evs" "\<not> is_read e" unfolding list_ex_iff by (elim bexE)
  from split_list [OF e(1)] obtain pre post where "?evs = pre @ e # post" by (elim exE)
  from env_writes_only_when_ready [OF sample_lib_ok this e(2)] show ?thesis
    by (elim conjE exE) (intro exI conjI)
qed

text \<open>
  When the reconciler ends without an error although its environment was there and ready,
  it has marked the target namespace as ready: the history has a read of the namespace and
  the accepted write of that object with the ready annotation. This holds whether or not the
  frontend environment could be created.
\<close>

theorem env_success_marks_ready:
  assumes "lib_ok E" and "run_state (Clowdenv_Reconcile E req) w = ((r, None), w')"
    and "fst (k_get (env_api E) req (srv w)) = Inr env" and "VerifyClowdEnvReady env"
  shows "marked_ready E (TargetNamespace (ceSpec env)) (log w')"
proof -
  let ?n = "TargetNamespace (ceSpec env)"
  have anything: "emits (\<lambda>_. True) (record_completion E n)"
    "emits (\<lambda>_. True) (CreateFrontendEnv E n ce)" 
    "emits (\<lambda>_. True) (UpdateAnnotations E n [AnnotationEnvStatus \<mapsto> EnvStatusError])" for n ce
    by (rule emits_weaken [OF handler.emits_record_completion [OF assms(1)]], simp)
      (rule emits_weaken [OF handler.emits_CreateFrontendEnv [OF assms(1)]], simp,
        rule emits_weaken [OF handler.emits_UpdateAnnotations [OF assms(1)]], simp)
  let ?Q = "\<lambda>x w'. snd x = None \<longrightarrow> marked_ready E ?n (log w')"
  have ready: "wp (UpdateAnnotations E ?n [AnnotationEnvStatus \<mapsto> EnvStatusReady]) (\<lambda>u. wp (case u of
      Some e \<Rightarrow> State_Monad.return (requeue, Some (Errorf ''error setting annotations'' (Some e)))
    | None \<Rightarrow> record_completion E ?n) ?Q) w1" for w1
    by (intro wp_UpdateAnnotations [OF assms(1)] wp_intros wp_emits [OF anything(1)])
      (auto intro: marked_ready_done)
  have "wp (Clowdenv_Reconcile E req) ?Q w"
    unfolding Clowdenv_Reconcile_def Let_def ToMap_env_status
    by (intro wp_bind [THEN iffD2] wp_k_call wp_intros wp_emits [OF anything(2)]
        wp_emits [OF anything(3)]) (use assms(3,4) ready in auto)
  from wpD [OF this assms(2)] show ?thesis by simp
qed


theorem env_success_marks_ready_witness:
  "marked_ready sample_env ''n'' (log (snd (run_state
     (Clowdenv_Reconcile sample_env (cluster_key ''env-n'')) (sample_world env_sample))))"
proof -
  have "snd (fst (run_state (Clowdenv_Reconcile sample_env (cluster_key ''env-n''))
      (sample_world env_sample))) = None" by code_simp
  then obtain r w' where run: "run_state (Clowdenv_Reconcile sample_env (cluster_key ''env-n''))
      (sample_world env_sample) = ((r, None), w')"
    by (metis prod.collapse)
  have "fst (k_get (env_api sample_env) (cluster_key ''env-n'') (srv (sample_world env_sample))) =
      Inr sample_clowdenv"
    by (simp add: sample_run env_sample_def ready_sample_def cluster_key_def)
  moreover have "VerifyClowdEnvReady sample_clowdenv" by code_simp
  moreover have "TargetNamespace (ceSpec sample_clowdenv) = ''n''"
    by code_simp
  ultimately show ?thesis
    using env_success_marks_ready [OF sample_lib_ok run, of sample_clowdenv] run by simp
qed

text \<open>The values of \<open>env-status\<close> that the accepted writes of namespaces carry.\<close>

definition accepted_status :: "event \<Rightarrow> string list" where
  "accepted_status e = (case e of
       NsEv (Update x (Inr y)) \<Rightarrow> [gm_index (mAnnotations x) AnnotationEnvStatus]
     | _ \<Rightarrow> [])"

definition frontend_down :: "sample env" where
  "frontend_down = sample_env\<lparr>fe_api := (fe_api sample_env)
     \<lparr>k_create := (\<lambda>x s. (Inl (ApiError OtherReason), s))\<rparr>\<rparr>"

text \<open>
  A run in which the frontend environment cannot be created: the namespace is marked as
  being in error and then, in the same run, as ready. The failure is lost.
\<close>

theorem frontend_failure_still_ready:
  "concat (map accepted_status (events (Clowdenv_Reconcile frontend_down (cluster_key ''env-n''))
     (sample_world env_sample))) = [''error'', ''ready'']"
  by code_simp

definition completion_sample :: sample where
  "completion_sample = empty_sample\<lparr>sm_ns := [(''n'', sample_object ''n'')]\<rparr>"

text \<open>
  A run that records the completion time on a cluster with optimistic concurrency and no
  other writer: the last write uses the object read before that annotation was written, so it
  is refused as stale, and the creation metric after it is not observed.
\<close>

theorem completion_write_is_stale:
  "snd (fst (run_state (record_completion sample_env ''n'') (sample_world completion_sample))) =
     Some (ApiError Conflict)"
  by code_simp

end
