(* ===== verification/Poller.thy ===== *)
theory Poller
  imports Go_Time Namespace_Access
begin

text \<open>
  \<^verbatim>\<open>poller.go\<close>: the goroutine that deletes expired reservations. Its map of active
  reservations is the field \<open>active\<close> of the world, which the reservation controller fills.
\<close>

definition PollCycle :: duration where
  "PollCycle = 10"

definition namespaceIsExpired :: "'s env \<Rightarrow> time \<Rightarrow> ('s world, bool) state" where
  "namespaceIsExpired E expiration = do {
     now \<leftarrow> time_Now E;
     State_Monad.return (\<not> IsZero expiration \<and> time_Sub expiration now \<le> 0)
   }"

definition getExistingReservations :: "'s env \<Rightarrow> ('s world, gerr + reservation list) state" where
  "getExistingReservations E = listRes E AllObjects"

fun populate_loop :: "'s env \<Rightarrow> reservation list \<Rightarrow> ('s world, unit) state" where
  "populate_loop E [] = State_Monad.return ()"
| "populate_loop E (res # rest) = do {
     (if rsState (resStatus res) = ''active'' then do {
        put_active (mName res) (rsExpiration (resStatus res));
        emit_metric (With reservationsByRequesterTotalMetrics
          [(''requester'', rsRequester (resSpec res)), (''pool'', rsStatusPool (resStatus res))] Inc)
      }
      else State_Monad.return ());
     populate_loop E rest
   }"

definition populateActiveReservations :: "'s env \<Rightarrow> ('s world, gerr option) state" where
  "populateActiveReservations E = do {
     r \<leftarrow> getExistingReservations E;
     case r of
       Inl err \<Rightarrow> State_Monad.return (Some err)
     | Inr items \<Rightarrow> do {
         populate_loop E items;
         State_Monad.return None
       }
   }"

definition zero_reservation :: reservation where
  "zero_reservation = k8sobj.extend zero_meta
     \<lparr>resSpec = \<lparr>rsDuration = None, rsRequester = '''', rsTeam = '''', rsPool = '''',
                 rsSecretSourceNamespace = ''''\<rparr>,
      resStatus = \<lparr>rsExpiration = 0, rsState = '''', rsNamespace = '''', rsStatusPool = ''''\<rparr>\<rparr>"

text \<open>
  One visit of the range loop. An entry that is gone when its turn comes is not visited. If
  the reservation cannot be read the error is logged and the zero reservation is deleted.
\<close>

definition expire_entry :: "'s env \<Rightarrow> string \<Rightarrow> ('s world, unit) state" where
  "expire_entry E k = do {
     m \<leftarrow> get_active;
     case map_of m k of
       None \<Rightarrow> State_Monad.return ()
     | Some v \<Rightarrow> do {
         expired \<leftarrow> namespaceIsExpired E v;
         (if \<not> expired then State_Monad.return ()
          else do {
            del_active k;
            g \<leftarrow> getRes E (cluster_key k);
            _ \<leftarrow> deleteRes E (case g of Inl _ \<Rightarrow> zero_reservation | Inr res \<Rightarrow> res);
            m' \<leftarrow> get_active;
            emit_metric (With activeReservationTotalMetrics [(''controller'', ''namespacereservation'')]
              (SetTo (Count (length m'))))
          })
       }
   }"

fun expire_loop :: "'s env \<Rightarrow> string list \<Rightarrow> ('s world, unit) state" where
  "expire_loop E [] = State_Monad.return ()"
| "expire_loop E (k # ks) = do {
     expire_entry E k;
     expire_loop E ks
   }"

definition poll_cycle :: "'s env \<Rightarrow> ('s world, unit) state" where
  "poll_cycle E = do {
     m \<leftarrow> get_active;
     ks \<leftarrow> range_keys E (map fst m);
     expire_loop E ks;
     time_Sleep E (PollCycle * Second)
   }"

text \<open>The endless loop, cut after \<open>n\<close> cycles.\<close>

fun poll_cycles :: "'s env \<Rightarrow> nat \<Rightarrow> ('s world, unit) state" where
  "poll_cycles E 0 = State_Monad.return ()"
| "poll_cycles E (Suc n) = do {
     poll_cycle E;
     poll_cycles E n
   }"

definition Poll :: "'s env \<Rightarrow> nat \<Rightarrow> ('s world, unit) state" where
  "Poll E n = do {
     time_Sleep E (30 * Second);
     err \<leftarrow> populateActiveReservations E;
     case err of
       Some _ \<Rightarrow> State_Monad.return ()
     | None \<Rightarrow> poll_cycles E n
   }"

section \<open>The table of active reservations\<close>

text \<open>
  What the poller and the reservation controller rely on in the shared map: an entry is found
  under its key until it is deleted, and other entries are not touched.
\<close>

locale expiry_table =
  fixes look :: "'t \<Rightarrow> string \<Rightarrow> time option" and put :: "string \<Rightarrow> time \<Rightarrow> 't \<Rightarrow> 't"
    and del :: "string \<Rightarrow> 't \<Rightarrow> 't"
  assumes look_put: "look (put k v t) j = (if j = k then Some v else look t j)"
    and look_del: "look (del k t) j = (if j = k then None else look t j)"
begin

lemma del_submap: "look (del k t) \<subseteq>\<^sub>m look t"
  by (simp add: map_le_def look_del dom_def)

lemma look_put_fold:
  "look (foldl (\<lambda>t (k, v). put k v t) t kvs) = look t ++ map_of (rev kvs)"
  by (induction kvs arbitrary: t) (auto simp: fun_eq_iff look_put map_add_def split: option.splits)

lemma look_del_fold: "look (foldl (\<lambda>t k. del k t) t ks) = look t |` (- set ks)"
  by (induction ks arbitrary: t) (auto simp: fun_eq_iff look_del restrict_map_def)

end

interpretation active_table: expiry_table map_of AList.update AList.delete
  by unfold_locales (simp_all add: update_conv' delete_conv')

section \<open>What a cycle does to the table\<close>

definition expired_at :: "time \<Rightarrow> time \<Rightarrow> bool" where
  "expired_at now v \<longleftrightarrow> \<not> IsZero v \<and> v \<le> now"

definition delete_target :: "gerr + reservation \<Rightarrow> reservation" where
  "delete_target g = (case g of Inl _ \<Rightarrow> zero_reservation | Inr res \<Rightarrow> res)"

text \<open>
  A visit of the key \<open>k\<close> takes the table \<open>m\<close> with the calls \<open>tr\<close> to the table \<open>m'\<close>; \<open>visits\<close>
  is a sequence of visits.
\<close>

inductive visit :: "string \<Rightarrow> (string \<times> time) list \<Rightarrow> event list \<Rightarrow> (string \<times> time) list \<Rightarrow> bool"
where
  gone: "map_of m k = None \<Longrightarrow> visit k m [] m"
| kept: "map_of m k = Some v \<Longrightarrow> \<not> expired_at now v \<Longrightarrow> visit k m [NowEv now] m"
| dropped: "map_of m k = Some v \<Longrightarrow> expired_at now v \<Longrightarrow> m' = AList.delete k m \<Longrightarrow>
    visit k m [NowEv now, ResEv (Get (cluster_key k) g), ResEv (Delete (delete_target g) d),
      MetricEv (With activeReservationTotalMetrics [(''controller'', ''namespacereservation'')]
        (SetTo (Count (length m'))))] m'"

inductive visits ::
  "string list \<Rightarrow> (string \<times> time) list \<Rightarrow> event list \<Rightarrow> (string \<times> time) list \<Rightarrow> bool"
where
  none: "visits [] m [] m"
| more: "visit k m tr m1 \<Longrightarrow> visits ks m1 tr' m' \<Longrightarrow> visits (k # ks) m (tr @ tr') m'"

inductive_cases visitE: "visit k m tr m'"
inductive_cases visits_NilE: "visits [] m tr m'"
inductive_cases visits_ConsE: "visits (k # ks) m tr m'"
inductive_simps visits_Nil: "visits [] m tr m'"

lemma wp_expire_entry:
  "wp (expire_entry E k) (\<lambda>_ w'. \<exists>tr. log w' = log w @ tr \<and> visit k (active w) tr (active w')) w"
proof (cases "map_of (active w) k")
  case None
  then show ?thesis by (simp add: expire_entry_def visit.gone)
next
  case (Some v)
  note drop = visit.dropped [OF Some, where m' = "AList.delete k (active w)", unfolded delete_target_def]
  from Some show ?thesis
    unfolding expire_entry_def namespaceIsExpired_def
    by (auto simp: time_Sub_sign intro!: wp_intros wp_k_call)
      (auto simp: expired_at_def intro: visit.kept [OF Some] drop)
qed

lemma wp_expire_loop:
  "wp (expire_loop E ks) (\<lambda>_ w'. \<exists>tr. log w' = log w @ tr \<and> visits ks (active w) tr (active w')) w"
proof (induction ks arbitrary: w)
  case (Cons k ks)
  show ?case
    unfolding expire_loop.simps wp_bind
  proof (rule wp_mono [OF wp_expire_entry], elim exE conjE)
    fix tr and w1 :: "'a world"
    assume 1: "log w1 = log w @ tr" "visit k (active w) tr (active w1)"
    show "wp (expire_loop E ks)
        (\<lambda>_ w'. \<exists>tr. log w' = log w @ tr \<and> visits (k # ks) (active w) tr (active w')) w1"
    proof (rule wp_mono [OF Cons.IH], elim exE conjE)
      fix tr' and w' :: "'a world"
      assume "log w' = log w1 @ tr'" "visits ks (active w1) tr' (active w')"
      with 1 show "\<exists>tr. log w' = log w @ tr \<and> visits (k # ks) (active w) tr (active w')"
        by (intro exI [of _ "tr @ tr'"]) (simp add: visits.more)
    qed
  qed
qed (simp add: visits.none)

lemma visit_shrinks: "visit k m tr m' \<Longrightarrow> map_of m' \<subseteq>\<^sub>m map_of m"
  by (induction rule: visit.induct) (simp_all add: active_table.del_submap)

lemma visits_shrink: "visits ks m tr m' \<Longrightarrow> map_of m' \<subseteq>\<^sub>m map_of m"
  by (induction rule: visits.induct) (auto dest: visit_shrinks intro: map_le_trans)

text \<open>A delete is preceded by the clock reading that found the entry expired, and by the read.\<close>

definition poll_delete :: "(string \<rightharpoonup> time) \<Rightarrow> event list \<Rightarrow> reservation \<Rightarrow> bool" where
  "poll_delete t pre res \<longleftrightarrow> (\<exists>pre0 k v now g. t k = Some v \<and> expired_at now v \<and>
     pre = pre0 @ [NowEv now, ResEv (Get (cluster_key k) g)] \<and> res = delete_target g)"

lemma visit_deletes:
  assumes "visit k m tr m'" and "tr = pre @ ResEv (Delete res d) # post"
  shows "poll_delete (map_of m) pre res"
  using assms
  by (cases rule: visit.cases)
    (auto simp: poll_delete_def Cons_eq_append_conv
      intro!: exI [of _ "[] :: event list"] exI [of _ k])

lemma visits_delete:
  assumes "visits ks m tr m'" and "tr = pre @ ResEv (Delete res d) # post"
  shows "poll_delete (map_of m) pre res"
  using assms
proof (induction arbitrary: pre rule: visits.induct)
  case (more k m tr m1 ks tr' m')
  from append_split_elem [OF more.prems] show ?case
  proof (elim disjE exE conjE)
    fix post' assume "tr = pre @ ResEv (Delete res d) # post'"
    with more.hyps(1) show ?thesis by (rule visit_deletes)
  next
    fix pre' assume pre: "pre = tr @ pre'" "tr' = pre' @ ResEv (Delete res d) # post"
    from visit_shrinks [OF more.hyps(1)] more.IH [OF pre(2)] show ?thesis
      unfolding poll_delete_def pre(1) map_le_def by (metis append.assoc domI)
  qed
qed simp

text \<open>Which entries are left, by the clock readings of the visits.\<close>

lemma visit_other: "visit k m tr m' \<Longrightarrow> j \<noteq> k \<Longrightarrow> map_of m' j = map_of m j"
  by (auto elim!: visitE simp: active_table.look_del)

lemma visits_other: "visits ks m tr m' \<Longrightarrow> j \<notin> set ks \<Longrightarrow> map_of m' j = map_of m j"
  by (induction rule: visits.induct) (auto dest: visit_other)

definition judged :: "event list \<Rightarrow> time \<Rightarrow> time option \<Rightarrow> bool" where
  "judged tr v left \<longleftrightarrow> (\<exists>now. NowEv now \<in> set tr \<and>
     left = (if expired_at now v then None else Some v))"

lemma visit_judged:
  "visit k m tr m' \<Longrightarrow> map_of m k = Some v \<Longrightarrow> judged tr v (map_of m' k)"
  by (auto elim!: visitE simp: judged_def active_table.look_del)

lemma visits_judged:
  assumes "visits ks m tr m'" and "distinct ks" and "j \<in> set ks" and "map_of m j = Some v"
  shows "judged tr v (map_of m' j)"
  using assms
proof (induction rule: visits.induct)
  case (more k m tr m1 ks tr' m')
  show ?case
  proof (cases "j = k")
    case True
    with more have "judged tr v (map_of m1 j)" "map_of m' j = map_of m1 j"
      by (auto dest: visit_judged visits_other)
    then show ?thesis by (auto simp: judged_def)
  next
    case False
    with more have "judged tr' v (map_of m' j)" by (auto dest: visit_other)
    then show ?thesis by (auto simp: judged_def)
  qed
qed simp

lemma wp_poll_cycle:
  assumes "lib_ok E"
  shows "wp (poll_cycle E) (\<lambda>_ w'. \<exists>ks tr. mset ks = mset (map fst (active w)) \<and>
    log w' = log w @ RangeEv ks # tr @ [SleepEv (PollCycle * Second)] \<and>
    visits ks (active w) tr (active w')) w"
  unfolding poll_cycle_def wp_bind wp_active
proof (rule wp_k_call)
  fix ks s
  assume "range_order E (map fst (active w)) (srv w) = (ks, s)"
  then have ks: "mset ks = mset (map fst (active w))"
    using lib_okD(8) [OF assms, of "map fst (active w)" "srv w"] by simp
  show "wp (expire_loop E ks) (\<lambda>_. wp (time_Sleep E (PollCycle * Second))
      (\<lambda>_ w'. \<exists>ks tr. mset ks = mset (map fst (active w)) \<and>
        log w' = log w @ RangeEv ks # tr @ [SleepEv (PollCycle * Second)] \<and>
        visits ks (active w) tr (active w')))
      (w\<lparr>srv := s, log := log w @ [RangeEv ks]\<rparr>)"
    by (rule wp_mono [OF wp_expire_loop]) (use ks in \<open>auto intro!: wp_k_call\<close>)
qed

lemma poll_cycle_visits:
  assumes "lib_ok E" and "run_state (poll_cycle E) w = (u, w')"
  obtains ks tr where "mset ks = mset (map fst (active w))"
    "log w' = log w @ RangeEv ks # tr @ [SleepEv (PollCycle * Second)]"
    "visits ks (active w) tr (active w')"
  using wpD [OF wp_poll_cycle [OF assms(1)] assms(2)] by blast

text \<open>
  The specification of a cycle on the table as a map: what has expired at \<open>now\<close> is dropped,
  everything else stays.
\<close>

definition purge :: "time \<Rightarrow> (string \<rightharpoonup> time) \<Rightarrow> string \<rightharpoonup> time" where
  "purge now t = (\<lambda>k. case t k of
       None \<Rightarrow> None | Some v \<Rightarrow> if expired_at now v then None else Some v)"

lemma visits_purge:
  assumes "visits ks m tr m'" and "distinct (map fst m)" and "mset ks = mset (map fst m)"
    and "\<And>t. NowEv t \<in> set tr \<Longrightarrow> t = now"
  shows "map_of m' = purge now (map_of m)"
proof
  fix k
  have ks: "distinct ks" "set ks = fst ` set m"
    using assms(2,3) by (metis distinct_map mset_eq_imp_distinct_iff distinct_map)
      (metis assms(3) list.set_map mset_eq_setD)
  show "map_of m' k = purge now (map_of m) k"
  proof (cases "map_of m k")
    case None
    with visits_shrink [OF assms(1)] show ?thesis
      by (simp add: purge_def map_le_def) (metis domI not_None_eq)
  next
    case (Some v)
    then have "k \<in> set ks" using ks(2) by (force dest: map_of_SomeD)
    from visits_judged [OF assms(1) ks(1) this Some] Some show ?thesis
      by (auto simp: judged_def purge_def dest: assms(4))
  qed
qed

lemma poll_trace_split:
  assumes "([RangeEv ks] @ tr) @ [SleepEv n] = pre @ ResEv (Delete res d) # post"
  shows "\<exists>pre' post'. pre = RangeEv ks # pre' \<and> tr = pre' @ ResEv (Delete res d) # post'"
proof -
  from append_split_elem [OF assms] obtain post'
    where "[RangeEv ks] @ tr = pre @ ResEv (Delete res d) # post'"
    by (auto simp: Cons_eq_append_conv)
  then show ?thesis by (auto simp: Cons_eq_append_conv)
qed

text \<open>The same for a whole run, against any map \<open>t\<close> the table is part of.\<close>

definition poll_guard :: "(string \<rightharpoonup> time) \<Rightarrow> event list \<Rightarrow> event \<Rightarrow> bool" where
  "poll_guard t h e \<longleftrightarrow> (\<forall>res d. e = ResEv (Delete res d) \<longrightarrow> poll_delete t h res)"

lemma poll_delete_weaken:
  "poll_delete t pre res \<Longrightarrow> t \<subseteq>\<^sub>m t' \<Longrightarrow> poll_delete t' (h @ pre) res"
  unfolding poll_delete_def map_le_def by (metis append.assoc domI)

lemma follows_poll_cycle:
  assumes "lib_ok E" and "map_of (active w) \<subseteq>\<^sub>m t"
  shows "follows (poll_guard t) (poll_cycle E) w"
proof -
  obtain u w' where run: "run_state (poll_cycle E) w = (u, w')"
    by (metis surj_pair)
  obtain ks tr where tr: "log w' = log w @ RangeEv ks # tr @ [SleepEv (PollCycle * Second)]"
    and visits: "visits ks (active w) tr (active w')"
    by (rule poll_cycle_visits [OF assms(1) run])
  have "poll_guard t (log w @ pre) e"
    if "RangeEv ks # tr @ [SleepEv (PollCycle * Second)] = pre @ e # post" for pre e post
    unfolding poll_guard_def
  proof (intro allI impI)
    fix res d
    assume "e = ResEv (Delete res d)"
    with that have "([RangeEv ks] @ tr) @ [SleepEv (PollCycle * Second)] =
        pre @ ResEv (Delete res d) # post" by simp
    from poll_trace_split [OF this] obtain pre' post' where
      "pre = RangeEv ks # pre'" "tr = pre' @ ResEv (Delete res d) # post'" by blast
    then show "poll_delete t (log w @ pre) res"
      using poll_delete_weaken [OF visits_delete [OF visits] assms(2), of pre' res d post'
          "log w @ [RangeEv ks]"] by simp
  qed
  with run tr show ?thesis
    by (intro follows_def [THEN iffD2] exI conjI allI impI) simp_all
qed

lemma follows_poll_cycles:
  assumes "lib_ok E" and "map_of (active w) \<subseteq>\<^sub>m t"
  shows "follows (poll_guard t) (poll_cycles E n) w"
  using assms(2)
proof (induction n arbitrary: w)
  case (Suc n)
  show ?case
    unfolding poll_cycles.simps
  proof (rule follows_bind)
    show "follows (poll_guard t) (poll_cycle E) w"
      using assms(1) Suc.prems by (rule follows_poll_cycle)
    fix u and w' :: "'a world"
    assume "run_state (poll_cycle E) w = (u, w')"
    from poll_cycle_visits [OF assms(1) this] have "map_of (active w') \<subseteq>\<^sub>m map_of (active w)"
      by (meson visits_shrink)
    then show "follows (poll_guard t) (poll_cycles E n) w'"
      using Suc.prems by (blast intro: Suc.IH map_le_trans)
  qed
qed (simp add: follows_return)

text \<open>Filling the table: the active reservations of the listing, later ones first.\<close>

definition active_entries :: "reservation list \<Rightarrow> (string \<times> time) list" where
  "active_entries items = map (\<lambda>res. (mName res, rsExpiration (resStatus res)))
     (filter (\<lambda>res. rsState (resStatus res) = ''active'') items)"

lemma emits_populate_loop: "emits is_read (populate_loop E items)"
  by (induction items) (auto intro!: emits_intros)

lemma wp_populate_loop:
  "wp (populate_loop E items) (\<lambda>_ w'. (\<exists>tr. log w' = log w @ tr \<and> (\<forall>e \<in> set tr. is_read e)) \<and>
     active w' = foldl (\<lambda>t (k, v). AList.update k v t) (active w) (active_entries items)) w"
proof (induction items arbitrary: w)
  case (Cons res items)
  show ?case
    unfolding populate_loop.simps wp_bind
    by (rule wp_if; simp add: active_entries_def, intro wp_k_call wp_mono [OF Cons.IH])
      (auto simp: active_entries_def)
qed (simp add: active_entries_def)

lemma wp_populateActiveReservations:
  "wp (populateActiveReservations E) (\<lambda>r w'.
     (\<exists>err. r = Some err \<and> log w' = log w @ [ResEv (ListAll AllObjects (Inl err))] \<and>
        active w' = active w) \<or>
     (\<exists>items tr. r = None \<and> log w' = log w @ ResEv (ListAll AllObjects (Inr items)) # tr \<and>
        (\<forall>e \<in> set tr. is_read e) \<and>
        map_of (active w') = map_of (active w) ++ map_of (rev (active_entries items)))) w"
  unfolding populateActiveReservations_def getExistingReservations_def
  by (intro wp_bind [THEN iffD2] wp_intros wp_mono [OF wp_populate_loop])
    (auto simp: active_table.look_put_fold)

section \<open>Properties\<close>

text \<open>
  The poller deletes a reservation only for an entry of its table that has expired by the
  clock it just read, directly after reading that reservation: what it deletes is the object
  it read, or the zero reservation when the read failed.
\<close>

theorem poller_deletes_only_expired:
  assumes "lib_ok E" and "events (poll_cycle E) w = pre @ ResEv (Delete res d) # post"
  shows "\<exists>pre0 k v now g. map_of (active w) k = Some v \<and> \<not> IsZero v \<and> v \<le> now \<and>
    pre = pre0 @ [NowEv now, ResEv (Get (cluster_key k) g)] \<and>
    res = (case g of Inl _ \<Rightarrow> zero_reservation | Inr x \<Rightarrow> x)"
proof -
  obtain u w' where run: "run_state (poll_cycle E) (w\<lparr>log := []\<rparr>) = (u, w')"
    by (metis surj_pair)
  obtain ks tr where "log w' = RangeEv ks # tr @ [SleepEv (PollCycle * Second)]"
    and visits: "visits ks (active w) tr (active w')"
    by (rule poll_cycle_visits [OF assms(1) run]) simp
  with run have tr: "events (poll_cycle E) w =
      ([RangeEv ks] @ tr) @ [SleepEv (PollCycle * Second)]"
    by (simp add: events_def)
  from poll_trace_split [OF tr [symmetric, unfolded assms(2)]] obtain pre' post'
    where "pre = RangeEv ks # pre'" "tr = pre' @ ResEv (Delete res d) # post'" by blast
  with visits_delete [OF visits] show ?thesis
    by (fastforce simp: poll_delete_def expired_at_def delete_target_def)
qed

text \<open>
  C9. A cycle during which the clock reads \<open>now\<close> refines the removal of what has expired: the
  table it leaves is the old one without the entries whose time is set and not after \<open>now\<close>.
  No entry is skipped, whatever the order in which the map is ranged over.
\<close>

theorem poll_cycle_refines_purge:
  assumes "lib_ok E" and "distinct (map fst (active w))"
    and "run_state (poll_cycle E) w = (u, w')" and "log w' = log w @ tr"
    and "\<And>t. NowEv t \<in> set tr \<Longrightarrow> t = now"
  shows "map_of (active w') = purge now (map_of (active w))"
proof -
  from poll_cycle_visits [OF assms(1,3)] obtain ks tr' where
    "mset ks = mset (map fst (active w))" "visits ks (active w) tr' (active w')"
    "log w' = log w @ RangeEv ks # tr' @ [SleepEv (PollCycle * Second)]" .
  with assms(2,4,5) show ?thesis by (auto intro!: visits_purge)
qed

text \<open>
  A whole run of the poller, however many cycles it makes, deletes only reservations whose
  expiration has passed by the clock just read, the expiration being the one its table held at
  the start or the one of an active reservation of its first listing.
\<close>

theorem poll_deletes_only_expired_active:
  assumes "lib_ok E" and "events (Poll E n) w = pre @ ResEv (Delete res d) # post"
  shows "\<exists>items pre0 k v now g. ResEv (ListAll AllObjects (Inr items)) \<in> set pre \<and>
    (map_of (active w) ++ map_of (rev (active_entries items))) k = Some v \<and>
    \<not> IsZero v \<and> v \<le> now \<and> pre = pre0 @ [NowEv now, ResEv (Get (cluster_key k) g)] \<and>
    res = (case g of Inl _ \<Rightarrow> zero_reservation | Inr x \<Rightarrow> x)"
proof -
  let ?t = "\<lambda>items. map_of (active w) ++ map_of (rev (active_entries items))"
  let ?G = "\<lambda>h e. \<forall>res d. e = ResEv (Delete res d) \<longrightarrow>
    (\<exists>items. ResEv (ListAll AllObjects (Inr items)) \<in> set h \<and> poll_delete (?t items) h res)"
  have "follows ?G (Poll E n) (w\<lparr>log := []\<rparr>)"
    unfolding Poll_def
  proof (rule follows_bind, goal_cases)
    case (2 u w1)
    then have w1: "active w1 = active w" by auto
    show ?case
    proof (rule follows_bind, goal_cases)
      case 1
      show ?case
        unfolding populateActiveReservations_def getExistingReservations_def
        by (intro emits_follows [where \<Phi> = is_read] emits_intros emits_populate_loop) auto
    next
      case (2 r w2)
      have "wp (populateActiveReservations E) (\<lambda>r w2. r = None \<longrightarrow> (\<exists>items.
          ResEv (ListAll AllObjects (Inr items)) \<in> set (log w2) \<and> map_of (active w2) = ?t items)) w1"
        by (rule wp_mono [OF wp_populateActiveReservations]) (auto simp: w1)
      from wpD [OF this 2] have "r = None \<Longrightarrow> \<exists>items.
          ResEv (ListAll AllObjects (Inr items)) \<in> set (log w2) \<and> map_of (active w2) = ?t items"
        by simp
      then show ?case
        by (cases r) (auto simp: poll_guard_def intro!: follows_return
            follows_weaken [OF follows_poll_cycles [OF assms(1)]])
    qed
  qed (simp add: follows_k_call)
  from follows_events [OF this assms(2)] show ?thesis
    by (fastforce simp: poll_delete_def expired_at_def delete_target_def)
qed

text \<open>
  After it was filled without an error, the table holds for every active reservation of
  the listing its expiration (the last one listed under a name counts) and otherwise what it
  held before; when the listing fails the table is as it was.
\<close>

theorem populate_adds_active_reservations:
  assumes "run_state (populateActiveReservations E) w = (r, w')"
  shows "case r of
      Some err \<Rightarrow> active w' = active w \<and> log w' = log w @ [ResEv (ListAll AllObjects (Inl err))]
    | None \<Rightarrow> \<exists>items. ResEv (ListAll AllObjects (Inr items)) \<in> set (log w') \<and>
        map_of (active w') = map_of (active w) ++ map_of (rev (map
          (\<lambda>res. (mName res, rsExpiration (resStatus res)))
          (filter (\<lambda>res. rsState (resStatus res) = ''active'') items)))"
  using wpD [OF wp_populateActiveReservations assms]
  by (auto simp: active_entries_def)

text \<open>
  C40. When the poller cannot read a reservation whose entry has expired, it has already
  dropped the entry and goes on to delete the zero reservation: nothing is left that would
  make it try again.
\<close>

theorem failed_read_loses_entry:
  assumes "run_state (expire_entry E k) w = (u, w')" and "log w' = log w @ tr"
    and "ResEv (Get n (Inl err)) \<in> set tr"
  shows "map_of (active w') k = None \<and> (\<exists>d. ResEv (Delete zero_reservation d) \<in> set tr) \<and>
    (\<forall>res d. ResEv (Delete res d) \<in> set tr \<longrightarrow> mName res = '''')"
proof -
  from wpD [OF wp_expire_entry assms(1)] assms(2) have "visit k (active w) tr (active w')"
    by auto
  then show ?thesis
    using assms(3)
    by cases (auto simp: delete_target_def zero_reservation_def zero_meta_def k8sobj.defs
        active_table.look_del)
qed

definition poll_world :: "sample world" where
  "poll_world = (sample_world (empty_sample\<lparr>sm_res := [(''r'', (sample_reservation '''')
     \<lparr>resStatus := \<lparr>rsExpiration = 500, rsState = ''active'', rsNamespace = ''n'',
        rsStatusPool = ''default''\<rparr>\<rparr>)]\<rparr>))\<lparr>active := [(''r'', 500), (''s'', 900), (''t'', 2000)]\<rparr>"

lemmas poll_run = poll_world_def sample_run sample_reservation_def sample_object_def zero_meta_def
  k8sobj.defs

lemma poll_world_active: "active poll_world = [(''r'', 500), (''s'', 900), (''t'', 2000)]"
  by (simp add: poll_world_def)

fun deletes_reservation :: "event \<Rightarrow> bool" where
  "deletes_reservation (ResEv (Delete res d)) = True"
| "deletes_reservation _ = False"

theorem poller_deletes_only_expired_witness:
  "\<exists>pre res. (\<exists>d post. events (poll_cycle sample_env) poll_world = pre @ ResEv (Delete res d) # post) \<and>
     (\<exists>k v. map_of (active poll_world) k = Some v \<and> \<not> IsZero v)"
proof -
  let ?evs = "events (poll_cycle sample_env) poll_world"
  have "3 < length ?evs" "deletes_reservation (?evs ! 3)"
    by code_simp+
  then obtain res d where evs: "?evs = take 3 ?evs @ ResEv (Delete res d) # drop 4 ?evs"
    using id_take_nth_drop [of 3 ?evs] by (auto elim!: deletes_reservation.elims)
  from poller_deletes_only_expired [OF sample_lib_ok evs] evs show ?thesis by blast
qed

theorem poll_cycle_refines_purge_witness:
  "map_of (active (snd (run_state (poll_cycle sample_env) poll_world))) =
     purge 1000 (map_of (active poll_world))"
proof -
  let ?evs = "log (snd (run_state (poll_cycle sample_env) poll_world))"
  have "list_all (\<lambda>e. case e of NowEv t \<Rightarrow> t = 1000 | _ \<Rightarrow> True) ?evs"
    by code_simp
  then have now: "t = 1000" if "NowEv t \<in> set ?evs" for t
    using that by (auto simp: list_all_iff)
  have "distinct (map fst (active poll_world))"
    by (simp add: poll_world_active)
  moreover have "?evs = log poll_world @ ?evs"
    by (simp add: poll_world_def sample_world_def)
  ultimately show ?thesis
    using now by (rule poll_cycle_refines_purge [OF sample_lib_ok _ surjective_pairing])
qed

theorem poll_deletes_only_expired_active_witness:
  "\<exists>pre res. (\<exists>d post. events (Poll sample_env 2) poll_world = pre @ ResEv (Delete res d) # post) \<and>
     (\<exists>items k v. (map_of (active poll_world) ++ map_of (rev (active_entries items))) k = Some v \<and>
       \<not> IsZero v)"
proof -
  let ?evs = "events (Poll sample_env 2) poll_world"
  have "6 < length ?evs" "deletes_reservation (?evs ! 6)"
    by code_simp+
  then obtain res d where evs: "?evs = take 6 ?evs @ ResEv (Delete res d) # drop 7 ?evs"
    using id_take_nth_drop [of 6 ?evs] by (auto elim!: deletes_reservation.elims)
  from poll_deletes_only_expired_active [OF sample_lib_ok evs] obtain items k v where
    "(map_of (active poll_world) ++ map_of (rev (active_entries items))) k = Some v" "\<not> IsZero v"
    by (elim exE conjE)
  with evs show ?thesis by (intro exI conjI)
qed

theorem populate_adds_active_reservations_witness:
  "\<exists>items. map_of (active (snd (run_state (populateActiveReservations sample_env) poll_world))) =
     map_of (active poll_world) ++ map_of (rev (active_entries items))"
proof -
  have "fst (run_state (populateActiveReservations sample_env) poll_world) = None"
    by (simp add: populateActiveReservations_def getExistingReservations_def poll_run)
  with populate_adds_active_reservations [OF surjective_pairing, of sample_env poll_world]
  show ?thesis by (auto simp: active_entries_def)
qed

theorem failed_read_loses_entry_witness:
  "map_of (active (snd (run_state (expire_entry sample_env ''s'') poll_world))) ''s'' = None"
proof -
  let ?w = "snd (run_state (expire_entry sample_env ''s'') poll_world)"
  have "log ?w = log poll_world @ log ?w"
    by (simp add: poll_world_def sample_world_def)
  moreover have "ResEv (Get (cluster_key ''s'') (Inl (ApiError NotFound))) \<in> set (log ?w)"
    by (simp add: expire_entry_def namespaceIsExpired_def IsZero_def time_Sub_sign poll_run cluster_key_def)
  ultimately show ?thesis
    using failed_read_loses_entry [OF surjective_pairing] by blast
qed

end
