(* ===== verification/Capi.thy ===== *)
theory Capi
  imports Namespace_Access Go_Time
begin

text \<open>
  \<^verbatim>\<open>helpers/capi.go\<close>: draining the Cluster API resources of a namespace before it is
  released, and unsticking ROSAMachinePools whose controller gave up.
\<close>

section \<open>Operations\<close>

fun delete_clusters_loop :: "'s env \<Rightarrow> cluster list \<Rightarrow> ('s world, gerr option) state" where
  "delete_clusters_loop E [] = State_Monad.return None"
| "delete_clusters_loop E (c # cs) =
     (if deletion_is_zero c then do {
        d \<leftarrow> deleteCluster E c;
        case d of
          Some err \<Rightarrow>
            if \<not> IsNotFound err
            then State_Monad.return (Some (Errorf ''could not delete Cluster'' (Some err)))
            else delete_clusters_loop E cs
        | None \<Rightarrow> delete_clusters_loop E cs
      }
      else delete_clusters_loop E cs)"

definition DeleteCAPIResources :: "'s env \<Rightarrow> string \<Rightarrow> ('s world, gerr + bool) state" where
  "DeleteCAPIResources E namespaceName = do {
     r \<leftarrow> listClusters E (InNamespace namespaceName);
     case r of
       Inl err \<Rightarrow> State_Monad.return
         (if IsNoMatchError err then Inr False
          else Inl (Errorf ''could not list Cluster resources'' (Some err)))
     | Inr items \<Rightarrow> do {
         d \<leftarrow> delete_clusters_loop E items;
         State_Monad.return (case d of Some err \<Rightarrow> Inl err | None \<Rightarrow> Inr (length items > 0))
       }
   }"

definition stuckDeletionThreshold :: duration where
  "stuckDeletionThreshold = Hour"

definition rosa_finalizer :: string where
  "rosa_finalizer = ''rosamachinepools.infrastructure.cluster.x-k8s.io''"

definition clusterNameLabel :: string where
  "clusterNameLabel = ''cluster.x-k8s.io/cluster-name''"

text \<open>\<^verbatim>\<open>v, _ := m[k].(string)\<close>: the string under a key, or the empty string.\<close>

definition string_field :: "(string \<times> ujson) list \<Rightarrow> string \<Rightarrow> string" where
  "string_field m k = (case map_of m k of Some (UString s) \<Rightarrow> s | _ \<Rightarrow> '''')"

fun waiting_condition_loop :: "ujson list \<Rightarrow> bool" where
  "waiting_condition_loop [] = False"
| "waiting_condition_loop (c # cs) =
     (case c of
        UMap cond \<Rightarrow>
          if string_field cond ''type'' = ''Deleting'' \<and>
             string_field cond ''reason'' = ''WaitingForWorkersDeletion'' \<and>
             string_field cond ''status'' = ''True''
          then True else waiting_condition_loop cs
      | _ \<Rightarrow> waiting_condition_loop cs)"

definition clusterWaitingForWorkersDeletion ::
  "'s env \<Rightarrow> string \<Rightarrow> string \<Rightarrow> ('s world, gerr + bool) state" where
  "clusterWaitingForWorkersDeletion E namespaceName clusterName = do {
     r \<leftarrow> getUCluster E (namespaceName, clusterName);
     State_Monad.return (case r of
         Inl err \<Rightarrow> if IsNotFound err then Inr True
                    else Inl (Errorf ''could not get Cluster'' (Some err))
       | Inr c \<Rightarrow> Inr (waiting_condition_loop (uConditions c)))
   }"

definition deletion_time :: "'a k8sobj_scheme \<Rightarrow> time" where
  "deletion_time x = (case mDeletionTimestamp x of None \<Rightarrow> 0 | Some t \<Rightarrow> t)"

fun stuck_pools_loop ::
  "'s env \<Rightarrow> string \<Rightarrow> rosa_machine_pool list \<Rightarrow> bool \<Rightarrow> ('s world, gerr + bool) state" where
  "stuck_pools_loop E namespaceName [] patched = State_Monad.return (Inr patched)"
| "stuck_pools_loop E namespaceName (pool # pools) patched =
     (if deletion_is_zero pool \<or> \<not> ContainsFinalizer E (mFinalizers pool) rosa_finalizer
      then stuck_pools_loop E namespaceName pools patched
      else do {
        now \<leftarrow> time_Now E;
        if time_Sub now (deletion_time pool) < stuckDeletionThreshold
        then stuck_pools_loop E namespaceName pools patched
        else (
          let clusterName = gm_index (mLabels pool) clusterNameLabel
          in if clusterName = '''' then stuck_pools_loop E namespaceName pools patched
             else do {
               w \<leftarrow> clusterWaitingForWorkersDeletion E namespaceName clusterName;
               case w of
                 Inl err \<Rightarrow> State_Monad.return (Inl err)
               | Inr waiting \<Rightarrow>
                   if \<not> waiting then stuck_pools_loop E namespaceName pools patched
                   else do {
                     u \<leftarrow> updateRosa E (pool\<lparr>mFinalizers :=
                            RemoveFinalizer E (mFinalizers pool) rosa_finalizer\<rparr>);
                     case u of
                       Inl err \<Rightarrow>
                         if \<not> IsNotFound err
                         then State_Monad.return
                           (Inl (Errorf ''could not remove finalizer from ROSAMachinePool'' (Some err)))
                         else stuck_pools_loop E namespaceName pools True
                     | Inr _ \<Rightarrow> stuck_pools_loop E namespaceName pools True
                   }
             })
      })"

definition RemoveStuckROSAMachinePoolFinalizers ::
  "'s env \<Rightarrow> string \<Rightarrow> ('s world, gerr + bool) state" where
  "RemoveStuckROSAMachinePoolFinalizers E namespaceName = do {
     r \<leftarrow> listRosa E (InNamespace namespaceName);
     case r of
       Inl err \<Rightarrow> State_Monad.return
         (if IsNoMatchError err then Inr False
          else Inl (Errorf ''could not list ROSAMachinePool'' (Some err)))
     | Inr pools \<Rightarrow> stuck_pools_loop E namespaceName pools False
   }"

section \<open>Deleting the Cluster objects\<close>

locale drain_policy = read_policy +
  assumes cluster_delete_ok: "ok (ClusterEv (Delete c r))"
    and rosa_release_ok: "ok (RosaEv (Update (p\<lparr>mFinalizers := fs\<rparr>) u))"
begin

lemma emits_delete_clusters_loop: "emits ok (delete_clusters_loop E cs)"
  by (induction cs)
    (auto intro!: emits_return emits_k_call emits_bind cluster_delete_ok split: option.splits)

lemma emits_DeleteCAPIResources: "emits ok (DeleteCAPIResources E n)"
  unfolding DeleteCAPIResources_def
  by (intro emits_intros read_ok emits_delete_clusters_loop) simp_all

lemma emits_stuck_pools_loop: "emits ok (stuck_pools_loop E n ps b)"
proof (induction ps arbitrary: b)
  case (Cons p ps)
  show ?case
    unfolding stuck_pools_loop.simps clusterWaitingForWorkersDeletion_def Let_def
    by (intro emits_intros Cons.IH rosa_release_ok; simp add: read_ok)
qed (simp add: emits_return)

lemma emits_RemoveStuckROSAMachinePoolFinalizers:
  "emits ok (RemoveStuckROSAMachinePoolFinalizers E n)"
  unfolding RemoveStuckROSAMachinePoolFinalizers_def
  by (intro emits_intros emits_stuck_pools_loop; simp add: read_ok)

end

text \<open>The answers to a round of deletions, and which of them mean that the object is gone.\<close>

definition deletions :: "(cluster \<times> gerr option) list \<Rightarrow> event list" where
  "deletions ds = map (\<lambda>(c, r). ClusterEv (Delete c r)) ds"

definition gone :: "gerr option \<Rightarrow> bool" where
  "gone r = (case r of None \<Rightarrow> True | Some err \<Rightarrow> IsNotFound err)"

lemma deletions_simps [simp]:
  "deletions [] = []" "deletions ((c, r) # ds) = ClusterEv (Delete c r) # deletions ds"
  by (simp_all add: deletions_def)

lemma wp_delete_clusters_loop:
  "wp (delete_clusters_loop E cs) (\<lambda>r w'. \<exists>ds. log w' = log w @ deletions ds \<and>
     (r = None \<longrightarrow> map fst ds = filter deletion_is_zero cs \<and> (\<forall>d \<in> set ds. gone (snd d)))) w"
proof (induction cs arbitrary: w)
  case (Cons c cs)
  let ?Q = "\<lambda>r w'. \<exists>ds. log w' = log w @ deletions ds \<and>
      (r = None \<longrightarrow> map fst ds = filter deletion_is_zero (c # cs) \<and> (\<forall>d \<in> set ds. gone (snd d)))"
  have later: "wp (delete_clusters_loop E cs) ?Q w'"
    if "deletion_is_zero c" "gone x" "log w' = log w @ [ClusterEv (Delete c x)]" for x w'
  proof (rule wp_mono [OF Cons.IH], elim exE conjE)
    fix r w'' ds
    assume "log w'' = log w' @ deletions ds"
      and "r = None \<longrightarrow> map fst ds = filter deletion_is_zero cs \<and> (\<forall>d \<in> set ds. gone (snd d))"
    with that show "?Q r w''" by (intro exI [of _ "(c, x) # ds"]) simp
  qed
  show ?case
  proof (cases "deletion_is_zero c")
    case True
    then show ?thesis
      unfolding delete_clusters_loop.simps if_P [OF True]
      by (intro wp_intros wp_bind [THEN iffD2] wp_k_call later)
        (auto simp: gone_def intro!: exI [of _ "[(c, Some _)]"])
  next
    case False
    then show ?thesis by (auto intro: wp_mono [OF Cons.IH])
  qed
qed simp

text \<open>
  What a call of \<open>DeleteCAPIResources\<close> that reports \<open>remaining\<close> did: the CRD is not there,
  or every listed cluster not yet in deletion got a delete, in the order of the list.
\<close>

definition drain_report :: "string \<Rightarrow> bool \<Rightarrow> event list \<Rightarrow> bool" where
  "drain_report n remaining tr \<longleftrightarrow>
     (\<exists>err. IsNoMatchError err \<and> \<not> remaining \<and> tr = [ClusterEv (ListAll (InNamespace n) (Inl err))]) \<or>
     (\<exists>items ds. tr = ClusterEv (ListAll (InNamespace n) (Inr items)) # deletions ds \<and>
        map fst ds = filter deletion_is_zero items \<and> (\<forall>d \<in> set ds. gone (snd d)) \<and>
        remaining = (items \<noteq> []))"

lemma wp_DeleteCAPIResources:
  "wp (DeleteCAPIResources E n) (\<lambda>r w'. \<exists>tr. log w' = log w @ tr \<and>
     (\<forall>remaining. r = Inr remaining \<longrightarrow> drain_report n remaining tr)) w"
  unfolding DeleteCAPIResources_def
  by (intro wp_intros wp_bind [THEN iffD2] wp_k_call wp_mono [OF wp_delete_clusters_loop])
    (auto simp: drain_report_def split: option.splits)

section \<open>Releasing stuck machine pools\<close>

text \<open>
  When the controller may take its finalizer off the machine pool \<open>p\<close> of namespace \<open>n\<close>,
  after the history \<open>h\<close>: the pool was listed, holds the finalizer, is at least
  \<open>stuckDeletionThreshold\<close> into its deletion by the clock just read, and the last call found
  its Cluster gone or waiting for it.
\<close>

definition cluster_blocked :: "gerr + ucluster \<Rightarrow> bool" where
  "cluster_blocked r = (case r of
       Inl err \<Rightarrow> IsNotFound err
     | Inr c \<Rightarrow> waiting_condition_loop (uConditions c))"

definition may_release :: "'s env \<Rightarrow> string \<Rightarrow> event list \<Rightarrow> rosa_machine_pool \<Rightarrow> bool" where
  "may_release E n h p \<longleftrightarrow> (\<exists>h0 items pool now r.
     h = h0 @ [NowEv now, UClusterEv (Get (n, gm_index (mLabels pool) clusterNameLabel) r)] \<and>
     RosaEv (ListAll (InNamespace n) (Inr items)) \<in> set h0 \<and> pool \<in> set items \<and>
     p = pool\<lparr>mFinalizers := RemoveFinalizer E (mFinalizers pool) rosa_finalizer\<rparr> \<and>
     \<not> deletion_is_zero pool \<and> ContainsFinalizer E (mFinalizers pool) rosa_finalizer \<and>
     stuckDeletionThreshold \<le> now - deletion_time pool \<and> cluster_blocked r)"

definition release_guard :: "'s env \<Rightarrow> string \<Rightarrow> event list \<Rightarrow> event \<Rightarrow> bool" where
  "release_guard E n h e \<longleftrightarrow> (\<forall>p r. e = RosaEv (Update p r) \<longrightarrow> may_release E n h p)"

lemma release_guard_reads:
  "release_guard E n h (NowEv t)" "release_guard E n h (UClusterEv a)"
  "release_guard E n h (RosaEv (ListAll opts r))"
  by (simp_all add: release_guard_def)

lemma release_guard_release:
  assumes "RosaEv (ListAll (InNamespace n) (Inr items)) \<in> set h" "pool \<in> set items"
    and "\<not> deletion_is_zero pool" "ContainsFinalizer E (mFinalizers pool) rosa_finalizer"
    and "stuckDeletionThreshold \<le> now - deletion_time pool" "cluster_blocked r"
  shows "release_guard E n
    (h @ [NowEv now, UClusterEv (Get (n, gm_index (mLabels pool) clusterNameLabel) r)])
    (RosaEv (Update
      (pool\<lparr>mFinalizers := RemoveFinalizer E (mFinalizers pool) rosa_finalizer\<rparr>) u))"
  using assms unfolding release_guard_def may_release_def by blast

lemma threshold_less_iff:
  "time_Sub now t < stuckDeletionThreshold \<longleftrightarrow> now - t < stuckDeletionThreshold"
  by (rule time_Sub_less_iff)
    (simp_all add: stuckDeletionThreshold_def duration_defs minDuration_def maxDuration_def)

lemma follows_stuck_pools_loop:
  assumes "RosaEv (ListAll (InNamespace n) (Inr items)) \<in> set (log w)" and "set ps \<subseteq> set items"
  shows "follows (release_guard E n) (stuck_pools_loop E n ps b) w"
  using assms
proof (induction ps arbitrary: b w)
  case (Cons p ps b w)
  then show ?case
    unfolding stuck_pools_loop.simps clusterWaitingForWorkersDeletion_def Let_def
    by (intro follows_intros Cons.IH release_guard_reads)
      (auto simp: threshold_less_iff cluster_blocked_def split: sum.splits if_splits
        intro!: release_guard_release)
qed (simp add: follows_return)

lemma follows_RemoveStuck:
  "follows (release_guard E n) (RemoveStuckROSAMachinePoolFinalizers E n) w"
  unfolding RemoveStuckROSAMachinePoolFinalizers_def
  by (intro follows_intros follows_stuck_pools_loop release_guard_reads) auto

text \<open>The calls of the two drain helpers: nothing but reads, deletes of clusters, releases.\<close>

definition capi_ok :: "event \<Rightarrow> bool" where
  "capi_ok e \<longleftrightarrow> is_read e \<or>
     (case e of ClusterEv (Delete c r) \<Rightarrow> True | RosaEv (Update p r) \<Rightarrow> True | _ \<Rightarrow> False)"

interpretation capi: drain_policy capi_ok
  by unfold_locales (simp_all add: capi_ok_def)

section \<open>Properties\<close>

text \<open>
  C34. When \<open>DeleteCAPIResources\<close> returns without an error, its calls are the list of the
  namespace's clusters and then a delete, accepted or answered with not found, of each listed
  cluster that is not yet in deletion, in order; it reports that something remains exactly when
  the list was not empty, and a missing CRD counts as an empty list.
\<close>

theorem drain_deletes_live_clusters:
  assumes "run_state (DeleteCAPIResources E n) w = (Inr remaining, w')"
  shows "\<exists>tr. log w' = log w @ tr \<and> drain_report n remaining tr"
  using wpD [OF wp_DeleteCAPIResources assms] by auto

definition drain_sample :: sample where
  "drain_sample = empty_sample\<lparr>sm_clock := 2 * Hour,
     sm_clusters := [(''c'', sample_object ''c''),
                     (''d'', (sample_object ''d'')\<lparr>mDeletionTimestamp := Some 7\<rparr>)],
     sm_rosa := [(''p'', (sample_object ''p'')\<lparr>mFinalizers := [rosa_finalizer],
        mDeletionTimestamp := Some 5, mLabels := Some [clusterNameLabel \<mapsto> ''c'']\<rparr>)]\<rparr>"

lemmas capi_run = sample_run drain_sample_def sample_object_def zero_meta_def deletion_is_zero_def
  IsZero_def

theorem drain_deletes_live_clusters_witness:
  "\<exists>tr. log (snd (run_state (DeleteCAPIResources sample_env ''ns'') (sample_world drain_sample)))
     = tr \<and> drain_report ''ns'' True tr"
proof -
  have "\<exists>w'. run_state (DeleteCAPIResources sample_env ''ns'') (sample_world drain_sample) =
      (Inr True, w')"
    by (simp add: DeleteCAPIResources_def capi_run)
  then obtain w' where "run_state (DeleteCAPIResources sample_env ''ns'')
      (sample_world drain_sample) = (Inr True, w')" ..
  from drain_deletes_live_clusters [OF this] this show ?thesis
    by (simp add: sample_world_def)
qed

text \<open>
  C16. The operator takes the controller's finalizer off a machine pool only under both of the
  documented conditions: the pool has been in deletion for at least the threshold, by the
  clock read just before, and its Cluster, read after that, is gone or waits for its workers.
\<close>

theorem stuck_release_guarded:
  assumes "events (RemoveStuckROSAMachinePoolFinalizers E n) w = pre @ RosaEv (Update p r) # post"
  shows "may_release E n pre p"
  using follows_events [OF follows_RemoveStuck assms] by (simp add: release_guard_def)

theorem stuck_release_guarded_witness:
  "\<exists>pre p. events (RemoveStuckROSAMachinePoolFinalizers sample_env ''ns'')
     (sample_world drain_sample) \<noteq> pre \<and> may_release sample_env ''ns'' pre p"
proof -
  let ?evs = "events (RemoveStuckROSAMachinePoolFinalizers sample_env ''ns'')
     (sample_world drain_sample)"
  have "\<exists>p r. ?evs = take 3 ?evs @ RosaEv (Update p r) # []"
    by (simp add: RemoveStuckROSAMachinePoolFinalizers_def capi_run threshold_less_iff
        stuckDeletionThreshold_def duration_defs deletion_time_def gm_index_def clusterNameLabel_def
        clusterWaitingForWorkersDeletion_def IsNotFound_def time_Sub_def maxDuration_def)
  then obtain p r where evs: "?evs = take 3 ?evs @ RosaEv (Update p r) # []" by blast
  then have "?evs \<noteq> take 3 ?evs" by (metis append_self_conv list.distinct(1))
  with stuck_release_guarded [OF evs] show ?thesis by blast
qed

end
