(* ===== verification/Reservation_Controller.thy ===== *)
theory Reservation_Controller
  imports Clowdenv_Controller Poller Capi
begin

text \<open>
  \<^verbatim>\<open>namespacereservation_controller.go\<close>: the reservation reconciler, which hands a ready
  namespace of the requested pool to a reservation, keeps the poller's map up to date and
  drains Cluster API resources before a deleted reservation is let go. A function that may
  panic returns an \<open>outcome\<close>.
\<close>

definition capiCleanupFinalizer :: string where
  "capiCleanupFinalizer = ''capi-cleanup.cloud.redhat.com''"

section \<open>Durations\<close>

definition parseDurationTime :: "string \<Rightarrow> gerr + duration" where
  "parseDurationTime dur = (if dur \<noteq> '''' then ParseDuration dur else ParseDuration ''1h'')"

definition getExpirationTime :: "'s env \<Rightarrow> reservation \<Rightarrow> ('s world, (gerr + time) outcome) state" where
  "getExpirationTime E res = (case rsDuration (resSpec res) of
       None \<Rightarrow> State_Monad.return Panicked
     | Some dur \<Rightarrow> (case parseDurationTime dur of
           Inl err \<Rightarrow> State_Monad.return (Returned (Inl err))
         | Inr d \<Rightarrow>
             if d = 0 then do {
               now \<leftarrow> time_Now E;
               State_Monad.return (Returned (Inr now))
             }
             else State_Monad.return (Returned (Inr (mCreationTimestamp res + d)))))"

section \<open>Role bindings\<close>

definition hardCodedUserList :: "(string \<times> string) list" where
  "hardCodedUserList = [(''ephemeral-users'', ''Group''), (''system:authenticated'', ''Group'')]"

definition user_subject :: "string \<Rightarrow> subject" where
  "user_subject name = \<lparr>subAPIGroup = ''rbac.authorization.k8s.io'',
     subKind = (case map_of hardCodedUserList name of Some kind \<Rightarrow> kind | None \<Rightarrow> ''''),
     subName = name, subNamespace = ''''\<rparr>"

definition bot_subject :: subject where
  "bot_subject = \<lparr>subAPIGroup = '''', subKind = ''ServiceAccount'', subName = ''ephemeral-bot'',
     subNamespace = ''ephemeral-base''\<rparr>"

definition role_names :: "namespace \<Rightarrow> string list" where
  "role_names ns =
     (case gm_lookup (mLabels ns) ''pool'' of
        Some pool \<Rightarrow> if pool = ''minimal-secure'' then [''edit''] else [''admin'']
      | None \<Rightarrow> [''admin''])"

definition make_role_binding :: "namespace \<Rightarrow> string \<Rightarrow> string list \<Rightarrow> role_binding" where
  "make_role_binding ns rn users = k8sobj.extend
     (zero_meta\<lparr>mName := mName ns @ ''-'' @ rn, mNamespace := mName ns\<rparr>)
     \<lparr>rbRoleRef = \<lparr>roleAPIGroup = ''rbac.authorization.k8s.io'', roleKind = ''ClusterRole'',
                   roleName = rn\<rparr>,
      rbSubjects = map user_subject users @ [bot_subject]\<rparr>"

fun role_bindings_loop :: "'s env \<Rightarrow> namespace \<Rightarrow> string list \<Rightarrow> ('s world, gerr option) state" where
  "role_bindings_loop E ns [] = State_Monad.return None"
| "role_bindings_loop E ns (rn # rest) = do {
     users \<leftarrow> range_keys E (map fst hardCodedUserList);
     c \<leftarrow> createRoleBinding E (make_role_binding ns rn users);
     case c of
       Inl err \<Rightarrow> State_Monad.return (Some err)
     | Inr _ \<Rightarrow> role_bindings_loop E ns rest
   }"

definition addRoleBindings :: "'s env \<Rightarrow> namespace \<Rightarrow> ('s world, gerr option) state" where
  "addRoleBindings E ns = role_bindings_loop E ns (role_names ns)"

section \<open>Reserving a namespace\<close>

definition verifyClowdEnvForReadyNs :: "'s env \<Rightarrow> string \<Rightarrow> ('s world, gerr option) state" where
  "verifyClowdEnvForReadyNs E readyNsName = do {
     (ready, _, err) \<leftarrow> GetClowdEnv E readyNsName;
     State_Monad.return
       (if \<not> ready then Some (Errorf ''ClowdEnvironment is not ready for namespace'' err) else None)
   }"

text \<open>The namespace object as it is written: owned by the reservation, annotated as reserved.\<close>

definition reserved_object :: "reservation \<Rightarrow> smap \<Rightarrow> namespace \<Rightarrow> namespace" where
  "reserved_object res annotations ns =
     ns\<lparr>mOwnerReferences := [Reservation_MakeOwnerReference res],
        mAnnotations := Some (annotations(''reserved'' \<mapsto> ''true''))\<rparr>"

text \<open>The two optional rounds of secrets, before the namespace is written.\<close>

definition copy_reserved_secrets ::
  "'s env \<Rightarrow> string \<Rightarrow> reservation \<Rightarrow> ('s world, gerr option) state" where
  "copy_reserved_secrets E readyNsName res = do {
     s \<leftarrow> (if rsSecretSourceNamespace (resSpec res) \<noteq> ''''
           then CopySecretsFrom E (rsSecretSourceNamespace (resSpec res)) readyNsName True
           else State_Monad.return None);
     case s of
       Some err \<Rightarrow> State_Monad.return (Some err)
     | None \<Rightarrow>
         (if rsTeam (resSpec res) \<noteq> '''' then CopyReservationSecrets E readyNsName res
          else State_Monad.return None)
   }"

definition reserveNamespace ::
  "'s env \<Rightarrow> string \<Rightarrow> reservation \<Rightarrow> ('s world, gerr option outcome) state" where
  "reserveNamespace E readyNsName res = do {
     g \<leftarrow> getNs E (cluster_key readyNsName);
     case g of
       Inl err \<Rightarrow> State_Monad.return (Returned (Some err))
     | Inr ns \<Rightarrow> (case mAnnotations ns of
         None \<Rightarrow> State_Monad.return Panicked
       | Some annotations \<Rightarrow> do {
           s \<leftarrow> copy_reserved_secrets E readyNsName res;
           case s of
             Some err \<Rightarrow> State_Monad.return (Returned (Some err))
           | None \<Rightarrow> do {
               u \<leftarrow> updateNs E (reserved_object res annotations ns);
               case u of
                 Inl err \<Rightarrow> State_Monad.return (Returned (Some err))
               | Inr nsObject \<Rightarrow> do {
                   b \<leftarrow> addRoleBindings E nsObject;
                   State_Monad.return (Returned b)
                 }
             }
         })
   }"

section \<open>Cleanup of a deleted reservation\<close>

abbreviation state_of :: "reservation \<Rightarrow> string" where
  "state_of res \<equiv> rsState (resStatus res)"

definition set_state :: "string \<Rightarrow> reservation \<Rightarrow> reservation" where
  "set_state st res = res\<lparr>resStatus := (resStatus res)\<lparr>rsState := st\<rparr>\<rparr>"

definition drop_finalizer :: "'s env \<Rightarrow> reservation \<Rightarrow> reservation" where
  "drop_finalizer E res =
     res\<lparr>mFinalizers := RemoveFinalizer E (mFinalizers res) capiCleanupFinalizer\<rparr>"

definition add_finalizer :: "'s env \<Rightarrow> reservation \<Rightarrow> reservation" where
  "add_finalizer E res =
     res\<lparr>mFinalizers := AddFinalizer E (mFinalizers res) capiCleanupFinalizer\<rparr>"

text \<open>The part after the state has been set to deleting.\<close>

definition drain_and_release ::
  "'s env \<Rightarrow> string \<Rightarrow> reservation \<Rightarrow> ('s world, reconcile_result) state" where
  "drain_and_release E ns res = do {
     (case mDeletionTimestamp res of
        None \<Rightarrow> State_Monad.return ()
      | Some t \<Rightarrow> do {
          now \<leftarrow> time_Now E;
          emit_metric (With capiCleanupDurationMetrics
            [(''namespace'', ns), (''reservation'', mName res)] (SetTo (Seconds (time_Sub now t))))
        });
     d \<leftarrow> DeleteCAPIResources E ns;
     case d of
       Inl err \<Rightarrow> State_Monad.return (no_requeue, Some err)
     | Inr remaining \<Rightarrow> do {
     p \<leftarrow> RemoveStuckROSAMachinePoolFinalizers E ns;
     case p of
       Inl err \<Rightarrow> State_Monad.return (no_requeue, Some err)
     | Inr _ \<Rightarrow>
         (if remaining
          then State_Monad.return (\<lparr>Requeue = False, RequeueAfter = 10 * Second\<rparr>, None)
          else do {
            emit_metric (DeleteLabelValues capiCleanupDurationMetrics [ns, mName res]);
            u \<leftarrow> updateRes E (drop_finalizer E res);
            State_Monad.return (case u of
                Inl err \<Rightarrow> if IsNotFound err then (no_requeue, None) else (no_requeue, Some err)
              | Inr _ \<Rightarrow> (no_requeue, None))
          })
     }}"

definition handleCAPICleanup :: "'s env \<Rightarrow> reservation \<Rightarrow> ('s world, reconcile_result) state" where
  "handleCAPICleanup E res =
     (if \<not> ContainsFinalizer E (mFinalizers res) capiCleanupFinalizer
      then State_Monad.return (no_requeue, None)
      else (
        let ns = rsNamespace (resStatus res)
        in if ns = '''' then do {
             u \<leftarrow> updateRes E (drop_finalizer E res);
             State_Monad.return (case u of
                 Inl err \<Rightarrow> (no_requeue, Some err)
               | Inr _ \<Rightarrow> (no_requeue, None))
           }
           else do {
             s \<leftarrow> (if state_of res \<noteq> ''deleting''
                   then statusRes E (set_state ''deleting'' res)
                   else State_Monad.return (Inr res));
             case s of
               Inl err \<Rightarrow> State_Monad.return (no_requeue, Some err)
             | Inr res' \<Rightarrow> drain_and_release E ns res'
           }))"

section \<open>Reconcile\<close>

definition default_pool :: "reservation \<Rightarrow> reservation" where
  "default_pool res =
     (if rsStatusPool (resStatus res) = '''' then
        (if rsPool (resSpec res) = ''''
         then res\<lparr>resStatus := (resStatus res)\<lparr>rsStatusPool := ''default''\<rparr>\<rparr>
         else res\<lparr>resStatus := (resStatus res)\<lparr>rsStatusPool := rsPool (resSpec res)\<rparr>\<rparr>)
      else res)"

text \<open>\<open>ensure_finalizer\<close> is the guarded block that the active and the default case share.\<close>

definition ensure_finalizer :: "'s env \<Rightarrow> reservation \<Rightarrow> ('s world, gerr + reservation) state" where
  "ensure_finalizer E res =
     (if \<not> ContainsFinalizer E (mFinalizers res) capiCleanupFinalizer
      then updateRes E (add_finalizer E res)
      else State_Monad.return (Inr res))"

definition reconcile_active ::
  "'s env \<Rightarrow> reservation \<Rightarrow> ('s world, reconcile_result outcome) state" where
  "reconcile_active E res0 = do {
     f \<leftarrow> ensure_finalizer E res0;
     case f of
       Inl err \<Rightarrow> State_Monad.return (Returned (no_requeue, Some err))
     | Inr res \<Rightarrow> do {
     x \<leftarrow> getExpirationTime E res;
     case x of
       Panicked \<Rightarrow> State_Monad.return Panicked
     | Returned (Inl err) \<Rightarrow> State_Monad.return (Returned (no_requeue, Some err))
     | Returned (Inr expirationTS) \<Rightarrow> do {
     put_active (mName res) expirationTS;
     u \<leftarrow> statusRes E (res\<lparr>resStatus := (resStatus res)\<lparr>rsExpiration := expirationTS\<rparr>\<rparr>);
     case u of
       Inl err \<Rightarrow> State_Monad.return (Returned (no_requeue, Some err))
     | Inr _ \<Rightarrow> do {
     m \<leftarrow> get_active;
     emit_metric (With activeReservationTotalMetrics [(''controller'', ''namespacereservation'')]
       (SetTo (Count (length m))));
     State_Monad.return (Returned (no_requeue, None))
     }}}}"

text \<open>What is written once the namespace is reserved, and the bookkeeping after it.\<close>

definition active_status :: "string \<Rightarrow> time \<Rightarrow> reservation \<Rightarrow> reservation" where
  "active_status readyNsName expirationTS res = res\<lparr>resStatus := (resStatus res)
     \<lparr>rsNamespace := readyNsName, rsExpiration := expirationTS, rsState := ''active''\<rparr>\<rparr>"

definition activate_reservation ::
  "'s env \<Rightarrow> string \<Rightarrow> time \<Rightarrow> reservation \<Rightarrow> ('s world, reconcile_result outcome) state" where
  "activate_reservation E readyNsName expirationTS res0 = do {
     put_active (mName res0) expirationTS;
     u \<leftarrow> statusRes E (active_status readyNsName expirationTS res0);
     case u of
       Inl err \<Rightarrow> State_Monad.return (Returned (no_requeue, Some err))
     | Inr res1 \<Rightarrow> do {
     f \<leftarrow> ensure_finalizer E res1;
     case f of
       Inl err \<Rightarrow> State_Monad.return (Returned (no_requeue, Some err))
     | Inr res \<Rightarrow> (case rsDuration (resSpec res) of
         None \<Rightarrow> State_Monad.return Panicked
       | Some dur \<Rightarrow> (case parseDurationTime dur of
           Inl err \<Rightarrow> State_Monad.return (Returned (no_requeue, Some err))
         | Inr d \<Rightarrow> do {
             emit_metric (With reservationsByRequesterTotalMetrics
               [(''requester'', rsRequester (resSpec res)), (''pool'', rsStatusPool (resStatus res))] Inc);
             emit_metric (With averageRequestedDurationMetrics
               [(''controller'', ''namespacereservation''), (''pool'', rsPool (resSpec res))] (Observe (Hours d)));
             now \<leftarrow> time_Now E;
             emit_metric (With averageReservationToDeploymentMetrics
               [(''controller'', ''namespacereservation''), (''pool'', rsPool (resSpec res))]
               (Observe (Seconds (time_Sub now (mCreationTimestamp res)))));
             State_Monad.return (Returned (no_requeue, None))
           }))
     }}"

text \<open>Checking the first ready namespace against the pool, then reserving it.\<close>

definition take_namespace ::
  "'s env \<Rightarrow> string \<Rightarrow> time \<Rightarrow> reservation \<Rightarrow> ('s world, reconcile_result outcome) state" where
  "take_namespace E readyNsName expirationTS res = do {
     g \<leftarrow> getPool E (cluster_key (rsStatusPool (resStatus res)));
     case g of
       Inl err \<Rightarrow> State_Monad.return (Returned (requeue, Some err))
     | Inr pool \<Rightarrow> do {
     v \<leftarrow> (if psClowdEnvironment (poolSpec pool) \<noteq> None
           then verifyClowdEnvForReadyNs E readyNsName
           else State_Monad.return None);
     case v of
       Some err \<Rightarrow> do {
         a \<leftarrow> UpdateAnnotations E readyNsName (CustomAnnotation_ToMap AnnotationEnvError);
         State_Monad.return (Returned (case a of
             Some aerr \<Rightarrow> (requeue, Some aerr)
           | None \<Rightarrow> (requeue, Some err)))
       }
     | None \<Rightarrow> do {
     r \<leftarrow> reserveNamespace E readyNsName res;
     case r of
       Panicked \<Rightarrow> State_Monad.return Panicked
     | Returned (Some err) \<Rightarrow> do {
         emit_metric (With totalFailedPoolReservationsCountMetrics
           [(''pool'', rsPool (resSpec res))] Inc);
         State_Monad.return (Returned (requeue, Some err))
       }
     | Returned None \<Rightarrow> activate_reservation E readyNsName expirationTS res
     }}}"

definition reconcile_default ::
  "'s env \<Rightarrow> reservation \<Rightarrow> ('s world, reconcile_result outcome) state" where
  "reconcile_default E res = do {
     x \<leftarrow> getExpirationTime E res;
     case x of
       Panicked \<Rightarrow> State_Monad.return Panicked
     | Returned (Inl err) \<Rightarrow> do {
         _ \<leftarrow> deleteRes E res;
         State_Monad.return (Returned (no_requeue, Some err))
       }
     | Returned (Inr expirationTS) \<Rightarrow> do {
     l \<leftarrow> GetReadyNamespaces E (rsStatusPool (resStatus res));
     case l of
       Inl err \<Rightarrow> State_Monad.return (Returned (no_requeue, Some err))
     | Inr [] \<Rightarrow>
         (if state_of res = '''' then do {
            u \<leftarrow> statusRes E (res\<lparr>resStatus := (resStatus res)
                   \<lparr>rsState := ''waiting'', rsExpiration := expirationTS\<rparr>\<rparr>);
            State_Monad.return (Returned (case u of
                Inl err \<Rightarrow> (no_requeue, Some err)
              | Inr _ \<Rightarrow> (requeue, None)))
          }
          else State_Monad.return (Returned (requeue, None)))
     | Inr (ready # _) \<Rightarrow> take_namespace E (mName ready) expirationTS res
     }}"

definition reconcile_waiting ::
  "'s env \<Rightarrow> reservation \<Rightarrow> ('s world, reconcile_result outcome) state" where
  "reconcile_waiting E res = do {
     x \<leftarrow> getExpirationTime E res;
     case x of
       Panicked \<Rightarrow> State_Monad.return Panicked
     | Returned (Inl err) \<Rightarrow> State_Monad.return (Returned (no_requeue, Some err))
     | Returned (Inr expirationTS) \<Rightarrow> do {
         expired \<leftarrow> namespaceIsExpired E expirationTS;
         (if expired then do {
            _ \<leftarrow> deleteRes E res;
            State_Monad.return (Returned (no_requeue, None))
          }
          else reconcile_default E res)
       }
   }"

definition Reservation_Reconcile ::
  "'s env \<Rightarrow> key \<Rightarrow> ('s world, reconcile_result outcome) state" where
  "Reservation_Reconcile E req = do {
     g \<leftarrow> getRes E req;
     case g of
       Inl err \<Rightarrow> State_Monad.return
         (Returned (if IsNotFound err then (no_requeue, None) else (requeue, Some err)))
     | Inr res0 \<Rightarrow>
         (if \<not> deletion_is_zero res0 then do {
            r \<leftarrow> handleCAPICleanup E res0;
            State_Monad.return (Returned r)
          }
          else (
            let res = default_pool res0
            in if state_of res = ''active'' then reconcile_active E res
               else if state_of res = ''waiting'' then reconcile_waiting E res
               else reconcile_default E res))
   }"

end
