(* ===== verification/Reservation_Calls.thy ===== *)
theory Reservation_Calls
  imports Reservation_Controller
begin

text \<open>
  Which calls the parts of the reservation controller make: policies, each an extension of the
  policies of the helpers it uses, for reserving a namespace, for a reservation that is not
  deleted, and for the cleanup of a deleted one.
\<close>

section \<open>The calls of a reservation\<close>

locale reserve_policy = annotate_policy + secret_policy +
  assumes reserve_ok: "ok (NsEv (Update (reserved_object res a ns) r))"
    and binding_ok: "ok (RoleBindingEv (Create b c))"
begin

lemma emits_role_bindings_loop: "emits ok (role_bindings_loop E ns rns)"
  by (induction rns) (auto intro!: emits_intros binding_ok read_ok)

lemma emits_addRoleBindings: "emits ok (addRoleBindings E ns)"
  unfolding addRoleBindings_def by (rule emits_role_bindings_loop)

lemma emits_copy_reserved_secrets: "emits ok (copy_reserved_secrets E n res)"
  unfolding copy_reserved_secrets_def
  by (intro emits_intros emits_CopySecretsFrom emits_CopyReservationSecrets)

lemma emits_reserveNamespace: "emits ok (reserveNamespace E n res)"
  unfolding reserveNamespace_def
  by (intro emits_intros emits_copy_reserved_secrets emits_addRoleBindings reserve_ok)
    (simp add: read_ok)

lemma emits_verifyClowdEnvForReadyNs: "emits ok (verifyClowdEnvForReadyNs E n)"
  unfolding verifyClowdEnvForReadyNs_def GetClowdEnv_def
  by (intro emits_intros read_ok) simp_all

lemma emits_getExpirationTime: "emits ok (getExpirationTime E res)"
  unfolding getExpirationTime_def by (intro emits_intros read_ok) simp_all

end

section \<open>The calls for a reservation that is not deleted\<close>

locale handover_policy = reserve_policy +
  assumes active_ok: "state_of x = ''active'' \<Longrightarrow> ok (ResEv (StatusUpdate x r))"
    and add_finalizer_ok: "capiCleanupFinalizer \<in> set (mFinalizers x) \<Longrightarrow> ok (ResEv (Update x r))"
begin

lemma emits_ensure_finalizer: "lib_ok E \<Longrightarrow> emits ok (ensure_finalizer E res)"
  unfolding ensure_finalizer_def
  by (intro emits_intros add_finalizer_ok) (simp add: add_finalizer_def lib_okD)

lemma emits_activate_reservation: "lib_ok E \<Longrightarrow> emits ok (activate_reservation E n t res)"
  unfolding activate_reservation_def
  by (intro emits_intros emits_ensure_finalizer active_ok; simp add: read_ok active_status_def)

lemma emits_take_namespace: "lib_ok E \<Longrightarrow> emits ok (take_namespace E n t res)"
  unfolding take_namespace_def
  by (intro emits_intros emits_activate_reservation emits_reserveNamespace
      emits_UpdateAnnotations emits_verifyClowdEnvForReadyNs; simp add: read_ok)

text \<open>An active reservation is written back with whatever state it has.\<close>

lemma emits_reconcile_active:
  assumes "lib_ok E" and "\<And>x r. ok (ResEv (StatusUpdate x r))"
  shows "emits ok (reconcile_active E res)"
  unfolding reconcile_active_def
  by (intro emits_intros emits_ensure_finalizer emits_getExpirationTime assms;
      simp add: read_ok)

end

text \<open>With the deletes, and the one other status write: waiting, from no state.\<close>

locale live_policy = handover_policy +
  assumes delete_ok: "ok (ResEv (Delete x d))"
begin

lemma emits_reconcile_default:
  assumes "lib_ok E"
    and "\<And>x r. state_of res = '''' \<Longrightarrow> state_of x = ''waiting'' \<Longrightarrow> ok (ResEv (StatusUpdate x r))"
  shows "emits ok (reconcile_default E res)"
  unfolding reconcile_default_def
  by (intro emits_intros emits_take_namespace emits_GetReadyNamespaces emits_getExpirationTime
      assms delete_ok) simp_all

lemma emits_reconcile_waiting:
  assumes "lib_ok E"
    and "\<And>x r. state_of res = '''' \<Longrightarrow> state_of x = ''waiting'' \<Longrightarrow> ok (ResEv (StatusUpdate x r))"
  shows "emits ok (reconcile_waiting E res)"
  unfolding reconcile_waiting_def namespaceIsExpired_def
  by (intro emits_intros emits_reconcile_default emits_getExpirationTime delete_ok assms)
    (simp_all add: read_ok)

end

section \<open>The calls of a cleanup\<close>

locale cleanup_policy = drain_policy +
  assumes finalizer_ok: "ok (ResEv (Update (res\<lparr>mFinalizers := fs\<rparr>) r))"
begin

lemma emits_drain_and_release: "emits ok (drain_and_release E n res)"
  unfolding drain_and_release_def drop_finalizer_def
  by (intro emits_intros emits_DeleteCAPIResources emits_RemoveStuckROSAMachinePoolFinalizers
      finalizer_ok) (simp_all add: read_ok)

lemma emits_handleCAPICleanup:
  assumes "\<And>x r. state_of res \<noteq> ''deleting'' \<Longrightarrow> state_of x = ''deleting'' \<Longrightarrow>
    ok (ResEv (StatusUpdate x r))"
  shows "emits ok (handleCAPICleanup E res)"
  unfolding handleCAPICleanup_def drop_finalizer_def Let_def
  by (intro emits_intros emits_drain_and_release finalizer_ok assms)
    (simp_all add: set_state_def)

end

text \<open>Every call is allowed: the parts only extend the history.\<close>

interpretation anything_live: live_policy "\<lambda>_. True"
  by unfold_locales simp_all

interpretation anything_deleted: cleanup_policy "\<lambda>_. True"
  by unfold_locales simp_all

end
