(* ===== verification/Reservation_Handover.thy ===== *)
theory Reservation_Handover
  imports Reservation_Calls "HOL-Library.Sublist"
begin

text \<open>
  How a namespace is handed to a reservation: what the calls of \<open>reserveNamespace\<close> and
  \<open>take_namespace\<close> show about a run that got through, and the properties of an activation.
\<close>

section \<open>A run of \<open>reserveNamespace\<close>\<close>

definition res_quiet :: "event \<Rightarrow> bool" where
  "res_quiet e \<longleftrightarrow> (\<forall>a. e = ResEv a \<longrightarrow> reads a)"

interpretation quiet_res: reserve_policy res_quiet
  by unfold_locales (auto simp: res_quiet_def)

text \<open>What a run of \<open>addRoleBindings\<close> that got through has created.\<close>

definition bound :: "namespace \<Rightarrow> string \<Rightarrow> event list \<Rightarrow> bool" where
  "bound ns rn tr \<longleftrightarrow> (\<exists>users b. mset users = mset (map fst hardCodedUserList) \<and>
     RoleBindingEv (Create (make_role_binding ns rn users) (Inr b)) \<in> set tr)"

lemma bound_mono: "bound ns rn tr \<Longrightarrow> set tr \<subseteq> set tr' \<Longrightarrow> bound ns rn tr'"
  unfolding bound_def by blast

lemma bound_created:
  "mset users = mset (map fst hardCodedUserList) \<Longrightarrow>
   bound ns rn (RoleBindingEv (Create (make_role_binding ns rn users) (Inr b)) # tr)"
  unfolding bound_def by fastforce

lemma bound_range [simp]: "bound ns rn (RangeEv ks # tr) \<longleftrightarrow> bound ns rn tr"
  by (simp add: bound_def)

lemma bound_later: "bound ns rn tr \<Longrightarrow> bound ns rn (e # tr)"
  by (erule bound_mono) auto

lemma wp_role_bindings_loop:
  assumes "lib_ok E"
  shows "wp (role_bindings_loop E ns rns) (\<lambda>r w'. \<exists>tr. log w' = log w @ tr \<and>
    active w' = active w \<and> (r = None \<longrightarrow> (\<forall>rn \<in> set rns. bound ns rn tr))) w"
proof (induction rns arbitrary: w)
  case (Cons rn rns)
  have users: "mset users = mset (map fst hardCodedUserList)"
    if "range_order E (map fst hardCodedUserList) s = (users, s')" for users s s'
    using lib_okD(8) [OF assms, of "map fst hardCodedUserList" s] that by simp
  have "\<forall>rn' \<in> set (rn # rns).
      bound ns rn' (RangeEv users # RoleBindingEv (Create (make_role_binding ns rn users) (Inr b)) # tr)"
    if "range_order E (map fst hardCodedUserList) s = (users, s')"
      and "\<forall>rn' \<in> set rns. bound ns rn' tr" for users s s' b tr
    using that(2) bound_created [OF users [OF that(1)]] by (auto intro: bound_later)
  then show ?case
    unfolding role_bindings_loop.simps
    by (intro wp_bind [THEN iffD2] wp_intros wp_k_call wp_mono [OF Cons.IH])
      (fastforce simp del: mset_map)+
qed simp

lemma wp_addRoleBindings:
  assumes "lib_ok E"
  shows "wp (addRoleBindings E ns) (\<lambda>r w'. \<exists>tr. log w' = log w @ tr \<and>
    active w' = active w \<and> (r = None \<longrightarrow> (\<forall>rn \<in> set (role_names ns). bound ns rn tr))) w"
  unfolding addRoleBindings_def by (rule wp_role_bindings_loop [OF assms])

text \<open>
  The namespace \<open>n\<close> was read and written back as reserved for \<open>res\<close>, in this order, and the
  role bindings for the answer were created.
\<close>

definition reserved_in :: "string \<Rightarrow> reservation \<Rightarrow> event list \<Rightarrow> bool" where
  "reserved_in n res tr \<longleftrightarrow> (\<exists>ns a ns'. mAnnotations ns = Some a \<and>
     subseq [NsEv (Get (cluster_key n) (Inr ns)),
             NsEv (Update (reserved_object res a ns) (Inr ns'))] tr \<and>
     (\<forall>rn \<in> set (role_names ns'). bound ns' rn tr))"

lemma subseq_later: "subseq xs l \<Longrightarrow> subseq ys tr \<Longrightarrow> subseq (xs @ ys) (l @ tr)"
  by (rule list_emb_append_mono)

lemma reserved_inI:
  assumes "mAnnotations ns = Some a" and "\<forall>rn \<in> set (role_names ns'). bound ns' rn tr2"
  shows "reserved_in n res (NsEv (Get (cluster_key n) (Inr ns)) # tr1 @
    NsEv (Update (reserved_object res a ns) (Inr ns')) # tr2)"
proof -
  have "subseq ([NsEv (Get (cluster_key n) (Inr ns))] @ [NsEv (Update (reserved_object res a ns) (Inr ns'))])
      ((NsEv (Get (cluster_key n) (Inr ns)) # tr1) @ NsEv (Update (reserved_object res a ns) (Inr ns')) # tr2)"
    by (rule subseq_later) simp_all
  with assms show ?thesis
    unfolding reserved_in_def by (force intro: bound_mono)
qed

lemma wp_reserveNamespace:
  assumes lib: "lib_ok E"
  shows "wp (reserveNamespace E n res) (\<lambda>r w'. \<exists>tr. log w' = log w @ tr \<and>
    (r = Returned None \<longrightarrow> reserved_in n res tr)) w"
  unfolding reserveNamespace_def
  by (intro wp_bind [THEN iffD2] wp_intros wp_k_call
      wp_emits [OF quiet_res.emits_copy_reserved_secrets] wp_mono [OF wp_addRoleBindings [OF lib]])
    (auto intro!: reserved_inI)

text \<open>
  The whole way of the namespace \<open>n\<close> to the reservation \<open>res\<close>: it was listed as ready in the
  pool, the pool was read (and the ClowdEnvironment of \<open>n\<close> found ready, if the pool has one),
  then the namespace was read and written back as reserved and its role bindings created.
\<close>

abbreviation pool_of :: "reservation \<Rightarrow> string" where
  "pool_of res \<equiv> rsStatusPool (resStatus res)"

definition env_verified :: "pool \<Rightarrow> string \<Rightarrow> event list \<Rightarrow> bool" where
  "env_verified pool n h \<longleftrightarrow> (psClowdEnvironment (poolSpec pool) \<noteq> None \<longrightarrow>
     (\<exists>ce. EnvEv (Get (n, env_name n) (Inr ce)) \<in> set h \<and> VerifyClowdEnvReady ce))"

definition offered :: "string \<Rightarrow> namespace list \<Rightarrow> string \<Rightarrow> bool" where
  "offered p items n \<longleftrightarrow> (\<exists>ready \<in> set items. mName ready = n \<and> offers p ready \<and>
     (\<exists>ow \<in> set (mOwnerReferences ready). rKind ow = KindNamespacePool))"

definition handed_over :: "'s env \<Rightarrow> reservation \<Rightarrow> string \<Rightarrow> event list \<Rightarrow> bool" where
  "handed_over E res n h \<longleftrightarrow> (\<exists>items pool ns a ns'.
     subseq [NsEv (ListAll (ready_selector E (pool_of res)) (Inr items)),
             PoolEv (Get (cluster_key (pool_of res)) (Inr pool)),
             NsEv (Get (cluster_key n) (Inr ns)),
             NsEv (Update (reserved_object res a ns) (Inr ns'))] h \<and>
     offered (pool_of res) items n \<and> env_verified pool n h \<and> mAnnotations ns = Some a \<and>
     (\<forall>rn \<in> set (role_names ns'). bound ns' rn h))"

lemma handed_overI:
  assumes "subseq [NsEv (ListAll (ready_selector E (pool_of res)) (Inr items)),
      PoolEv (Get (cluster_key (pool_of res)) (Inr pool))] h"
    and "offered (pool_of res) items n" and "env_verified pool n h" and "reserved_in n res tr"
  shows "handed_over E res n (h @ tr)"
proof -
  from assms(4) obtain ns a ns' where ns: "mAnnotations ns = Some a"
    "subseq [NsEv (Get (cluster_key n) (Inr ns)), NsEv (Update (reserved_object res a ns) (Inr ns'))] tr"
    "\<forall>rn \<in> set (role_names ns'). bound ns' rn tr"
    by (auto simp: reserved_in_def)
  from subseq_later [OF assms(1) ns(2)] have "subseq [NsEv (ListAll (ready_selector E (pool_of res)) (Inr items)),
      PoolEv (Get (cluster_key (pool_of res)) (Inr pool)), NsEv (Get (cluster_key n) (Inr ns)),
      NsEv (Update (reserved_object res a ns) (Inr ns'))] (h @ tr)" by simp
  moreover have "env_verified pool n (h @ tr)"
    using assms(3) by (auto simp: env_verified_def)
  moreover have "\<forall>rn \<in> set (role_names ns'). bound ns' rn (h @ tr)"
    using ns(3) by (auto intro: bound_mono)
  ultimately show ?thesis
    unfolding handed_over_def using assms(2) ns(1) by blast
qed

lemma wp_verify_env:
  "wp (if psClowdEnvironment (poolSpec pool) \<noteq> None then verifyClowdEnvForReadyNs E n
       else State_Monad.return None)
    (\<lambda>v w'. \<exists>tr. log w' = log w @ tr \<and> active w' = active w \<and>
      (v = None \<longrightarrow> env_verified pool n tr)) w"
  unfolding verifyClowdEnvForReadyNs_def GetClowdEnv_def
  by (intro wp_intros wp_bind [THEN iffD2] wp_k_call)
    (auto simp: env_verified_def split: sum.splits)

text \<open>The condition on the status writes of a reconciliation.\<close>

definition may_activate :: "'s env \<Rightarrow> key \<Rightarrow> event list \<Rightarrow> reservation \<Rightarrow> bool" where
  "may_activate E req h x \<longleftrightarrow> (\<exists>res0. ResEv (Get req (Inr res0)) \<in> set h \<and>
     (state_of res0 = ''active'' \<or> (\<exists>n expirationTS.
        x = active_status n expirationTS (default_pool res0) \<and>
        handed_over E (default_pool res0) n h)))"

definition activation_guard :: "'s env \<Rightarrow> key \<Rightarrow> event list \<Rightarrow> event \<Rightarrow> bool" where
  "activation_guard E req h e \<longleftrightarrow>
     (\<forall>x r. e = ResEv (StatusUpdate x r) \<longrightarrow> state_of x = ''active'' \<longrightarrow> may_activate E req h x)"

lemma activation_guard_other [simp]:
  "res_quiet e \<Longrightarrow> activation_guard E req h e"
  "activation_guard E req h (ResEv (Delete y d))"
  "activation_guard E req h (ResEv (Update y u))"
  "activation_guard E req h (MetricEv m)" "activation_guard E req h (NowEv t)"
  "activation_guard E req h (PoolEv a)" "activation_guard E req h (ResEv (Get k g))"
  by (auto simp: activation_guard_def res_quiet_def)

lemma default_pool_state [simp]: "state_of (default_pool res) = state_of res"
  by (simp add: default_pool_def)

lemma follows_ensure_finalizer: "follows (activation_guard E req) (ensure_finalizer E res) w"
  unfolding ensure_finalizer_def by (intro follows_intros) simp_all

lemma follows_activate_reservation:
  assumes "ResEv (Get req (Inr res0)) \<in> set (log w)"
    and "handed_over E (default_pool res0) n (log w)"
  shows "follows (activation_guard E req)
    (activate_reservation E n expirationTS (default_pool res0)) w"
proof -
  have "activation_guard E req (log w)
      (ResEv (StatusUpdate (active_status n expirationTS (default_pool res0)) r))" for r
    using assms unfolding activation_guard_def may_activate_def by blast
  then show ?thesis
    unfolding activate_reservation_def
    by (intro follows_intros follows_ensure_finalizer) auto
qed

lemma follows_quiet:
  "emits res_quiet m \<Longrightarrow> follows (activation_guard E req) m w"
  by (erule emits_follows) simp

lemma follows_take_namespace:
  assumes lib: "lib_ok E" and got: "ResEv (Get req (Inr res0)) \<in> set (log w)"
    and listed: "NsEv (ListAll (ready_selector E (pool_of (default_pool res0))) (Inr items)) \<in> set (log w)"
    and n: "offered (pool_of (default_pool res0)) items n"
  shows "follows (activation_guard E req) (take_namespace E n expirationTS (default_pool res0)) w"
proof -
  let ?res = "default_pool res0"
  have handed: "handed_over E ?res n (log w @ PoolEv (Get (cluster_key (pool_of ?res)) (Inr pool)) # tr @ tr')"
    if "env_verified pool n tr" "reserved_in n ?res tr'" for pool tr tr'
  proof -
    have "subseq ([NsEv (ListAll (ready_selector E (pool_of ?res)) (Inr items))] @
        [PoolEv (Get (cluster_key (pool_of ?res)) (Inr pool))])
        (log w @ PoolEv (Get (cluster_key (pool_of ?res)) (Inr pool)) # tr)"
      using listed by (intro subseq_later) (simp_all add: subseq_singleton_left)
    moreover have "env_verified pool n (log w @ PoolEv (Get (cluster_key (pool_of ?res)) (Inr pool)) # tr)"
      using that(1) by (auto simp: env_verified_def)
    ultimately show ?thesis
      using handed_overI [OF _ n _ that(2), where h = "log w @ _ # tr"] by simp
  qed
  have quiet: "follows (activation_guard E req) (reserveNamespace E n ?res) w1"
    "follows (activation_guard E req) (if psClowdEnvironment (poolSpec pool) \<noteq> None
       then verifyClowdEnvForReadyNs E n else State_Monad.return None) w1"
    "follows (activation_guard E req) (UpdateAnnotations E n a) w1" for pool a w1
    by (intro follows_cases follows_quiet quiet_res.emits_reserveNamespace
        quiet_res.emits_verifyClowdEnvForReadyNs quiet_res.emits_UpdateAnnotations [OF lib])+
  show ?thesis
    unfolding take_namespace_def
    by (intro follows_bind_wp [OF follows_k_call wp_k_call]
        follows_bind_wp [OF quiet(2) wp_mono [OF wp_verify_env]]
        follows_bind_wp [OF quiet(1) wp_mono [OF wp_reserveNamespace [OF lib]]]
        follows_bind [OF quiet(3)] follows_cases)
      (auto simp: got intro!: follows_activate_reservation handed [simplified])
qed

lemma follows_reconcile_default:
  assumes lib: "lib_ok E" and got: "ResEv (Get req (Inr res0)) \<in> set (log w)"
    and "state_of res0 \<noteq> ''active''"
  shows "follows (activation_guard E req) (reconcile_default E (default_pool res0)) w"
proof -
  let ?res = "default_pool res0"
  have first: "offered p items (mName ready)"
    if "concat (map (\<lambda>ns. if offers p ns then replicate (pool_owners ns) ns else []) items) = ready # rest"
    for p items ready rest
  proof -
    from that have "ready \<in> set (concat (map (\<lambda>ns. if offers p ns
        then replicate (pool_owners ns) ns else []) items))" by simp
    then show ?thesis
      by (auto simp: offered_def pool_owners_def filter_empty_conv split: if_splits)
  qed
  have quiet: "follows (activation_guard E req) (getExpirationTime E ?res) w1"
    "follows (activation_guard E req) (GetReadyNamespaces E p) w1" for p w1
    by (intro follows_quiet quiet_res.emits_getExpirationTime quiet_res.emits_GetReadyNamespaces)+
  have status: "activation_guard E req h (ResEv (StatusUpdate (?res\<lparr>resStatus := (resStatus ?res)
      \<lparr>rsState := ''waiting'', rsExpiration := t\<rparr>\<rparr>) r))" for h t r
    by (simp add: activation_guard_def)
  show ?thesis
    unfolding reconcile_default_def
    by (intro follows_bind_wp [OF quiet(1) wp_emits [OF quiet_res.emits_getExpirationTime]]
        follows_bind_wp [OF quiet(2) wp_GetReadyNamespaces] follows_cases)
      (auto simp: got status intro!: follows_intros intro: follows_take_namespace [OF lib] first)
qed

lemma follows_reconcile_waiting:
  assumes lib: "lib_ok E" and got: "ResEv (Get req (Inr res0)) \<in> set (log w)"
    and "state_of res0 \<noteq> ''active''"
  shows "follows (activation_guard E req) (reconcile_waiting E (default_pool res0)) w"
proof -
  have quiet: "follows (activation_guard E req) (getExpirationTime E res) w1" for res w1
    by (intro follows_quiet quiet_res.emits_getExpirationTime)
  show ?thesis
    unfolding reconcile_waiting_def namespaceIsExpired_def
    by (intro follows_bind_wp [OF quiet wp_emits [OF quiet_res.emits_getExpirationTime]]
        follows_bind_wp wp_bind [THEN iffD2] wp_k_call follows_cases)
      (auto intro!: follows_intros intro: follows_reconcile_default [OF lib _ assms(3)] simp: got)
qed

lemma follows_reconcile_active:
  assumes "ResEv (Get req (Inr res0)) \<in> set (log w)" and "state_of res0 = ''active''"
  shows "follows (activation_guard E req) (reconcile_active E res) w"
proof -
  have "activation_guard E req (log w @ tr) e" for tr e
    using assms by (auto simp: activation_guard_def may_activate_def)
  then show ?thesis
    by (rule follows_monotone [where \<Phi> = "\<lambda>_. True", rotated])
      (auto simp: reconcile_active_def ensure_finalizer_def getExpirationTime_def
        intro!: emits_intros)
qed

text \<open>No write of an active status.\<close>

fun activates :: "event \<Rightarrow> bool" where
  "activates (ResEv (StatusUpdate x r)) \<longleftrightarrow> state_of x = ''active''"
| "activates _ \<longleftrightarrow> False"

definition not_activating :: "event \<Rightarrow> bool" where
  "not_activating e \<longleftrightarrow> \<not> activates e"

lemma read_not_activating: "is_read e \<Longrightarrow> \<not> activates e"
  by (cases e rule: activates.cases) simp_all

interpretation idle: cleanup_policy not_activating
  by unfold_locales (simp_all add: not_activating_def read_not_activating)

lemma follows_handleCAPICleanup: "follows (activation_guard E req) (handleCAPICleanup E res) w"
  by (rule emits_follows [OF idle.emits_handleCAPICleanup])
    (auto simp: activation_guard_def not_activating_def)

lemma follows_Reservation_Reconcile:
  assumes "lib_ok E"
  shows "follows (activation_guard E req) (Reservation_Reconcile E req) w"
  unfolding Reservation_Reconcile_def Let_def
  by (intro follows_bind_wp [OF follows_k_call wp_k_call] follows_cases)
   (auto intro!: follows_intros follows_reconcile_active follows_reconcile_waiting [OF assms]
      follows_reconcile_default [OF assms] follows_handleCAPICleanup)

section \<open>Properties\<close>

text \<open>
  C1. A reservation becomes active only after a complete handover: whenever a reconciliation
  writes a status with the state active, it either read the reservation as active already, or
  it listed the named namespace as ready in the reservation's pool, read the pool (and found
  the ClowdEnvironment ready if the pool has one), read the namespace, wrote it back as owned
  by the reservation and reserved, and created its role bindings, in this order, every one of
  these calls having succeeded.
\<close>

theorem activation_needs_handover:
  assumes "lib_ok E" and "state_of x = ''active''"
    and "events (Reservation_Reconcile E req) w = pre @ ResEv (StatusUpdate x r) # post"
  shows "\<exists>res0. ResEv (Get req (Inr res0)) \<in> set pre \<and>
    (state_of res0 = ''active'' \<or> (\<exists>n expirationTS.
       x = active_status n expirationTS (default_pool res0) \<and>
       handed_over E (default_pool res0) n pre))"
  using follows_events [OF follows_Reservation_Reconcile [OF assms(1)] assms(3)] assms(2)
  by (simp add: activation_guard_def may_activate_def)

definition handover_world :: "sample world" where
  "handover_world = sample_world (empty_sample\<lparr>sm_ns := [(''n'', ready_ns)],
     sm_pools := [(''p'', sample_pool ''p'' None)],
     sm_res := [(''r'', (sample_reservation '''')\<lparr>resSpec := (resSpec (sample_reservation ''''))
        \<lparr>rsPool := ''p''\<rparr>\<rparr>)]\<rparr>)"

definition handover_events :: "event list" where
  "handover_events = events (Reservation_Reconcile sample_env ('''', ''r'')) handover_world"

fun activates_for :: "string \<Rightarrow> event \<Rightarrow> bool" where
  "activates_for n (ResEv (StatusUpdate x r)) \<longleftrightarrow>
     state_of x = ''active'' \<and> rsNamespace (resStatus x) = n"
| "activates_for n _ \<longleftrightarrow> False"

lemma handover_run:
  "\<exists>pre x r post. handover_events = pre @ ResEv (StatusUpdate x r) # post \<and>
     state_of x = ''active'' \<and> rsNamespace (resStatus x) = ''n''"
proof -
  have "7 < length handover_events \<and> activates_for ''n'' (handover_events ! 7)"
    unfolding handover_events_def by code_simp
  then show ?thesis
    using id_take_nth_drop [of 7 handover_events] by (fastforce elim!: activates_for.elims)
qed

theorem activation_needs_handover_witness:
  "\<exists>pre x. (\<exists>r post. handover_events = pre @ ResEv (StatusUpdate x r) # post) \<and>
    rsNamespace (resStatus x) = ''n'' \<and> (\<exists>res0. ResEv (Get ('''', ''r'') (Inr res0)) \<in> set pre \<and>
    (state_of res0 = ''active'' \<or> (\<exists>n expirationTS.
       x = active_status n expirationTS (default_pool res0) \<and>
       handed_over sample_env (default_pool res0) n pre)))"
proof -
  from handover_run obtain pre x r post where
    evs: "handover_events = pre @ ResEv (StatusUpdate x r) # post"
    and x: "state_of x = ''active''" "rsNamespace (resStatus x) = ''n''" by blast
  from activation_needs_handover [OF sample_lib_ok x(1) evs [unfolded handover_events_def]] x(2) evs
  show ?thesis by blast
qed

end
