(* ===== verification/Reservation_Cleanup.thy ===== *)
theory Reservation_Cleanup
  imports Reservation_Calls
begin

text \<open>
  The cleanup of a deleted reservation, \<^verbatim>\<open>handleCAPICleanup\<close>: when the finalizer is let go, and
  what a run without an error has achieved.
\<close>

section \<open>Letting the finalizer go\<close>

text \<open>The last listing of the clusters of \<open>n\<close> was empty, or Cluster API is not installed.\<close>

definition drained :: "string \<Rightarrow> event list \<Rightarrow> bool" where
  "drained n h \<longleftrightarrow> ClusterEv (ListAll (InNamespace n) (Inr [])) \<in> set h \<or>
     (\<exists>err. IsNoMatchError err \<and> ClusterEv (ListAll (InNamespace n) (Inl err)) \<in> set h)"

lemma drain_report_drained: "drain_report n False tr \<Longrightarrow> drained n tr"
  by (auto simp: drain_report_def drained_def)

lemma drained_mono: "drained n h \<Longrightarrow> set h \<subseteq> set h' \<Longrightarrow> drained n h'"
  by (auto simp: drained_def)

definition may_let_go :: "key \<Rightarrow> event list \<Rightarrow> bool" where
  "may_let_go req h \<longleftrightarrow> (\<exists>res0. ResEv (Get req (Inr res0)) \<in> set h \<and> \<not> deletion_is_zero res0 \<and>
     (rsNamespace (resStatus res0) = '''' \<or> drained (rsNamespace (resStatus res0)) h))"

definition let_go_guard :: "key \<Rightarrow> event list \<Rightarrow> event \<Rightarrow> bool" where
  "let_go_guard req h e \<longleftrightarrow> (\<forall>x r. e = ResEv (Update x r) \<longrightarrow>
     capiCleanupFinalizer \<in> set (mFinalizers x) \<or> may_let_go req h)"

definition keeps_finalizer :: "event \<Rightarrow> bool" where
  "keeps_finalizer e \<longleftrightarrow>
     (\<forall>x r. e = ResEv (Update x r) \<longrightarrow> capiCleanupFinalizer \<in> set (mFinalizers x))"

lemma keeps_finalizer_other [simp]:
  "is_read e \<Longrightarrow> keeps_finalizer e" "capi_ok e \<Longrightarrow> keeps_finalizer e"
  "keeps_finalizer (ResEv (StatusUpdate x r))" "keeps_finalizer (ResEv (Delete x d))"
  "keeps_finalizer (NsEv na)" "keeps_finalizer (SecretEv sa)" "keeps_finalizer (RoleBindingEv ba)"
  by (auto simp: keeps_finalizer_def capi_ok_def)

interpretation holding: live_policy keeps_finalizer
  by unfold_locales (simp_all, simp add: keeps_finalizer_def)

lemma keeps_let_go [simp]: "keeps_finalizer e \<Longrightarrow> let_go_guard req h e"
  by (auto simp: keeps_finalizer_def let_go_guard_def)

lemma follows_drain_and_release:
  assumes "ResEv (Get req (Inr res0)) \<in> set (log w)" and "\<not> deletion_is_zero res0"
  shows "follows (let_go_guard req) (drain_and_release E (rsNamespace (resStatus res0)) res) w"
proof -
  let ?n = "rsNamespace (resStatus res0)"
  have quiet: "follows (let_go_guard req) (DeleteCAPIResources E ?n) w1"
    "follows (let_go_guard req) (RemoveStuckROSAMachinePoolFinalizers E ?n) w1" for w1
    by (rule emits_follows [where \<Phi> = capi_ok]; simp add: capi.emits_DeleteCAPIResources
        capi.emits_RemoveStuckROSAMachinePoolFinalizers)+
  have head: "emits is_read (case mDeletionTimestamp res of
      None \<Rightarrow> State_Monad.return ()
    | Some t \<Rightarrow> do {
        now \<leftarrow> time_Now E;
        emit_metric (With capiCleanupDurationMetrics
          [(''namespace'', ?n), (''reservation'', mName res)] (SetTo (Seconds (time_Sub now t))))
      })" by (intro emits_intros) simp_all
  have go: "let_go_guard req (log w @ tr @ tr' @ tr'') e"
    if "drain_report ?n False tr'" for tr tr' tr'' e
  proof -
    have "drained ?n (log w @ tr @ tr' @ tr'')"
      by (rule drained_mono [OF drain_report_drained [OF that]]) auto
    with assms show ?thesis
      unfolding let_go_guard_def may_let_go_def by auto
  qed
  show ?thesis
    unfolding drain_and_release_def
    by (intro follows_bind_wp [OF emits_follows [OF head] wp_emits [OF head]]
        follows_bind_wp [OF quiet(1) wp_mono [OF wp_DeleteCAPIResources]]
        follows_bind_wp [OF quiet(2) wp_emits
          [OF capi.emits_RemoveStuckROSAMachinePoolFinalizers]]
        follows_bind_wp [OF follows_k_call wp_k_call] follows_cases)
      (auto intro: go)
qed

lemma follows_handleCAPICleanup_let_go:
  assumes "ResEv (Get req (Inr res0)) \<in> set (log w)" and "\<not> deletion_is_zero res0"
  shows "follows (let_go_guard req) (handleCAPICleanup E res0) w"
proof -
  have "let_go_guard req (log w) (ResEv (Update (drop_finalizer E res0) r))"
    if "rsNamespace (resStatus res0) = ''''" for r
    using assms that unfolding let_go_guard_def may_let_go_def by blast
  then show ?thesis
    unfolding handleCAPICleanup_def Let_def
    by (intro follows_intros follows_drain_and_release) (auto simp: assms split: if_splits)
qed

lemma follows_Reservation_Reconcile_let_go:
  assumes lib: "lib_ok E"
  shows "follows (let_go_guard req) (Reservation_Reconcile E req) w"
  unfolding Reservation_Reconcile_def Let_def
  by (intro follows_bind_wp [OF follows_k_call wp_k_call] follows_bind [OF follows_handleCAPICleanup_let_go]
      follows_cases emits_follows [OF holding.emits_reconcile_active [OF lib]]
      emits_follows [OF holding.emits_reconcile_waiting [OF lib]]
      emits_follows [OF holding.emits_reconcile_default [OF lib]]) simp_all

section \<open>What a cleanup has achieved\<close>

definition finalizer_gone :: "event list \<Rightarrow> bool" where
  "finalizer_gone h \<longleftrightarrow> (\<exists>h0 x r. h = h0 @ [ResEv (Update x r)] \<and>
     capiCleanupFinalizer \<notin> set (mFinalizers x) \<and>
     ((\<exists>y. r = Inr y) \<or> (\<exists>err. r = Inl err \<and> IsNotFound err)))"

definition cleanup_outcome :: "string \<Rightarrow> event list \<Rightarrow> reconcile_result \<Rightarrow> bool" where
  "cleanup_outcome n tr r \<longleftrightarrow> (case r of
       (_, Some err) \<Rightarrow> True
     | (rq, None) \<Rightarrow>
         rq = \<lparr>Requeue = False, RequeueAfter = 10 * Second\<rparr> \<and>
           (\<exists>items. items \<noteq> [] \<and> ClusterEv (ListAll (InNamespace n) (Inr items)) \<in> set tr) \<or>
         rq = no_requeue \<and> finalizer_gone tr)"

lemma drop_finalizer_gone: "lib_ok E \<Longrightarrow> capiCleanupFinalizer \<notin> set (mFinalizers (drop_finalizer E res))"
  by (simp add: drop_finalizer_def lib_okD)

lemma wp_drain_and_release:
  assumes "lib_ok E"
  shows "wp (drain_and_release E n res) (\<lambda>r w'. \<exists>tr. log w' = log w @ tr \<and>
    cleanup_outcome n tr r) w"
proof -
  have "emits is_read (case mDeletionTimestamp res of
      None \<Rightarrow> State_Monad.return ()
    | Some t \<Rightarrow> do {
        now \<leftarrow> time_Now E;
        emit_metric (With capiCleanupDurationMetrics
          [(''namespace'', n), (''reservation'', mName res)] (SetTo (Seconds (time_Sub now t))))
      })" by (intro emits_intros) simp_all
  note head = wp_emits [OF this]
  note gone = drop_finalizer_gone [OF assms, of res]
  show ?thesis
    unfolding drain_and_release_def
    by (intro wp_bind [THEN iffD2] head wp_intros wp_mono [OF wp_DeleteCAPIResources]
        wp_emits [OF capi.emits_RemoveStuckROSAMachinePoolFinalizers] wp_k_call)
      (auto simp: cleanup_outcome_def finalizer_gone_def drain_report_def gone split: sum.split)
qed

lemma wp_handleCAPICleanup:
  assumes "lib_ok E" and "capiCleanupFinalizer \<in> set (mFinalizers res)"
  shows "wp (handleCAPICleanup E res) (\<lambda>r w'. \<exists>tr. log w' = log w @ tr \<and>
    cleanup_outcome (rsNamespace (resStatus res)) tr r) w"
proof -
  have later: "cleanup_outcome n (e # tr) r" if "cleanup_outcome n tr r" for n e tr r
    using that by (auto simp: cleanup_outcome_def finalizer_gone_def split: prod.splits option.splits)
  show ?thesis
    unfolding handleCAPICleanup_def Let_def
    by (intro wp_bind [THEN iffD2] wp_intros wp_k_call wp_mono [OF wp_drain_and_release [OF assms(1)]])
      (auto simp: assms(2) lib_okD [OF assms(1)] cleanup_outcome_def [of _ "[_]"] finalizer_gone_def
        drop_finalizer_gone [OF assms(1)] wp_drain_and_release [OF assms(1)]
        intro: later split: sum.split)
qed

section \<open>Properties\<close>

text \<open>
  C6. The reservation controller takes its finalizer off a reservation only when it read the
  reservation as being deleted and no Cluster is left in its namespace: the reservation has no
  namespace, or the clusters of the namespace were listed and there were none (or Cluster API
  is not installed). Every other update it sends holds the finalizer.
\<close>

theorem finalizer_dropped_only_when_drained:
  assumes "lib_ok E" and "events (Reservation_Reconcile E req) w = pre @ ResEv (Update x r) # post"
    and "capiCleanupFinalizer \<notin> set (mFinalizers x)"
  shows "\<exists>res0. ResEv (Get req (Inr res0)) \<in> set pre \<and> \<not> deletion_is_zero res0 \<and>
    (rsNamespace (resStatus res0) = '''' \<or> drained (rsNamespace (resStatus res0)) pre)"
  using follows_events [OF follows_Reservation_Reconcile_let_go [OF assms(1)] assms(2)] assms(3)
  by (auto simp: let_go_guard_def may_let_go_def)

text \<open>
  C23. The cleanup of a deleted reservation that holds the finalizer never stops silently: a run
  without an error either saw clusters in the namespace and asks to be called again after ten
  seconds, or its last call took the finalizer off (or found the reservation gone).
\<close>

theorem cleanup_requeues_or_lets_go:
  assumes "lib_ok E" and "capiCleanupFinalizer \<in> set (mFinalizers res)"
    and "run_state (handleCAPICleanup E res) w = ((rq, None), w')"
  shows "\<exists>tr. log w' = log w @ tr \<and>
    (rq = \<lparr>Requeue = False, RequeueAfter = 10 * Second\<rparr> \<and>
       (\<exists>items. items \<noteq> [] \<and>
         ClusterEv (ListAll (InNamespace (rsNamespace (resStatus res))) (Inr items)) \<in> set tr) \<or>
     rq = no_requeue \<and> (\<exists>h x r. tr = h @ [ResEv (Update x r)] \<and>
       capiCleanupFinalizer \<notin> set (mFinalizers x) \<and>
       ((\<exists>y. r = Inr y) \<or> (\<exists>err. r = Inl err \<and> IsNotFound err))))"
  using wpD [OF wp_handleCAPICleanup [OF assms(1,2)] assms(3)]
  by (simp add: cleanup_outcome_def finalizer_gone_def)

definition deleted_sample :: "(string \<times> cluster) list \<Rightarrow> sample world" where
  "deleted_sample cls = sample_world (drain_sample\<lparr>sm_clusters := cls,
     sm_res := [(''r'', (sample_reservation '''')\<lparr>mDeletionTimestamp := Some 5,
       mFinalizers := [capiCleanupFinalizer], resStatus := \<lparr>rsExpiration = 7,
       rsState = ''active'', rsNamespace = ''ns'', rsStatusPool = ''p''\<rparr>\<rparr>)]\<rparr>)"

fun lets_go :: "event \<Rightarrow> bool" where
  "lets_go (ResEv (Update x r)) \<longleftrightarrow> capiCleanupFinalizer \<notin> set (mFinalizers x)"
| "lets_go _ \<longleftrightarrow> False"

theorem finalizer_dropped_only_when_drained_witness:
  "\<exists>pre. (\<exists>x r post. events (Reservation_Reconcile sample_env ('''', ''r'')) (deleted_sample []) =
       pre @ ResEv (Update x r) # post) \<and>
     (\<exists>res0. ResEv (Get ('''', ''r'') (Inr res0)) \<in> set pre \<and> \<not> deletion_is_zero res0 \<and>
       (rsNamespace (resStatus res0) = '''' \<or> drained (rsNamespace (resStatus res0)) pre))"
proof -
  define evs where "evs = events (Reservation_Reconcile sample_env ('''', ''r'')) (deleted_sample [])"
  have "10 < length evs \<and> lets_go (evs ! 10)"
    unfolding evs_def by code_simp
  then obtain pre x r post where evs: "evs = pre @ ResEv (Update x r) # post"
    and x: "capiCleanupFinalizer \<notin> set (mFinalizers x)"
    using id_take_nth_drop [of 10 evs] by (fastforce elim!: lets_go.elims)
  from finalizer_dropped_only_when_drained [OF sample_lib_ok evs [unfolded evs_def] x] evs
  show ?thesis unfolding evs_def by blast
qed

definition deleted_reservation :: reservation where
  "deleted_reservation = snd (hd (sm_res (srv (deleted_sample []))))"

theorem cleanup_requeues_or_lets_go_witness:
  "\<exists>tr items. items \<noteq> [] \<and> ClusterEv (ListAll (InNamespace ''ns'') (Inr items)) \<in> set tr \<and>
     log (snd (run_state (handleCAPICleanup sample_env deleted_reservation)
       (deleted_sample [(''c'', sample_object ''c'')]))) = tr"
proof -
  let ?w = "deleted_sample [(''c'', sample_object ''c'')]"
  have "fst (run_state (handleCAPICleanup sample_env deleted_reservation) ?w) =
      (\<lparr>Requeue = False, RequeueAfter = 10 * Second\<rparr>, None)"
    by code_simp
  then obtain w' where run: "run_state (handleCAPICleanup sample_env deleted_reservation) ?w =
      ((\<lparr>Requeue = False, RequeueAfter = 10 * Second\<rparr>, None), w')"
    by (metis prod.collapse)
  have fin: "capiCleanupFinalizer \<in> set (mFinalizers deleted_reservation)"
    and ns: "rsNamespace (resStatus deleted_reservation) = ''ns''"
    and start: "log ?w = []"
    by (simp_all add: deleted_reservation_def deleted_sample_def sample_world_def)
  have "(\<lparr>Requeue = False, RequeueAfter = 10 * Second\<rparr> :: ctrl_result) \<noteq> no_requeue"
    by (simp add: no_requeue_def Second_def)
  with cleanup_requeues_or_lets_go [OF sample_lib_ok fin run] show ?thesis
    by (auto simp: run ns start)
qed

end
