(* ===== verification/Reservation_Lifecycle.thy ===== *)
theory Reservation_Lifecycle
  imports Reservation_Handover Reservation_Cleanup
begin

text \<open>
  The states of a reservation as a step relation, the proof that the status writes of the
  controller are steps of it, and what follows for the states a reservation can have.
\<close>

section \<open>The step relation\<close>

text \<open>The flag says whether the reservation is being deleted.\<close>

inductive lifecycle :: "bool \<Rightarrow> string \<Rightarrow> string \<Rightarrow> bool" where
  wait: "lifecycle False '''' ''waiting''"
| activate: "s \<noteq> ''active'' \<Longrightarrow> lifecycle False s ''active''"
| refresh: "lifecycle False s s"
| drain: "s \<noteq> ''deleting'' \<Longrightarrow> lifecycle True s ''deleting''"

code_pred lifecycle .

inductive_cases lifecycle_deletedE: "lifecycle True s t"
inductive_simps lifecycle_to_active: "lifecycle d s ''active''"
inductive_simps lifecycle_to_waiting: "lifecycle d s ''waiting''"
inductive_simps lifecycle_deleted: "lifecycle True s t"

text \<open>The reservation objects the API server has answered with.\<close>

fun answer :: "event \<Rightarrow> reservation option" where
  "answer (ResEv (Get k (Inr y))) = Some y"
| "answer (ResEv (Update x (Inr y))) = Some y"
| "answer (ResEv (StatusUpdate x (Inr y))) = Some y"
| "answer _ = None"

definition answered :: "reservation \<Rightarrow> event list \<Rightarrow> bool" where
  "answered y h \<longleftrightarrow> (\<exists>e \<in> set h. answer e = Some y)"

definition may_write :: "key \<Rightarrow> event list \<Rightarrow> reservation \<Rightarrow> bool" where
  "may_write req h x \<longleftrightarrow> (\<exists>res0 y. ResEv (Get req (Inr res0)) \<in> set h \<and> answered y h \<and>
     lifecycle (\<not> deletion_is_zero res0) (state_of y) (state_of x))"

definition status_guard :: "key \<Rightarrow> event list \<Rightarrow> event \<Rightarrow> bool" where
  "status_guard req h e \<longleftrightarrow> (\<forall>x r. e = ResEv (StatusUpdate x r) \<longrightarrow> may_write req h x)"

lemma status_guard_write [simp]:
  "status_guard req h (ResEv (StatusUpdate x r)) \<longleftrightarrow> may_write req h x"
  by (simp add: status_guard_def)

lemma may_writeI:
  "ResEv (Get req (Inr res0)) \<in> set h \<Longrightarrow> answered y h \<Longrightarrow>
   lifecycle (\<not> deletion_is_zero res0) (state_of y) (state_of x) \<Longrightarrow> may_write req h x"
  unfolding may_write_def by blast

text \<open>What a reconciliation may write, given the state and the deletion mark it read.\<close>

definition writes_from :: "bool \<Rightarrow> string \<Rightarrow> event \<Rightarrow> bool" where
  "writes_from d s e \<longleftrightarrow> (\<forall>x r. e = ResEv (StatusUpdate x r) \<longrightarrow> lifecycle d s (state_of x))"

lemma writes_from_other [simp]:
  "is_read e \<Longrightarrow> writes_from d s e" "writes_from d s (ResEv (Delete x r))"
  "writes_from d s (ResEv (Update x u))" "writes_from d s (NsEv na)"
  "writes_from d s (SecretEv sa)" "writes_from d s (RoleBindingEv ba)"
  "writes_from d s (ClusterEv ca)" "writes_from d s (RosaEv ra)"
  by (auto simp: writes_from_def)

lemma live_writes:
  assumes "s \<noteq> ''active''"
  shows "live_policy (writes_from False s)"
  using assms by unfold_locales (simp_all, simp add: writes_from_def lifecycle.activate)

interpretation deleting: cleanup_policy "writes_from True s" for s
  by unfold_locales simp_all

lemma writes_may_write:
  assumes "ResEv (Get req (Inr res0)) \<in> set h" and "writes_from (\<not> deletion_is_zero res0) (state_of res0) e"
  shows "status_guard req (h @ tr) e"
proof -
  have "answered res0 (h @ tr)"
    using assms(1) unfolding answered_def by (intro bexI [of _ "ResEv (Get req (Inr res0))"]) auto
  with assms show ?thesis
    by (auto simp: status_guard_def may_write_def writes_from_def)
qed

lemma answered_simps [simp]:
  "answered y (h @ tr) \<longleftrightarrow> answered y h \<or> answered y tr"
  "answered y (e # tr) \<longleftrightarrow> answer e = Some y \<or> answered y tr" "\<not> answered y []"
  by (auto simp: answered_def)

lemma answered_read: "ResEv (Get req (Inr res0)) \<in> set h \<Longrightarrow> answered res0 h"
  unfolding answered_def by force

lemma wp_ensure_finalizer:
  "wp (ensure_finalizer E res) (\<lambda>f w'. \<exists>tr. log w' = log w @ tr \<and> active w' = active w \<and>
     (\<forall>y. f = Inr y \<longrightarrow> y = res \<or> answered y tr)) w"
  unfolding ensure_finalizer_def
  by (intro wp_intros wp_k_call) auto

lemma follows_reconcile_active_status:
  assumes read: "ResEv (Get req (Inr res0)) \<in> set (log w)" "deletion_is_zero res0"
    and "state_of res = state_of res0"
  shows "follows (status_guard req) (reconcile_active E res) w"
proof -
  have refresh: "may_write req (log w @ tr @ tr')
      (y\<lparr>resStatus := (resStatus y)\<lparr>rsExpiration := t\<rparr>\<rparr>)"
    if "y = res \<or> answered y tr" for tr tr' y t
  proof -
    from that obtain y' where "state_of y' = state_of y" "answered y' (log w @ tr @ tr')"
      using assms(3) answered_read [OF read(1)] by auto
    with read show ?thesis
      by (auto simp: lifecycle.refresh intro!: may_writeI [of req res0 _ y'])
  qed
  have quiet: "follows (status_guard req) (ensure_finalizer E y) w1"
    "follows (status_guard req) (getExpirationTime E y) w1" for y w1
    by (rule emits_follows [where \<Phi> = "\<lambda>e. \<forall>x r. e \<noteq> ResEv (StatusUpdate x r)"];
      auto simp: ensure_finalizer_def getExpirationTime_def status_guard_def intro!: emits_intros)+
  show ?thesis
    unfolding reconcile_active_def
    by (intro follows_bind_wp [OF quiet(1) wp_mono [OF wp_ensure_finalizer]]
        follows_bind_wp [OF quiet(2) wp_emits [OF quiet_res.emits_getExpirationTime]]
        follows_cases)
      (auto intro!: follows_intros refresh simp: status_guard_def)
qed

lemma follows_writes:
  assumes "ResEv (Get req (Inr res0)) \<in> set (log w)"
    and "emits (writes_from (\<not> deletion_is_zero res0) (state_of res0)) m"
  shows "follows (status_guard req) m w"
  by (rule follows_monotone [OF assms(2)]) (rule writes_may_write [OF assms(1)])

lemma follows_live_status:
  assumes "lib_ok E" and "ResEv (Get req (Inr res0)) \<in> set (log w)"
    and "deletion_is_zero res0" and "state_of res0 \<noteq> ''active''"
  shows "follows (status_guard req) (reconcile_default E (default_pool res0)) w"
    and "follows (status_guard req) (reconcile_waiting E (default_pool res0)) w"
proof -
  have wait: "writes_from False (state_of res0) (ResEv (StatusUpdate x r))"
    if "state_of (default_pool res0) = ''''" "state_of x = ''waiting''" for x r
    using that by (simp add: writes_from_def lifecycle.wait)
  note live = live_writes [OF assms(4)]
  show "follows (status_guard req) (reconcile_default E (default_pool res0)) w"
    using assms(3) live_policy.emits_reconcile_default [OF live assms(1), of "default_pool res0"] wait
    by (intro follows_writes [OF assms(2)]) simp_all
  show "follows (status_guard req) (reconcile_waiting E (default_pool res0)) w"
    using assms(3) live_policy.emits_reconcile_waiting [OF live assms(1), of "default_pool res0"] wait
    by (intro follows_writes [OF assms(2)]) simp_all
qed

lemma follows_handleCAPICleanup_status:
  assumes "ResEv (Get req (Inr res0)) \<in> set (log w)" and "\<not> deletion_is_zero res0"
  shows "follows (status_guard req) (handleCAPICleanup E res0) w"
  using deleting.emits_handleCAPICleanup [of res0 "state_of res0" E] assms
  by (intro follows_writes) (auto simp: writes_from_def lifecycle.drain)

lemma follows_Reservation_Reconcile_status:
  assumes "lib_ok E"
  shows "follows (status_guard req) (Reservation_Reconcile E req) w"
  unfolding Reservation_Reconcile_def Let_def
  by (intro follows_bind_wp [OF follows_k_call wp_k_call] follows_bind [OF follows_handleCAPICleanup_status]
      follows_cases follows_reconcile_active_status follows_live_status [OF assms])
    (auto simp: status_guard_def)

section \<open>The states a reservation goes through\<close>

datatype phase = Pending | Waiting | Active | Deleting

fun phase_index :: "phase \<Rightarrow> nat" where
  "phase_index Pending = 0"
| "phase_index Waiting = 1"
| "phase_index Active = 2"
| "phase_index Deleting = 3"

instantiation phase :: linorder
begin

definition less_eq_phase :: "phase \<Rightarrow> phase \<Rightarrow> bool" where
  "less_eq_phase p q \<longleftrightarrow> phase_index p \<le> phase_index q"

definition less_phase :: "phase \<Rightarrow> phase \<Rightarrow> bool" where
  "less_phase p q \<longleftrightarrow> phase_index p < phase_index q"

instance
proof
  fix p q :: phase
  show "p \<le> q \<Longrightarrow> q \<le> p \<Longrightarrow> p = q"
    by (cases p; cases q) (simp_all add: less_eq_phase_def)
qed (auto simp: less_eq_phase_def less_phase_def)

end

definition phase_of :: "string \<Rightarrow> phase option" where
  "phase_of s = (if s = '''' then Some Pending else if s = ''waiting'' then Some Waiting
     else if s = ''active'' then Some Active else if s = ''deleting'' then Some Deleting
     else None)"

text \<open>
  One reservation from its creation on: the controller writes its state, and at some point it
  is marked as being deleted, which is not undone.
\<close>

inductive lived :: "bool \<Rightarrow> string \<Rightarrow> bool" where
  created: "lived False ''''"
| written: "lived d s \<Longrightarrow> lifecycle d s t \<Longrightarrow> lived d t"
| marked: "lived d s \<Longrightarrow> lived True s"

lemma lived_state:
  "lived d s \<Longrightarrow> s \<in> {'''', ''waiting'', ''active'', ''deleting''} \<and> (s = ''deleting'' \<longrightarrow> d)"
  by (induction rule: lived.induct) (auto elim!: lifecycle.cases)

section \<open>Properties\<close>

text \<open>
  C5. Every status write of a reconciliation is a step of the lifecycle: from the state in
  which the API server answered with the reservation in this run, to waiting if it had none
  and is not deleted, to active if it is not deleted, or to deleting if it is. In particular a
  reservation that is read as being deleted is never written as active or waiting.
\<close>

theorem status_writes_follow_lifecycle:
  assumes "lib_ok E"
    and "events (Reservation_Reconcile E req) w = pre @ ResEv (StatusUpdate x r) # post"
  shows "\<exists>res0 y. ResEv (Get req (Inr res0)) \<in> set pre \<and> answered y pre \<and>
    lifecycle (\<not> deletion_is_zero res0) (state_of y) (state_of x)"
  using follows_events [OF follows_Reservation_Reconcile_status [OF assms(1)] assms(2)]
  by (simp add: may_write_def)

theorem status_writes_follow_lifecycle_witness:
  "\<exists>pre x. (\<exists>r post. handover_events = pre @ ResEv (StatusUpdate x r) # post) \<and>
    state_of x = ''active'' \<and> (\<exists>res0 y. ResEv (Get ('''', ''r'') (Inr res0)) \<in> set pre \<and>
    answered y pre \<and> lifecycle (\<not> deletion_is_zero res0) (state_of y) (state_of x))"
proof -
  from handover_run obtain pre x r post where
    evs: "handover_events = pre @ ResEv (StatusUpdate x r) # post" and x: "state_of x = ''active''"
    by blast
  from status_writes_follow_lifecycle [OF sample_lib_ok evs [unfolded handover_events_def]] x evs
  show ?thesis by blast
qed

text \<open>
  A reservation only moves forward through its states, pending, waiting, active, deleting:
  no sequence of the controller's writes and of the mark of deletion takes it back, so a
  reservation that has been active is never pending or waiting again.
\<close>

theorem lifecycle_moves_forward:
  assumes "lived d s" and "lifecycle d s t"
  shows "\<exists>p q. phase_of s = Some p \<and> phase_of t = Some q \<and> p \<le> q"
  using assms(2) lived_state [OF assms(1)]
  by (cases rule: lifecycle.cases) (auto simp: phase_of_def less_eq_phase_def)

theorem lifecycle_moves_forward_witness:
  "\<exists>p q. phase_of ''waiting'' = Some p \<and> phase_of ''active'' = Some q \<and> p \<le> q"
  by (rule lifecycle_moves_forward [of False]) (auto intro: lived.intros lifecycle.intros)

end
