(* ===== verification/Reservation_Outcomes.thy ===== *)
theory Reservation_Outcomes
  imports Reservation_Lifecycle
begin

text \<open>
  What a reconciliation of a reservation achieves on its branches: the expiration, the table of
  the poller, the role bindings, and the errors.
\<close>

section \<open>Expirations\<close>

text \<open>The expiration \<open>t\<close> of \<open>res\<close>, the clock being read as in \<open>tr\<close>.\<close>

definition expires :: "reservation \<Rightarrow> event list \<Rightarrow> time \<Rightarrow> bool" where
  "expires res tr t \<longleftrightarrow> (\<exists>dur d. rsDuration (resSpec res) = Some dur \<and>
     parseDurationTime dur = Inr d \<and>
     (if d = 0 then NowEv t \<in> set tr else t = mCreationTimestamp res + d))"

lemma expires_mono: "expires res tr t \<Longrightarrow> set tr \<subseteq> set tr' \<Longrightarrow> expires res tr' t"
  by (auto simp: expires_def split: if_splits)

lemma wp_getExpirationTime:
  "wp (getExpirationTime E res) (\<lambda>x w'. \<exists>tr. log w' = log w @ tr \<and> active w' = active w \<and>
     (\<forall>e \<in> set tr. \<exists>t. e = NowEv t) \<and>
     (case x of
        Panicked \<Rightarrow> rsDuration (resSpec res) = None
      | Returned (Inl err) \<Rightarrow>
          (\<exists>dur. rsDuration (resSpec res) = Some dur \<and> parseDurationTime dur = Inl err)
      | Returned (Inr t) \<Rightarrow> expires res tr t)) w"
  unfolding getExpirationTime_def
  by (intro wp_intros wp_bind [THEN iffD2] wp_k_call) (auto simp: expires_def)

section \<open>Role bindings\<close>





section \<open>Counting a reserved namespace\<close>

lemma owned_pairs_split:
  "owned_pairs (xs @ ns # ys) = owned_pairs xs @ map (Pair ns) (mOwnerReferences ns) @ owned_pairs ys"
  by (simp add: owned_pairs_def)

lemma how_many_simps [simp]:
  "how_many P [] = 0" "how_many P (xs @ ys) = how_many P xs + how_many P ys"
  "how_many P (x # xs) = (if P x then 1 else 0) + how_many P xs"
  by (simp_all add: how_many_def)

section \<open>Refreshing an active reservation\<close>

definition refreshed ::
  "reservation \<Rightarrow> (string \<times> time) list \<Rightarrow> event list \<Rightarrow> (string \<times> time) list \<Rightarrow> bool" where
  "refreshed res m tr m' \<longleftrightarrow> (\<exists>y t r. (y = res \<or> answered y tr) \<and> expires y tr t \<and>
     m' = AList.update (mName y) t m \<and>
     ResEv (StatusUpdate (y\<lparr>resStatus := (resStatus y)\<lparr>rsExpiration := t\<rparr>\<rparr>) (Inr r)) \<in> set tr)"

lemma refreshedI:
  assumes "y = res \<or> answered y tr" and "expires y tr' t"
  shows "refreshed res m (tr @ tr' @ ResEv (StatusUpdate
    (y\<lparr>resStatus := (resStatus y)\<lparr>rsExpiration := t\<rparr>\<rparr>) (Inr r)) # tr'') (AList.update (mName y) t m)"
proof -
  have "expires y (tr @ tr' @ ResEv (StatusUpdate
      (y\<lparr>resStatus := (resStatus y)\<lparr>rsExpiration := t\<rparr>\<rparr>) (Inr r)) # tr'') t"
    using assms(2) by (rule expires_mono) auto
  with assms(1) show ?thesis
    unfolding refreshed_def by (intro exI [of _ y] exI [of _ t] exI [of _ r]) auto
qed

lemma wp_reconcile_active:
  "wp (reconcile_active E res) (\<lambda>r w'. \<forall>rq. r = Returned (rq, None) \<longrightarrow> (\<exists>tr.
     log w' = log w @ tr \<and> rq = no_requeue \<and> refreshed res (active w) tr (active w'))) w"
  unfolding reconcile_active_def
  by (intro wp_bind [THEN iffD2] wp_mono [OF wp_ensure_finalizer]
      wp_mono [OF wp_getExpirationTime] wp_active [THEN iffD2] wp_intros wp_k_call)
    (auto intro: refreshedI)

section \<open>How a reconciliation ends\<close>

definition activated :: "reservation \<Rightarrow> event list \<Rightarrow> bool" where
  "activated res tr \<longleftrightarrow> (\<exists>n t y. ResEv (StatusUpdate (active_status n t res) (Inr y)) \<in> set tr)"

text \<open>A run that does not ask to be called again has activated the reservation.\<close>

definition settles :: "reservation \<Rightarrow> event list \<Rightarrow> reconcile_result outcome \<Rightarrow> bool" where
  "settles res tr r \<longleftrightarrow> (\<forall>rq. r = Returned (rq, None) \<longrightarrow> rq = requeue \<or> activated res tr)"

lemma settles_simps [simp]:
  "settles res tr Panicked" "settles res tr (Returned (rq, Some err))"
  "settles res tr (Returned (requeue, e))"
  by (simp_all add: settles_def)

lemma activated_settles:
  "settles res (ResEv (StatusUpdate (active_status n t res) (Inr y)) # tr) r"
  by (auto simp: settles_def activated_def)

lemma settles_append:
  "settles res tr r \<Longrightarrow> settles res (tr' @ tr) r" "settles res tr r \<Longrightarrow> settles res (e # tr) r"
  "settles res tr r \<Longrightarrow> settles res (tr' @ e # tr) r"
  by (auto simp: settles_def activated_def)

lemma wp_activate_reservation:
  "wp (activate_reservation E n t res) (\<lambda>r w'. \<exists>tr. log w' = log w @ tr \<and> settles res tr r) w"
  unfolding activate_reservation_def
  by (intro wp_bind [THEN iffD2] wp_mono [OF wp_ensure_finalizer] wp_active [THEN iffD2]
      wp_intros wp_k_call)
    (auto intro!: activated_settles)

lemma wp_take_namespace:
  assumes "lib_ok E"
  shows "wp (take_namespace E n t res) (\<lambda>r w'. \<exists>tr. log w' = log w @ tr \<and> settles res tr r) w"
  unfolding take_namespace_def
  by (intro wp_bind [THEN iffD2] wp_mono [OF wp_activate_reservation] wp_mono [OF wp_verify_env]
      wp_emits [OF quiet_res.emits_UpdateAnnotations [OF assms]]
      wp_mono [OF wp_reserveNamespace [OF assms]] wp_intros wp_k_call)
    (auto intro!: settles_append split: option.splits)

lemma wp_reconcile_default:
  assumes "lib_ok E"
  shows "wp (reconcile_default E res) (\<lambda>r w'. \<exists>tr. log w' = log w @ tr \<and> settles res tr r) w"
  unfolding reconcile_default_def
  by (intro wp_bind [THEN iffD2] wp_mono [OF wp_take_namespace [OF assms]]
      wp_mono [OF wp_getExpirationTime] wp_GetReadyNamespaces wp_intros wp_k_call)
    (auto intro!: settles_append split: sum.splits)

text \<open>A waiting reservation that has expired is sent a delete.\<close>

definition lapsed :: "reservation \<Rightarrow> event list \<Rightarrow> bool" where
  "lapsed res tr \<longleftrightarrow> (\<exists>now t d. expires res tr t \<and> NowEv now \<in> set tr \<and> t \<le> now \<and>
     ResEv (Delete (default_pool res) d) \<in> set tr)"

lemma expires_default_pool [simp]: "expires (default_pool res) tr t \<longleftrightarrow> expires res tr t"
  by (simp add: expires_def default_pool_def)

lemma lapsedI:
  assumes "expires res tr t" and "t \<le> now"
  shows "lapsed res (tr @ [NowEv now, ResEv (Delete (default_pool res) d)])"
proof -
  have "expires res (tr @ [NowEv now, ResEv (Delete (default_pool res) d)]) t"
    using assms(1) by (rule expires_mono) auto
  with assms(2) show ?thesis
    unfolding lapsed_def by (intro exI [of _ now] exI [of _ t] exI [of _ d]) simp
qed

lemma wp_reconcile_waiting:
  assumes "lib_ok E"
  shows "wp (reconcile_waiting E (default_pool res)) (\<lambda>r w'. \<exists>tr. log w' = log w @ tr \<and>
    (settles (default_pool res) tr r \<or> r = Returned (no_requeue, None) \<and> lapsed res tr)) w"
  unfolding reconcile_waiting_def namespaceIsExpired_def
  by (intro wp_bind [THEN iffD2] wp_mono [OF wp_reconcile_default [OF assms]]
      wp_mono [OF wp_getExpirationTime] wp_return [THEN iffD2] wp_intros wp_k_call)
    (auto simp: time_Sub_sign intro: settles_append lapsedI)

text \<open>The branch of a reservation that is neither deleted nor active.\<close>

lemma wp_Reservation_Reconcile_pending:
  assumes lib: "lib_ok E"
  shows "wp (Reservation_Reconcile E req) (\<lambda>r w'. \<exists>g tr. log w' = log w @ ResEv (Get req g) # tr \<and>
    (\<forall>res0. g = Inr res0 \<longrightarrow> deletion_is_zero res0 \<longrightarrow> state_of res0 \<noteq> ''active'' \<longrightarrow>
       settles (default_pool res0) tr r \<or>
       state_of res0 = ''waiting'' \<and> r = Returned (no_requeue, None) \<and> lapsed res0 tr)) w"
  unfolding Reservation_Reconcile_def Let_def
  by (intro wp_bind [THEN iffD2] wp_k_call wp_intros wp_return [THEN iffD2]
      wp_emits [OF anything_deleted.emits_handleCAPICleanup] wp_mono [OF wp_reconcile_waiting [OF lib]]
      wp_mono [OF wp_reconcile_default [OF lib]]
      wp_emits [OF anything_live.emits_reconcile_active [OF lib]])
    auto

text \<open>The branch of a reservation that is active and not deleted.\<close>

lemma wp_Reservation_Reconcile_refresh:
  assumes lib: "lib_ok E"
  shows "wp (Reservation_Reconcile E req) (\<lambda>r w'. \<exists>g tr. log w' = log w @ ResEv (Get req g) # tr \<and>
    (\<forall>res0 rq. g = Inr res0 \<longrightarrow> deletion_is_zero res0 \<longrightarrow> state_of res0 = ''active'' \<longrightarrow>
       r = Returned (rq, None) \<longrightarrow> refreshed (default_pool res0) (active w) tr (active w'))) w"
proof -
  have active: "wp (reconcile_active E res) (\<lambda>r w'. (\<exists>tr. log w' = log w @ tr) \<and>
      (\<forall>rq. r = Returned (rq, None) \<longrightarrow> (\<exists>tr. log w' = log w @ tr \<and>
         refreshed res (active w) tr (active w')))) w" for res and w :: "'a world"
  proof (rule wpI)
    fix r and w' :: "'a world"
    assume run: "run_state (reconcile_active E res) w = (r, w')"
    obtain tr where "log w' = log w @ tr"
      using emits_log [OF anything_live.emits_reconcile_active [OF lib] run] by blast
    with wpD [OF wp_reconcile_active run] show "(\<exists>tr. log w' = log w @ tr) \<and>
        (\<forall>rq. r = Returned (rq, None) \<longrightarrow> (\<exists>tr. log w' = log w @ tr \<and>
           refreshed res (active w) tr (active w')))" by blast
  qed
  show ?thesis
    unfolding Reservation_Reconcile_def Let_def
    by (intro wp_bind [THEN iffD2] wp_k_call wp_intros wp_return [THEN iffD2]
        wp_emits [OF anything_deleted.emits_handleCAPICleanup] wp_mono [OF wp_reconcile_waiting [OF lib]]
        wp_mono [OF wp_reconcile_default [OF lib]] wp_mono [OF active])
      fastforce+
qed

section \<open>Properties\<close>


text \<open>
  C10. Handing a namespace over moves it from ready to reserved in the pool's status: when a
  listed namespace that is ready and owned by the pool alone is replaced by what
  \<open>reserveNamespace\<close> writes for it, the counted status has one ready less and one reserved
  more, and the namespace is no longer one that \<open>GetReadyNamespaces\<close> offers.
\<close>

theorem handover_moves_count:
  assumes "mOwnerReferences ns = [ow]" and "rUID ow = uid" and "mUID res \<noteq> uid"
    and "gm_lookup (mAnnotations ns) AnnotationEnvStatus = Some EnvStatusReady"
    and "mAnnotations ns = Some a" and "tKind res = ''NamespaceReservation''"
  shows "let before = status_of_counts (count_namespaces_loop uid (xs @ ns # ys) zero_counts);
      after = status_of_counts
        (count_namespaces_loop uid (xs @ reserved_object res a ns # ys) zero_counts)
    in poolReady after = poolReady before - 1 \<and> poolReserved after = poolReserved before + 1 \<and>
      poolCreating after = poolCreating before \<and> pool_owners (reserved_object res a ns) = 0"
proof -
  have "mOwnerReferences (reserved_object res a ns) = [Reservation_MakeOwnerReference res]"
    by (simp add: reserved_object_def)
  with assms show ?thesis
    by (simp add: counts_of_listing listed_status_def owned_pairs_split pool_status_is_def
        reserved_pair_def gm_index_def Reservation_MakeOwnerReference_def pool_owners_def
        KindNamespacePool_def EnvStatusReady_def EnvStatusCreating_def Let_def)
qed

text \<open>
  C30. A reconciliation of an active reservation that succeeds refreshes it: the reservation
  that is written is the one read, or the answer to the update that put the finalizer back;
  its expiration is computed anew from its duration, the accepted status write carries it, and
  the poller's table has exactly this entry changed.
\<close>

theorem active_refresh:
  assumes "lib_ok E" and "run_state (reconcile_active E res) w = (Returned (rq, None), w')"
  shows "\<exists>tr y t r. log w' = log w @ tr \<and> rq = no_requeue \<and> (y = res \<or> answered y tr) \<and>
    expires y tr t \<and> active w' = AList.update (mName y) t (active w) \<and>
    ResEv (StatusUpdate (y\<lparr>resStatus := (resStatus y)\<lparr>rsExpiration := t\<rparr>\<rparr>) (Inr r)) \<in> set tr"
proof -
  from wpD [OF wp_reconcile_active assms(2)] show ?thesis
    unfolding refreshed_def by blast
qed

text \<open>
  A nil duration is not handled: it is dereferenced without a check, so the reconciliation
  of a reservation that has no duration, is not deleted and is not active panics.
\<close>

theorem nil_duration_panics:
  assumes "fst (k_get (res_api E) req (srv w)) = Inr res0" and "deletion_is_zero res0"
    and "state_of res0 \<noteq> ''active''" and "rsDuration (resSpec res0) = None"
  shows "fst (run_state (Reservation_Reconcile E req) w) = Panicked"
proof -
  have "rsDuration (resSpec (default_pool res0)) = None"
    using assms(4) by (simp add: default_pool_def)
  with assms show ?thesis
    by (simp add: Reservation_Reconcile_def reconcile_waiting_def reconcile_default_def
        getExpirationTime_def Let_def)
qed

text \<open>
  C8. How a reconciliation of a pending reservation ends that reports no error: it asks to be
  called again; or this reservation has been made active by an accepted status write; or it was
  waiting, its expiration has passed, and a delete of it has been sent. In the last case the
  answer to the delete is not looked at: a delete that is refused is neither reported nor tried
  again.
\<close>

theorem pending_reservation_settled:
  assumes "lib_ok E" and "run_state (Reservation_Reconcile E req) w = (Returned (rq, None), w')"
    and "log w' = log w @ ResEv (Get req (Inr res0)) # tr"
    and "deletion_is_zero res0" and "state_of res0 \<noteq> ''active''"
  shows "rq = requeue \<or>
    (\<exists>n t y. ResEv (StatusUpdate (active_status n t (default_pool res0)) (Inr y)) \<in> set tr) \<or>
    state_of res0 = ''waiting'' \<and> rq = no_requeue \<and> (\<exists>now t d. expires res0 tr t \<and>
      NowEv now \<in> set tr \<and> t \<le> now \<and> ResEv (Delete (default_pool res0) d) \<in> set tr)"
proof -
  from wpD [OF wp_Reservation_Reconcile_pending [OF assms(1)] assms(2)] assms(3-5)
  have "settles (default_pool res0) tr (Returned (rq, None)) \<or>
      state_of res0 = ''waiting'' \<and> rq = no_requeue \<and> lapsed res0 tr"
    by auto
  then show ?thesis
    unfolding settles_def activated_def lapsed_def by auto
qed

text \<open>
  A duration that cannot be parsed is reported as the error of the reconciliation, without
  asking to be called again; a pending reservation is sent a delete first, which may fail, and
  no namespace is looked for, while a waiting reservation is left as it is.
\<close>

theorem bad_duration_is_reported:
  assumes "fst (k_get (res_api E) req (srv w)) = Inr res0" and "deletion_is_zero res0"
    and "state_of res0 \<noteq> ''active''" and "rsDuration (resSpec res0) = Some dur"
    and "parseDurationTime dur = Inl err"
  shows "fst (run_state (Reservation_Reconcile E req) w) = Returned (no_requeue, Some err) \<and>
    (\<exists>d. log (snd (run_state (Reservation_Reconcile E req) w)) =
       log w @ ResEv (Get req (Inr res0)) #
         (if state_of res0 = ''waiting'' then [] else [ResEv (Delete (default_pool res0) d)]))"
proof -
  have "rsDuration (resSpec (default_pool res0)) = Some dur"
    using assms(4) by (simp add: default_pool_def)
  with assms show ?thesis
    by (simp add: Reservation_Reconcile_def reconcile_waiting_def reconcile_default_def
        getExpirationTime_def Let_def)
qed

section \<open>Witnesses\<close>


definition typed_reservation :: reservation where
  "typed_reservation = (sample_reservation '''')\<lparr>tKind := ''NamespaceReservation''\<rparr>"

definition ready_annotations :: smap where
  "ready_annotations = [AnnotationEnvStatus \<mapsto> EnvStatusReady, AnnotationReserved \<mapsto> ''false'']"

theorem handover_moves_count_witness:
  "poolReserved (status_of_counts (count_namespaces_loop ''uid''
     [reserved_object typed_reservation ready_annotations ready_ns] zero_counts)) =
   poolReserved (status_of_counts (count_namespaces_loop ''uid'' [ready_ns] zero_counts)) + 1"
proof -
  have "mUID typed_reservation \<noteq> ''uid''" "tKind typed_reservation = ''NamespaceReservation''"
    by (simp_all add: typed_reservation_def sample_reservation_def sample_object_def zero_meta_def
        k8sobj.defs)
  moreover have "\<exists>ow. mOwnerReferences ready_ns = [ow] \<and> rUID ow = ''uid''"
    "gm_lookup (mAnnotations ready_ns) AnnotationEnvStatus = Some EnvStatusReady"
    "mAnnotations ready_ns = Some ready_annotations"
    by (simp_all add: ready_ns_def ready_annotations_def AnnotationEnvStatus_def AnnotationReserved_def)
  ultimately show ?thesis
    using handover_moves_count [of ready_ns _ "''uid''" typed_reservation ready_annotations "[]" "[]"]
    by (auto simp: Let_def)
qed

theorem nil_duration_panics_witness:
  "fst (run_state (Reservation_Reconcile sample_env ('''', ''r'')) (sample_world (empty_sample
     \<lparr>sm_res := [(''r'', zero_reservation)]\<rparr>))) = Panicked"
  by (rule nil_duration_panics [of _ _ _ zero_reservation])
    (simp_all add: sample_run zero_reservation_def zero_meta_def k8sobj.defs deletion_is_zero_def)

theorem bad_duration_is_reported_witness:
  "\<exists>err. fst (run_state (Reservation_Reconcile sample_env ('''', ''r'')) (sample_world (empty_sample
     \<lparr>sm_res := [(''r'', zero_reservation\<lparr>resSpec := (resSpec zero_reservation)
        \<lparr>rsDuration := Some ''x''\<rparr>\<rparr>)]\<rparr>))) = Returned (no_requeue, Some err)"
proof -
  let ?res = "zero_reservation\<lparr>resSpec := (resSpec zero_reservation)\<lparr>rsDuration := Some ''x''\<rparr>\<rparr>"
  have "parseDurationTime ''x'' = Inl invalid_duration"
    by code_simp
  from bad_duration_is_reported [OF _ _ _ _ this, of sample_env "('''', ''r'')"
      "sample_world (empty_sample\<lparr>sm_res := [(''r'', ?res)]\<rparr>)" ?res]
  show ?thesis
    by (auto simp: sample_run zero_reservation_def zero_meta_def k8sobj.defs deletion_is_zero_def)
qed

text \<open>An active reservation that has lost its finalizer, and a waiting one that has expired.\<close>

definition stated :: "string \<Rightarrow> reservation" where
  "stated st = (sample_reservation '''')\<lparr>resStatus := \<lparr>rsExpiration = 7, rsState = st,
     rsNamespace = ''n'', rsStatusPool = ''p''\<rparr>\<rparr>"

definition stated_world :: "string \<Rightarrow> sample world" where
  "stated_world st = sample_world (empty_sample\<lparr>sm_clock := 2 * Hour, sm_res := [(''r'', stated st)]\<rparr>)"

theorem active_refresh_witness:
  "\<exists>y t. active (snd (run_state (reconcile_active sample_env (stated ''active''))
     (stated_world ''active''))) = [(mName y, t)] \<and> (\<exists>tr. expires y tr t)"
proof -
  have "fst (run_state (reconcile_active sample_env (stated ''active'')) (stated_world ''active'')) =
      Returned (no_requeue, None)"
    by code_simp
  then obtain w' where run: "run_state (reconcile_active sample_env (stated ''active''))
      (stated_world ''active'') = (Returned (no_requeue, None), w')"
    by (metis prod.collapse)
  have "active (stated_world ''active'') = []"
    by (simp add: stated_world_def sample_world_def)
  with active_refresh [OF sample_lib_ok run] show ?thesis
    unfolding run by auto
qed

lemma parse_one_hour: "parseDurationTime ''1h'' = Inr 3600000000000"
  by code_simp

lemma stated_simps [simp]:
  "state_of (stated st) = st" "rsDuration (resSpec (stated st)) = Some ''1h''"
  "mCreationTimestamp (stated st) = 0" "deletion_is_zero (stated st)" "mName (stated st) = ''r''"
  "default_pool (stated st) = stated st"
  by (simp_all add: stated_def sample_reservation_def sample_object_def zero_meta_def k8sobj.defs
      deletion_is_zero_def default_pool_def)

theorem pending_reservation_settled_witness:
  "\<exists>now t tr d. expires (stated ''waiting'') tr t \<and> t \<le> now \<and>
     ResEv (Delete (stated ''waiting'') d) \<in> set tr"
proof -
  let ?w = "stated_world ''waiting''"
  have "\<exists>w'. run_state (Reservation_Reconcile sample_env ('''', ''r'')) ?w =
      (Returned (no_requeue, None), w') \<and>
      log w' = log ?w @ [ResEv (Get ('''', ''r'') (Inr (stated ''waiting''))),
        NowEv (2 * Hour), ResEv (Delete (stated ''waiting'') None)]"
    by (simp add: Reservation_Reconcile_def reconcile_waiting_def getExpirationTime_def
        namespaceIsExpired_def parse_one_hour stated_world_def sample_run IsZero_def time_Sub_sign
        duration_defs)
  then obtain w' where run: "run_state (Reservation_Reconcile sample_env ('''', ''r'')) ?w =
      (Returned (no_requeue, None), w')" and
    tr: "log w' = log ?w @ ResEv (Get ('''', ''r'') (Inr (stated ''waiting''))) #
        [NowEv (2 * Hour), ResEv (Delete (stated ''waiting'') None)]"
    by auto
  have "no_requeue \<noteq> requeue"
    by (simp add: no_requeue_def requeue_def)
  with pending_reservation_settled [OF sample_lib_ok run tr] show ?thesis
    by force
qed

end
