(* ===== verification/Table_Access.thy ===== *)
theory Table_Access
  imports Reservation_Outcomes
begin

text \<open>
  Who touches the table of active reservations: the helpers leave it alone, and a
  reconciliation of a reservation changes at most one entry.
\<close>

section \<open>Computations that leave the table alone\<close>

definition calm :: "('s world, 'a) state \<Rightarrow> bool" where
  "calm m \<longleftrightarrow> (\<forall>w. active (snd (run_state m w)) = active w)"

named_theorems calm_intros \<open>rules for computations that leave the table alone\<close>

lemma calm_return [calm_intros]: "calm (State_Monad.return x)"
  by (simp add: calm_def)

lemma calm_bind [calm_intros]:
  "calm m \<Longrightarrow> (\<And>x. calm (f x)) \<Longrightarrow> calm (State_Monad.bind m f)"
  by (simp add: calm_def split: prod.splits) (metis snd_conv)

lemma calm_k_call [calm_intros]: "calm (k_call f ev)"
  by (simp add: calm_def)

lemma calm_if [calm_intros]: "calm m \<Longrightarrow> calm n \<Longrightarrow> calm (if b then m else n)"
  by simp

lemma calm_case_sum [calm_intros]:
  "(\<And>e. calm (f e)) \<Longrightarrow> (\<And>y. calm (g y)) \<Longrightarrow> calm (case x of Inl e \<Rightarrow> f e | Inr y \<Rightarrow> g y)"
  by (cases x) simp_all

lemma calm_case_option [calm_intros]:
  "calm f \<Longrightarrow> (\<And>y. calm (g y)) \<Longrightarrow> calm (case x of None \<Rightarrow> f | Some y \<Rightarrow> g y)"
  by (cases x) simp_all

lemma calm_case_prod [calm_intros]: "(\<And>a b. calm (f a b)) \<Longrightarrow> calm (case x of (a, b) \<Rightarrow> f a b)"
  by (cases x) simp

lemma calm_let [calm_intros]: "calm (f x) \<Longrightarrow> calm (let y = x in f y)"
  by simp

lemma calm_retry:
  assumes "retry_law r" and "calm m"
  shows "calm (r m)"
  unfolding calm_def
proof
  fix w :: "'a world"
  have "wp (r m) (\<lambda>_ w'. active w' = active w) w"
    by (rule wp_retry [where I = "\<lambda>w'. active w' = active w", OF assms(1)])
      (use assms(2) in \<open>simp_all add: wp_def calm_def\<close>)
  then show "active (snd (run_state (r m) w)) = active w"
    by (simp add: wp_def)
qed

lemma calm_retries [calm_intros]:
  "lib_ok E \<Longrightarrow> calm m \<Longrightarrow> calm (retry_on_error E m)"
  "lib_ok E \<Longrightarrow> calm m \<Longrightarrow> calm (retry_on_conflict E m)"
  by (blast intro: calm_retry lib_okD)+

lemma wp_calm:
  assumes "calm m" and "emits \<Phi> m"
    and "\<And>r tr w'. log w' = log w @ tr \<Longrightarrow> \<forall>e \<in> set tr. \<Phi> e \<Longrightarrow> active w' = active w \<Longrightarrow> Q r w'"
  shows "wp m Q w"
  by (rule wpI) (metis assms(1,3) calm_def emits_log [OF assms(2)] snd_conv)

section \<open>The helpers\<close>

lemma calm_UpdateAnnotations: "lib_ok E \<Longrightarrow> calm (UpdateAnnotations E n a)"
  unfolding UpdateAnnotations_def GetNamespace_def by (intro calm_intros)

lemma calm_copy_secrets_loop: "calm (copy_secrets_loop E n ow secs sm)"
  by (induction secs arbitrary: sm)
    (auto simp: copy_one_secret_def create_secret_copy_def intro!: calm_intros)

lemma calm_CopySecretsFrom: "calm (CopySecretsFrom E src n ow)"
  unfolding CopySecretsFrom_def by (intro calm_intros calm_copy_secrets_loop)

lemma calm_copyTeamSecrets: "calm (copyTeamSecrets E av ts n)"
  by (induction ts) (auto simp: copySecretToNamespace_def Let_def intro!: calm_intros split: option.split)

lemma calm_copy_reserved_secrets: "calm (copy_reserved_secrets E n res)"
  unfolding copy_reserved_secrets_def CopyReservationSecrets_def Let_def
  by (intro calm_intros calm_CopySecretsFrom calm_copyTeamSecrets)

lemma calm_role_bindings_loop: "calm (role_bindings_loop E ns rns)"
  by (induction rns) (auto intro!: calm_intros)

lemma calm_delete_clusters_loop: "calm (delete_clusters_loop E cs)"
  by (induction cs) (auto intro!: calm_intros)

lemma calm_stuck_pools_loop: "calm (stuck_pools_loop E n ps b)"
  by (induction ps arbitrary: b)
    (auto simp: clusterWaitingForWorkersDeletion_def Let_def intro!: calm_intros)

lemma calm_handleCAPICleanup: "calm (handleCAPICleanup E res)"
  unfolding handleCAPICleanup_def drain_and_release_def DeleteCAPIResources_def
    RemoveStuckROSAMachinePoolFinalizers_def Let_def
  by (intro calm_intros calm_delete_clusters_loop calm_stuck_pools_loop)

lemma calm_case_outcome [calm_intros]:
  "(\<And>y. calm (g y)) \<Longrightarrow> calm f \<Longrightarrow> calm (case x of Returned y \<Rightarrow> g y | Panicked \<Rightarrow> f)"
  by (cases x) simp_all

lemma calm_reserveNamespace: "calm (reserveNamespace E n res)"
  unfolding reserveNamespace_def addRoleBindings_def
  by (intro calm_intros calm_copy_reserved_secrets calm_role_bindings_loop)

lemma calm_getExpirationTime: "calm (getExpirationTime E res)"
  unfolding getExpirationTime_def by (intro calm_intros)

section \<open>The entry a reconciliation writes\<close>

text \<open>
  At most one entry changes: the name of a reservation the API server answered with in this
  run, to its expiration.
\<close>

definition table_step :: "(string \<times> time) list \<Rightarrow> event list \<Rightarrow> (string \<times> time) list \<Rightarrow> bool" where
  "table_step m tr m' \<longleftrightarrow> m' = m \<or>
     (\<exists>y t. answered y tr \<and> expires y tr t \<and> m' = AList.update (mName y) t m)"

lemma table_step_refl [simp]: "table_step m tr m"
  by (simp add: table_step_def)

lemma table_stepI:
  "answered y tr \<Longrightarrow> expires y tr t \<Longrightarrow> table_step m tr (AList.update (mName y) t m)"
  unfolding table_step_def by blast

lemma default_pool_name [simp]: "mName (default_pool res) = mName res"
  by (simp add: default_pool_def)

lemma expires_append:
  "expires y tr t \<Longrightarrow> expires y (tr @ tr') t" "expires y tr t \<Longrightarrow> expires y (tr' @ tr) t"
  "expires y tr t \<Longrightarrow> expires y (e # tr) t"
  by (auto elim!: expires_mono)

text \<open>What an activation of \<open>res\<close> with expiration \<open>t\<close> may leave in the table.\<close>

definition puts :: "reservation \<Rightarrow> time \<Rightarrow> (string \<times> time) list \<Rightarrow> (string \<times> time) list \<Rightarrow> bool" where
  "puts res t m m' \<longleftrightarrow> m' = m \<or> m' = AList.update (mName res) t m"

definition entered ::
  "reservation \<Rightarrow> event list \<Rightarrow> (string \<times> time) list \<Rightarrow> (string \<times> time) list \<Rightarrow> bool" where
  "entered res tr m m' \<longleftrightarrow> m' = m \<or> (\<exists>t. expires res tr t \<and> m' = AList.update (mName res) t m)"

lemma entered_refl [simp]: "entered res tr m m"
  by (simp add: entered_def)

lemma enteredI:
  "puts res t m m' \<Longrightarrow> expires res tr t \<Longrightarrow> entered res (tr @ tr') m m'"
  using expires_append(1) [of res tr t tr'] by (auto simp: puts_def entered_def)

lemma entered_later: "entered res tr m m' \<Longrightarrow> entered res (tr' @ e # tr) m m'"
  unfolding entered_def by (metis expires_append(2,3))

text \<open>The same with the reservation that was read and the answers after it.\<close>

definition rewrote ::
  "reservation \<Rightarrow> event list \<Rightarrow> (string \<times> time) list \<Rightarrow> (string \<times> time) list \<Rightarrow> bool" where
  "rewrote res tr m m' \<longleftrightarrow> m' = m \<or> (\<exists>y t. (y = res \<or> answered y tr) \<and> expires y tr t \<and>
     m' = AList.update (mName y) t m)"

lemma rewrote_refl [simp]: "rewrote res tr m m"
  by (simp add: rewrote_def)

lemma rewroteI:
  assumes "y = res \<or> answered y tr" and "expires y tr' t"
  shows "rewrote res (tr @ tr' @ tr'') m (AList.update (mName y) t m)"
proof -
  have "expires y (tr @ tr' @ tr'') t"
    using assms(2) by (intro expires_append)
  with assms(1) show ?thesis
    unfolding rewrote_def by auto
qed

lemma rewrote_table_step:
  assumes "rewrote res tr m m'"
  shows "table_step m (ResEv (Get req (Inr res)) # tr) m'"
proof -
  have "table_step m (ResEv (Get req (Inr res)) # tr) (AList.update (mName y) t m)"
    if "y = res \<or> answered y tr" "expires y tr t" for y t
    using that(1) expires_append(3) [OF that(2)] by (intro table_stepI) auto
  with assms show ?thesis
    unfolding rewrote_def by auto
qed

lemma entered_rewrote: "entered (default_pool res) tr m m' \<Longrightarrow> rewrote res tr m m'"
  by (auto simp: entered_def rewrote_def)

lemma rewrote_default_pool: "rewrote (default_pool res) tr m m' \<Longrightarrow> rewrote res tr m m'"
  unfolding rewrote_def by (metis default_pool_name expires_default_pool)

lemma wp_activate_table:
  "wp (activate_reservation E n t res) (\<lambda>_ w'. (\<exists>tr. log w' = log w @ tr) \<and>
     puts res t (active w) (active w')) w"
  unfolding activate_reservation_def
  by (intro wp_bind [THEN iffD2] wp_mono [OF wp_ensure_finalizer] wp_active [THEN iffD2]
      wp_intros wp_k_call) (auto simp: puts_def)

lemma wp_take_table:
  assumes "lib_ok E"
  shows "wp (take_namespace E n t res) (\<lambda>_ w'. (\<exists>tr. log w' = log w @ tr) \<and>
    puts res t (active w) (active w')) w"
  unfolding take_namespace_def
  by (intro wp_bind [THEN iffD2] wp_mono [OF wp_activate_table] wp_mono [OF wp_verify_env]
      wp_calm [OF calm_UpdateAnnotations quiet_res.emits_UpdateAnnotations]
      wp_calm [OF calm_reserveNamespace quiet_res.emits_reserveNamespace] wp_intros wp_k_call assms)
    (auto simp: puts_def)

lemma wp_default_table:
  assumes "lib_ok E"
  shows "wp (reconcile_default E res) (\<lambda>_ w'. \<exists>tr. log w' = log w @ tr \<and>
    entered res tr (active w) (active w')) w"
  unfolding reconcile_default_def
  by (intro wp_bind [THEN iffD2] wp_mono [OF wp_take_table [OF assms]]
      wp_mono [OF wp_getExpirationTime] wp_GetReadyNamespaces wp_intros wp_k_call)
    (auto intro: enteredI)

lemma wp_waiting_table:
  assumes "lib_ok E"
  shows "wp (reconcile_waiting E res) (\<lambda>_ w'. \<exists>tr. log w' = log w @ tr \<and>
    entered res tr (active w) (active w')) w"
  unfolding reconcile_waiting_def namespaceIsExpired_def
  by (intro wp_bind [THEN iffD2] wp_mono [OF wp_default_table [OF assms]]
      wp_mono [OF wp_getExpirationTime] wp_return [THEN iffD2] wp_intros wp_k_call)
    (auto intro: entered_later)

lemma wp_active_table:
  "wp (reconcile_active E res) (\<lambda>_ w'. \<exists>tr. log w' = log w @ tr \<and>
    rewrote res tr (active w) (active w')) w"
  unfolding reconcile_active_def
  by (intro wp_bind [THEN iffD2] wp_mono [OF wp_ensure_finalizer]
      wp_mono [OF wp_getExpirationTime] wp_active [THEN iffD2] wp_intros wp_k_call)
    (auto intro: rewroteI)

lemma wp_Reservation_Reconcile_table:
  assumes "lib_ok E"
  shows "wp (Reservation_Reconcile E req) (\<lambda>_ w'. \<exists>tr. log w' = log w @ tr \<and>
    table_step (active w) tr (active w')) w"
  unfolding Reservation_Reconcile_def Let_def
  by (intro wp_bind [THEN iffD2] wp_k_call wp_intros wp_return [THEN iffD2]
      wp_calm [OF calm_handleCAPICleanup anything_deleted.emits_handleCAPICleanup]
      wp_mono [OF wp_waiting_table [OF assms]] wp_mono [OF wp_default_table [OF assms]]
      wp_mono [OF wp_active_table])
    (auto intro: rewrote_table_step entered_rewrote rewrote_default_pool)

end
