(* ===== verification/Reservation_Deletes.thy ===== *)
theory Reservation_Deletes
  imports Table_Access
begin

text \<open>
  Which reservations the reservation controller deletes: a waiting one past its expiration,
  and one whose duration cannot be parsed.
\<close>

definition keeps_reservations :: "event \<Rightarrow> bool" where
  "keeps_reservations e \<longleftrightarrow> (\<forall>x d. e \<noteq> ResEv (Delete x d))"

lemma keeps_reservations_other [simp]:
  "is_read e \<Longrightarrow> keeps_reservations e" "res_quiet e \<Longrightarrow> keeps_reservations e"
  "keeps_reservations (ResEv (Update y u))" "keeps_reservations (ResEv (StatusUpdate y u))"
  "keeps_reservations (NsEv na)" "keeps_reservations (SecretEv sa)"
  "keeps_reservations (RoleBindingEv ba)" "keeps_reservations (ClusterEv ca)"
  "keeps_reservations (RosaEv ra)"
  by (auto simp: keeps_reservations_def res_quiet_def)

interpretation keeping_reservations: handover_policy keeps_reservations
  by unfold_locales simp_all

interpretation keeping_deleted: cleanup_policy keeps_reservations
  by unfold_locales simp_all

definition overdue :: "reservation \<Rightarrow> event list \<Rightarrow> bool" where
  "overdue res h \<longleftrightarrow> (\<exists>t now. expires res h t \<and> NowEv now \<in> set h \<and> expired_at now t)"

definition unparsable :: "reservation \<Rightarrow> bool" where
  "unparsable res \<longleftrightarrow> (\<exists>dur err. rsDuration (resSpec res) = Some dur \<and> parseDurationTime dur = Inl err)"

definition may_delete :: "key \<Rightarrow> event list \<Rightarrow> reservation \<Rightarrow> bool" where
  "may_delete req h x \<longleftrightarrow> (\<exists>res0. ResEv (Get req (Inr res0)) \<in> set h \<and> x = default_pool res0 \<and>
     deletion_is_zero res0 \<and> (state_of res0 = ''waiting'' \<and> overdue res0 h \<or>
       state_of res0 \<notin> {''active'', ''waiting''} \<and> unparsable res0))"

definition delete_guard :: "key \<Rightarrow> event list \<Rightarrow> event \<Rightarrow> bool" where
  "delete_guard req h e \<longleftrightarrow> (\<forall>x d. e = ResEv (Delete x d) \<longrightarrow> may_delete req h x)"

lemma delete_guard_keeps [simp]: "keeps_reservations e \<Longrightarrow> delete_guard req h e"
  by (simp add: keeps_reservations_def delete_guard_def)

lemma delete_guard_delete [simp]:
  "delete_guard req h (ResEv (Delete x d)) \<longleftrightarrow> may_delete req h x"
  by (simp add: delete_guard_def)

lemma follows_keeping: "emits keeps_reservations m \<Longrightarrow> follows (delete_guard req) m w"
  by (erule emits_follows) simp

lemma overdueI:
  "expires res tr t \<Longrightarrow> expired_at now t \<Longrightarrow> overdue res (h @ tr @ [NowEv now])"
  unfolding overdue_def by (intro exI [of _ t] exI [of _ now]) (auto intro: expires_append)

lemma expired_at_iff: "\<not> IsZero v \<and> time_Sub v now \<le> 0 \<longleftrightarrow> expired_at now v"
  by (simp add: expired_at_def time_Sub_sign)

lemma expires_parsable: "expires res tr t \<Longrightarrow> \<not> unparsable res"
  by (auto simp: expires_def unparsable_def)

lemma may_delete_unparsable:
  "ResEv (Get req (Inr res0)) \<in> set h \<Longrightarrow> deletion_is_zero res0 \<Longrightarrow>
   state_of res0 \<notin> {''active'', ''waiting''} \<Longrightarrow> unparsable res0 \<Longrightarrow>
   may_delete req h (default_pool res0)"
  unfolding may_delete_def by blast

lemma may_delete_overdue:
  "ResEv (Get req (Inr res0)) \<in> set h \<Longrightarrow> deletion_is_zero res0 \<Longrightarrow>
   state_of res0 = ''waiting'' \<Longrightarrow> overdue res0 h \<Longrightarrow> may_delete req h (default_pool res0)"
  unfolding may_delete_def by blast

text \<open>
  In the default case the expiration is computed first; a waiting reservation comes here with
  one that can be parsed.
\<close>

lemma follows_default_deletes:
  assumes lib: "lib_ok E" and got: "ResEv (Get req (Inr res0)) \<in> set (log w)" "deletion_is_zero res0"
    and state: "unparsable res0 \<Longrightarrow> state_of res0 \<notin> {''active'', ''waiting''}"
  shows "follows (delete_guard req) (reconcile_default E (default_pool res0)) w"
proof -
  let ?res = "default_pool res0"
  have bad: "may_delete req (log w @ tr) ?res"
    if "rsDuration (resSpec ?res) = Some dur" "parseDurationTime dur = Inl err" for dur err tr
  proof -
    from that have "unparsable res0"
      by (simp add: unparsable_def default_pool_def split: if_splits)
    with got state show ?thesis by (intro may_delete_unparsable) auto
  qed
  have quiet: "follows (delete_guard req) (getExpirationTime E ?res) w1"
    "follows (delete_guard req) (GetReadyNamespaces E p) w1"
    "follows (delete_guard req) (take_namespace E n t ?res) w1" for p n t w1
    by (intro follows_keeping keeping_reservations.emits_getExpirationTime
        keeping_reservations.emits_GetReadyNamespaces
        keeping_reservations.emits_take_namespace [OF lib])+
  show ?thesis
    unfolding reconcile_default_def
    by (intro follows_bind_wp [OF quiet(1) wp_mono [OF wp_getExpirationTime]]
        follows_bind [OF quiet(2)] quiet(3) follows_bind [OF follows_k_call] follows_cases)
      (auto intro: bad)
qed

lemma follows_waiting_deletes:
  assumes lib: "lib_ok E" and got: "ResEv (Get req (Inr res0)) \<in> set (log w)" "deletion_is_zero res0"
    and state: "state_of res0 = ''waiting''"
  shows "follows (delete_guard req) (reconcile_waiting E (default_pool res0)) w"
proof -
  let ?res = "default_pool res0"
  have late: "may_delete req (log w @ tr @ [NowEv now]) ?res"
    if "expires res0 tr t" "expired_at now t" for tr t now
    using got state that by (intro may_delete_overdue overdueI [of _ _ t]) auto
  have quiet: "follows (delete_guard req) (getExpirationTime E ?res) w1"
    "follows (delete_guard req) (namespaceIsExpired E t) w1" for w1 t
    unfolding namespaceIsExpired_def
    by (intro follows_intros follows_keeping keeping_reservations.emits_getExpirationTime; simp)+
  have clock: "wp (namespaceIsExpired E t) (\<lambda>b w2. \<exists>now. log w2 = log w1 @ [NowEv now] \<and>
      (b \<longrightarrow> expired_at now t)) w1" for t w1
    unfolding namespaceIsExpired_def
    by (intro wp_bind [THEN iffD2] wp_k_call wp_return [THEN iffD2]) (auto simp: expired_at_iff)
  show ?thesis
    unfolding reconcile_waiting_def
    by (intro follows_bind_wp [OF quiet(1) wp_mono [OF wp_getExpirationTime]]
        follows_bind_wp [OF quiet(2) wp_mono [OF clock]] follows_bind [OF follows_k_call]
        follows_cases follows_default_deletes [OF lib])
      (auto intro: late simp: got dest: expires_parsable)
qed

lemma follows_Reservation_Reconcile_deletes:
  assumes lib: "lib_ok E"
  shows "follows (delete_guard req) (Reservation_Reconcile E req) w"
proof -
  have quiet: "follows (delete_guard req) (handleCAPICleanup E res) w1"
    "follows (delete_guard req) (reconcile_active E res) w1" for res w1
    by (intro follows_keeping keeping_deleted.emits_handleCAPICleanup
        keeping_reservations.emits_reconcile_active [OF lib]; simp)+
  show ?thesis
    unfolding Reservation_Reconcile_def Let_def
    by (intro follows_bind_wp [OF follows_k_call wp_k_call] follows_bind [OF quiet(1)] quiet(2)
        follows_cases follows_waiting_deletes [OF lib] follows_default_deletes [OF lib]) auto
qed

end
