(* ===== verification/Reservation_Duration.thy ===== *)
theory Reservation_Duration
  imports Reservation_Controller
begin

text \<open>
  Durations of reservations: how whole numbers of a unit are read, that nothing out of the
  range of Go's \<^verbatim>\<open>time.Duration\<close> comes out, and the default.
\<close>

section \<open>Decimal numbers\<close>

fun decimal :: "nat \<Rightarrow> string" where
  "decimal n = (if n < 10 then [char_of (48 + n)]
     else decimal (n div 10) @ [char_of (48 + n mod 10)])"

declare decimal.simps [simp del]

definition digits_value :: "int \<Rightarrow> string \<Rightarrow> int" where
  "digits_value x ds = foldl (\<lambda>a c. a * 10 + digit_value c) x ds"

lemma digits_value_simps [simp]:
  "digits_value x [] = x"
  "digits_value x (c # ds) = digits_value (x * 10 + digit_value c) ds"
  "digits_value x (ds @ es) = digits_value (digits_value x ds) es"
  by (simp_all add: digits_value_def)

lemma digit_char:
  assumes "m < 10"
  shows "is_digit (char_of (48 + m))" and "digit_value (char_of (48 + m)) = int m"
  using assms by (simp_all add: is_digit_def digit_value_def)

lemma decimal_not_Nil: "decimal n \<noteq> []"
  by (subst decimal.simps) simp

lemma decimal_digits: "list_all is_digit (decimal n)"
  by (induction n rule: decimal.induct) (subst decimal.simps, simp add: digit_char)

lemma decimal_value: "digits_value 0 (decimal n) = int n"
proof (induction n rule: decimal.induct)
  case (1 n)
  have "int (n div 10) * 10 + int (n mod 10) = int n"
    by (metis mult.commute of_nat_add of_nat_mult of_nat_numeral mult_div_mod_eq)
  with 1 show ?case
    by (subst decimal.simps) (simp add: digit_char)
qed

lemma digits_value_ge: "0 \<le> x \<Longrightarrow> x \<le> digits_value x ds"
proof (induction ds arbitrary: x)
  case (Cons c ds)
  have "0 \<le> digit_value c" by (simp add: digit_value_def)
  with Cons.prems have "x \<le> x * 10 + digit_value c" "0 \<le> x * 10 + digit_value c" by simp_all
  with Cons.IH [of "x * 10 + digit_value c"] show ?case by simp
qed simp

lemma leadingInt_loop_digits:
  assumes "list_all is_digit ds" and "0 \<le> x" and "x \<le> 2 ^ 63"
  shows "leadingInt_loop x (ds @ rest) = (if digits_value x ds \<le> 2 ^ 63
    then leadingInt_loop (digits_value x ds) rest else None)"
  using assms
proof (induction ds arbitrary: x)
  case (Cons c ds)
  let ?x = "x * 10 + digit_value c"
  have dv: "0 \<le> digit_value c" by (simp add: digit_value_def)
  with Cons.prems have "0 \<le> ?x" by simp
  then have ge: "?x \<le> digits_value ?x ds" by (rule digits_value_ge)
  show ?case
  proof (cases "x > 2 ^ 63 div 10 \<or> ?x > 2 ^ 63")
    case True
    with dv have "?x > 2 ^ 63" by auto
    with ge True Cons.prems show ?thesis by (auto simp: Let_def)
  next
    case False
    with Cons.IH [of ?x] Cons.prems \<open>0 \<le> ?x\<close> show ?thesis by (simp add: Let_def)
  qed
qed simp

lemma int_div_less_iff:
  fixes a k n :: int
  assumes "0 < k"
  shows "a div k < n \<longleftrightarrow> a < n * k"
proof -
  have a: "a = a div k * k + a mod k" "0 \<le> a mod k" "a mod k < k"
    using assms by simp_all
  show ?thesis
  proof (cases "a div k < n")
    case True
    then have "(a div k + 1) * k \<le> n * k"
      using assms by (intro mult_right_mono) simp_all
    then have "a div k * k + k \<le> n * k" by (simp add: algebra_simps)
    with True a show ?thesis by linarith
  next
    case False
    then have "n * k \<le> a div k * k"
      using assms by (intro mult_right_mono) simp_all
    with False a show ?thesis by linarith
  qed
qed

section \<open>A number and a unit\<close>

lemma unitMap_cases:
  assumes "unitMap u = Some k"
  shows "u \<noteq> [] \<and> list_all unit_char u \<and> \<not> is_digit (hd u) \<and> hd u \<noteq> CHR ''.'' \<and> 0 < k \<and> k \<le> 2 ^ 63"
  using assms by (auto simp: unitMap_def unit_char_def is_digit_def split: if_splits)

lemma parse_unit_whole:
  assumes "unitMap u = Some k"
  shows "parse_unit v 0 sc u = (if v > 2 ^ 63 div k then Inl invalid_duration else Inr (v * k, []))"
proof -
  have tw: "takeWhile unit_char u = u" and dw: "dropWhile unit_char u = []"
    using unitMap_cases [OF assms] by (auto simp: list_all_iff takeWhile_eq_all_conv dropWhile_eq_Nil_conv)
  show ?thesis
    unfolding parse_unit_def Let_def tw dw using assms unitMap_cases [OF assms] by simp
qed

lemma parse_component_whole:
  assumes "unitMap u = Some k"
  shows "parse_component (decimal n @ u) =
    (if int n > 2 ^ 63 div k then Inl invalid_duration else Inr (int n * k, []))"
proof -
  from unitMap_cases [OF assms] obtain c u' where u: "u = c # u'" "\<not> is_digit c" "c \<noteq> CHR ''.''"
      and k: "0 < k" "k \<le> 2 ^ 63" by (cases u) auto
  have hd: "is_digit (hd (decimal n @ u))"
    using decimal_digits [of n] decimal_not_Nil [of n] by (cases "decimal n") simp_all
  have len: "length (decimal n @ u) \<noteq> length u"
    using decimal_not_Nil [of n] by simp
  have "2 ^ 63 div k \<le> (2 ^ 63 :: int)"
    using k by (simp add: div_le_dividend zdiv_mono2 [of _ 1 k, simplified])
  moreover have "leadingInt (decimal n @ u) = (if int n \<le> 2 ^ 63 then Some (int n, u) else None)"
    using leadingInt_loop_digits [of "decimal n" 0 u] decimal_digits [of n] decimal_value [of n] u
    by (simp add: leadingInt_def)
  moreover have "parse_fraction u = ((0, (1, 1), u), False)"
    using u by (simp add: parse_fraction_def)
  ultimately show ?thesis
    using hd len decimal_not_Nil [of n] parse_unit_whole [OF assms, of "int n"]
    by (auto simp: parse_component_def)
qed

lemma parse_loop_range:
  "parse_loop d s = Inr d' \<Longrightarrow> 0 \<le> d \<Longrightarrow> d \<le> 2 ^ 63 \<Longrightarrow> 0 \<le> d' \<and> d' \<le> 2 ^ 63"
proof (induction d s rule: parse_loop.induct)
  case (1 d s)
  show ?case
  proof (cases "s = []")
    case True
    with 1(2-) show ?thesis by (simp add: parse_loop.simps [of d])
  next
    case False
    with 1(2) obtain v s' where v: "parse_component s = Inr (v, s')"
        "\<not> (d + v) mod 2 ^ 64 > 2 ^ 63" "parse_loop ((d + v) mod 2 ^ 64) s' = Inr d'"
      by (subst (asm) parse_loop.simps) (auto simp: Let_def split: if_splits sum.splits)
    from 1(1) [OF False v(1) refl refl v(2,3)] v(2) show ?thesis by simp
  qed
qed

section \<open>Properties\<close>

text \<open>
  C39. A whole number of a unit is read back exactly: the decimal digits of \<open>n\<close> followed by one
  of Go's units give \<open>n\<close> times the unit in nanoseconds when that fits into a signed 64-bit
  integer, and an error otherwise, never a wrapped value.
\<close>

theorem duration_reads_back:
  assumes "unitMap u = Some k"
  shows "parseDurationTime (decimal n @ u) =
    (if int n * k \<le> 2 ^ 63 - 1 then Inr (int n * k) else Inl invalid_duration)"
proof -
  let ?s = "decimal n @ u"
  have k: "0 < k" and u: "u \<noteq> []"
    using unitMap_cases [OF assms] by simp_all
  obtain c r where s: "?s = c # r" "is_digit c"
    using decimal_digits [of n] decimal_not_Nil [of n] by (cases "decimal n") simp_all
  then have sign: "c \<noteq> CHR ''-''" "c \<noteq> CHR ''+''"
    by (auto simp: is_digit_def)
  have "2 \<le> length ?s"
    using decimal_not_Nil [of n] u by (cases "decimal n"; cases u) simp_all
  then have ne: "?s \<noteq> ''0''" "?s \<noteq> []"
    by (auto simp: s(1))
  have fits: "int n > 2 ^ 63 div k \<longleftrightarrow> int n * k > 2 ^ 63"
    using k by (rule int_div_less_iff)
  have loop: "parse_loop 0 ?s = (if int n * k > 2 ^ 63 then Inl invalid_duration else Inr (int n * k))"
    using s k parse_component_whole [OF assms, of n, unfolded fits]
    by (subst parse_loop.simps) (auto simp: Let_def parse_loop.simps [of _ "[]"])
  have "parseDurationTime ?s = ParseDuration ?s"
    using ne by (simp add: parseDurationTime_def)
  also have "ParseDuration ?s = (case parse_loop 0 ?s of Inl e \<Rightarrow> Inl e
      | Inr d \<Rightarrow> if d > 2 ^ 63 - 1 then Inl invalid_duration else Inr d)"
    using ne sign s by (auto simp: ParseDuration_def split: sum.splits)
  also have "\<dots> = (if int n * k \<le> 2 ^ 63 - 1 then Inr (int n * k) else Inl invalid_duration)"
    by (simp add: loop)
  finally show ?thesis .
qed

theorem duration_reads_back_witness:
  "parseDurationTime (decimal 36 @ ''h'') = Inr 129600000000000 \<and>
   parseDurationTime (decimal 2562048 @ ''h'') = Inl invalid_duration"
proof -
  have h: "unitMap ''h'' = Some 3600000000000"
    by (simp add: unitMap_def)
  show ?thesis
    using duration_reads_back [OF h, of 36] duration_reads_back [OF h, of 2562048] by simp
qed

text \<open>
  Whatever the duration of a reservation says, what the operator reads from it is in the
  range of a signed 64-bit number of nanoseconds; an empty one is one hour.
\<close>

theorem duration_in_range:
  assumes "parseDurationTime s = Inr d"
  shows "int64 d \<and> (s = '''' \<longrightarrow> d = Hour)"
proof -
  have "parseDurationTime '''' = Inr 3600000000000"
    by code_simp
  moreover have "int64 d" if "ParseDuration s' = Inr d" for s'
    using that parse_loop_range [of 0]
    by (fastforce simp: ParseDuration_def int64_def Let_def split: if_splits sum.splits list.splits)
  ultimately show ?thesis
    using assms by (auto simp: parseDurationTime_def duration_defs split: if_splits)
qed

theorem duration_in_range_witness: "int64 Hour"
proof -
  have "parseDurationTime '''' = Inr Hour"
    by code_simp
  from duration_in_range [OF this] show ?thesis by simp
qed

end
