(* ===== verification/Operator.thy ===== *)
theory Operator
  imports Reservation_Deletes Reservation_Duration
begin

text \<open>
  The operator as a whole: the three reconcilers and the poller as steps on one world, in any
  order, between arbitrary changes of the cluster, and the invariants of every run.
\<close>

section \<open>The calls of the pool reconciler\<close>

locale pool_policy = setup_policy + delete_policy +
  assumes project_ok: "ok (ProjectEv (Create p q))"
    and namespace_ok: "ok (NsEv (Create n o1))"
    and pool_status_ok: "ok (PoolEv (StatusUpdate x y))"
begin

lemma emits_CreateNamespace: "emits ok (CreateNamespace E p)"
  unfolding CreateNamespace_def Let_def
  by (intro emits_intros project_ok namespace_ok read_ok) simp

lemma emits_increase_loop: "lib_ok E \<Longrightarrow> emits ok (increase_loop E p n)"
proof (induction n)
  case (Suc n)
  then show ?case
    unfolding increase_loop.simps
    by (intro emits_intros emits_CreateNamespace emits_UpdateNamespaceResources delete_ok) simp_all
qed (simp add: emits_return)

lemma emits_mark_first_excess: "lib_ok E \<Longrightarrow> emits ok (mark_first_excess E nss)"
  by (induction nss) (auto intro!: emits_return emits_UpdateAnnotations)

lemma emits_decrease_loop: "lib_ok E \<Longrightarrow> emits ok (decrease_loop E nss n)"
proof (induction n)
  case (Suc n)
  then show ?case
    unfolding decrease_loop.simps
    by (intro emits_intros emits_mark_first_excess) simp_all
qed (simp add: emits_return)

lemma emits_deleteErrorNamespaces: "lib_ok E \<Longrightarrow> emits ok (deleteErrorNamespaces E nms)"
proof (induction nms)
  case (Cons n nms)
  then show ?case
    unfolding deleteErrorNamespaces.simps
    by (intro emits_intros emits_DeleteNamespace) simp_all
qed (simp add: emits_return)

lemma emits_Pool_Reconcile: "lib_ok E \<Longrightarrow> emits ok (Pool_Reconcile E req)"
  unfolding Pool_Reconcile_def getPoolStatus_def resize_step_def increaseReadyNamespacesQueue_def
    decreaseReadyNamespacesQueue_def Let_def
  by (intro emits_intros emits_increase_loop emits_decrease_loop emits_deleteErrorNamespaces
      emits_GetReadyNamespaces pool_status_ok read_ok) simp_all

end

interpretation quiet_pool: pool_policy res_quiet
  by unfold_locales (simp_all add: res_quiet_def)

interpretation quiet_handler: env_handler_policy res_quiet
  by unfold_locales (simp_all add: res_quiet_def)

lemma emits_Clowdenv_Reconcile:
  assumes "lib_ok E"
  shows "emits res_quiet (Clowdenv_Reconcile E req)"
  unfolding Clowdenv_Reconcile_def Let_def
  by (intro emits_intros quiet_handler.emits_record_completion quiet_handler.emits_CreateFrontendEnv
      quiet_res.emits_UpdateAnnotations assms) (simp add: res_quiet_def)

section \<open>The other reconcilers leave the table alone\<close>

lemma calm_GetNamespace: "lib_ok E \<Longrightarrow> calm (GetNamespace E n)"
  unfolding GetNamespace_def by (intro calm_intros)

lemma calm_create_quotas_loop: "calm (create_quotas_loop E qs n)"
  by (induction qs) (auto intro!: calm_intros)

lemma calm_UpdateNamespaceResources: "lib_ok E \<Longrightarrow> calm (UpdateNamespaceResources E p n)"
  unfolding UpdateNamespaceResources_def adopt_step_def CreateClowdEnv_def Let_def
  by (intro calm_intros calm_GetNamespace calm_create_quotas_loop calm_CopySecretsFrom
      calm_UpdateAnnotations)

lemma calm_increase_loop: "lib_ok E \<Longrightarrow> calm (increase_loop E p n)"
  by (induction n) (auto simp: CreateNamespace_def Let_def
      intro!: calm_intros calm_UpdateNamespaceResources)

lemma calm_decrease_loop: "lib_ok E \<Longrightarrow> calm (decrease_loop E nss n)"
proof (induction n)
  case (Suc n)
  have "calm (mark_first_excess E nss)"
    using Suc.prems by (induction nss) (auto intro!: calm_return calm_UpdateAnnotations)
  with Suc show ?case by (auto intro!: calm_intros)
qed (simp add: calm_return)

lemma calm_deleteErrorNamespaces: "lib_ok E \<Longrightarrow> calm (deleteErrorNamespaces E nms)"
  by (induction nms)
    (auto simp: DeleteNamespace_def intro!: calm_intros calm_GetNamespace calm_UpdateAnnotations)

lemma calm_Pool_Reconcile: "lib_ok E \<Longrightarrow> calm (Pool_Reconcile E req)"
  unfolding Pool_Reconcile_def getPoolStatus_def resize_step_def increaseReadyNamespacesQueue_def
    decreaseReadyNamespacesQueue_def GetReadyNamespaces_def Let_def
  by (intro calm_intros calm_increase_loop calm_decrease_loop calm_deleteErrorNamespaces)

lemma calm_shim_services_loop: "calm (shim_services_loop E ns ce sns)"
  by (induction sns) (auto intro!: calm_intros)

lemma calm_Clowdenv_Reconcile: "lib_ok E \<Longrightarrow> calm (Clowdenv_Reconcile E req)"
  unfolding Clowdenv_Reconcile_def CreateFrontendEnv_def createShimServices_def
    record_completion_def Let_def
  by (intro calm_intros calm_shim_services_loop calm_GetNamespace calm_UpdateAnnotations)

section \<open>Runs of the operator\<close>

text \<open>
  A step is one reconciliation, one cycle or the filling of the table by the poller, or any
  change of the cluster by others. A run starts with an empty table and history.
\<close>

inductive reachable :: "'s env \<Rightarrow> 's world \<Rightarrow> bool" for E where
  start: "active w = [] \<Longrightarrow> log w = [] \<Longrightarrow> reachable E w"
| others: "reachable E w \<Longrightarrow> reachable E (w\<lparr>srv := s\<rparr>)"
| reservation: "reachable E w \<Longrightarrow> run_state (Reservation_Reconcile E req) w = (ro, w') \<Longrightarrow>
    reachable E w'"
| pool: "reachable E w \<Longrightarrow> run_state (Pool_Reconcile E req) w = (rr, w') \<Longrightarrow> reachable E w'"
| clowdenv: "reachable E w \<Longrightarrow> run_state (Clowdenv_Reconcile E req) w = (rr, w') \<Longrightarrow> reachable E w'"
| fill: "reachable E w \<Longrightarrow> run_state (populateActiveReservations E) w = (u, w') \<Longrightarrow> reachable E w'"
| poll: "reachable E w \<Longrightarrow> run_state (poll_cycle E) w = (v, w') \<Longrightarrow> reachable E w'"

text \<open>
  An entry of the table is accounted for by the history: the API server answered with a
  reservation of that name whose duration gives this expiration, or listed it as active with it.
\<close>

definition accounted :: "event list \<Rightarrow> string \<Rightarrow> time \<Rightarrow> bool" where
  "accounted h k v \<longleftrightarrow> (\<exists>y. answered y h \<and> mName y = k \<and> expires y h v) \<or>
     (\<exists>items y. ResEv (ListAll AllObjects (Inr items)) \<in> set h \<and> y \<in> set items \<and>
        state_of y = ''active'' \<and> mName y = k \<and> rsExpiration (resStatus y) = v)"

lemma accounted_append: "accounted h k v \<Longrightarrow> accounted (h @ tr) k v"
  unfolding accounted_def by (metis (no_types, lifting) UnI1 answered_simps(1) expires_append(1) set_append)

definition table_ok :: "(string \<times> time) list \<Rightarrow> event list \<Rightarrow> bool" where
  "table_ok m h \<longleftrightarrow> distinct (map fst m) \<and> (\<forall>k v. map_of m k = Some v \<longrightarrow> accounted h k v)"

lemma table_ok_append: "table_ok m h \<Longrightarrow> table_ok m (h @ tr)"
  by (auto simp: table_ok_def accounted_append)

lemma table_ok_step: "table_ok m h \<Longrightarrow> table_step m tr m' \<Longrightarrow> table_ok m' (h @ tr)"
  unfolding table_step_def
proof (elim disjE exE conjE)
  fix y t
  assume ok: "table_ok m h" and y: "answered y tr" "expires y tr t" "m' = AList.update (mName y) t m"
  have "accounted (h @ tr) (mName y) t"
    unfolding accounted_def using y(1,2) expires_append(2) [of y tr t h] by auto
  with ok show "table_ok m' (h @ tr)"
    by (auto simp: table_ok_def y(3) active_table.look_put distinct_update accounted_append
        split: if_splits)
qed (simp add: table_ok_append)

lemma visit_keys: "visit k m tr m' \<Longrightarrow> distinct (map fst m) \<Longrightarrow> distinct (map fst m')"
  by (auto elim!: visitE simp: distinct_delete)

lemma visits_keys: "visits ks m tr m' \<Longrightarrow> distinct (map fst m) \<Longrightarrow> distinct (map fst m')"
  by (induction rule: visits.induct) (auto dest: visit_keys)

lemma table_ok_visits:
  assumes "table_ok m h" and "visits ks m tr m'"
  shows "table_ok m' (h @ tr')"
proof -
  have "map_of m k = Some v" if "map_of m' k = Some v" for k v
    using visits_shrink [OF assms(2)] that by (metis domI map_le_def)
  with assms(1) visits_keys [OF assms(2)] show ?thesis
    by (simp add: table_ok_def accounted_append)
qed

lemma keys_update_fold:
  "distinct (map fst m) \<Longrightarrow> distinct (map fst (foldl (\<lambda>t (k, v). AList.update k v t) m kvs))"
  by (induction kvs arbitrary: m) (auto simp: distinct_update)

lemma table_ok_fill:
  assumes "table_ok m h" and "ResEv (ListAll AllObjects (Inr items)) \<in> set tr"
    and m': "m' = foldl (\<lambda>t (k, v). AList.update k v t) m (active_entries items)"
  shows "table_ok m' (h @ tr)"
proof -
  have "accounted (h @ tr) k v" if "map_of m' k = Some v" for k v
  proof -
    from that have "(map_of m ++ map_of (rev (active_entries items))) k = Some v"
      by (simp add: m' active_table.look_put_fold)
    then consider "map_of m k = Some v" | "(k, v) \<in> set (active_entries items)"
      by (fastforce simp: map_add_Some_iff dest: map_of_SomeD)
    then show ?thesis
    proof cases
      case 1
      with assms(1) show ?thesis by (simp add: table_ok_def accounted_append)
    next
      case 2
      with assms(2) show ?thesis
        unfolding accounted_def active_entries_def by auto
    qed
  qed
  with assms(1) keys_update_fold [of m] show ?thesis
    by (simp add: table_ok_def m')
qed

lemma wp_fill:
  "wp (populateActiveReservations E) (\<lambda>r w'. \<exists>tr. log w' = log w @ tr \<and> (active w' = active w \<or>
     (\<exists>items. ResEv (ListAll AllObjects (Inr items)) \<in> set tr \<and>
        active w' = foldl (\<lambda>t (k, v). AList.update k v t) (active w) (active_entries items)))) w"
  unfolding populateActiveReservations_def getExistingReservations_def
  by (intro wp_bind [THEN iffD2] wp_intros wp_mono [OF wp_populate_loop] wp_k_call) auto

lemma quiet_step:
  assumes "calm m" and "emits res_quiet m" and "run_state m w = (r, w')"
  shows "\<exists>tr. log w' = log w @ tr \<and> (\<forall>e \<in> set tr. res_quiet e) \<and> active w' = active w"
  by (rule emits_log [OF assms(2,3)]) (metis assms(1,3) calm_def snd_conv)

lemma reachable_table_ok:
  assumes "lib_ok E" and "reachable E w"
  shows "table_ok (active w) (log w)"
  using assms(2)
proof (induction rule: reachable.induct)
  case (reservation w req ro w')
  from wpD [OF wp_Reservation_Reconcile_table [OF assms(1)] reservation.hyps(2)] reservation.IH
  show ?case by (auto intro: table_ok_step)
next
  case (pool w req rr w')
  from quiet_step [OF calm_Pool_Reconcile quiet_pool.emits_Pool_Reconcile, OF assms(1) assms(1) pool.hyps(2)]
    pool.IH show ?case by (auto intro: table_ok_append)
next
  case (clowdenv w req rr w')
  from quiet_step [OF calm_Clowdenv_Reconcile emits_Clowdenv_Reconcile, OF assms(1) assms(1) clowdenv.hyps(2)]
    clowdenv.IH show ?case by (auto intro: table_ok_append)
next
  case (fill w u w')
  from wpD [OF wp_fill fill.hyps(2)] fill.IH show ?case
    by (auto intro: table_ok_fill table_ok_append)
next
  case (poll w v w')
  obtain ks tr where "log w' = log w @ RangeEv ks # tr @ [SleepEv (PollCycle * Second)]"
    "visits ks (active w) tr (active w')"
    by (rule poll_cycle_visits [OF assms(1) poll.hyps(2)])
  with poll.IH show ?case by (simp add: table_ok_visits)
qed (simp_all add: table_ok_def)

section \<open>Deletes of reservations\<close>

text \<open>
  When a reservation may be sent a delete, after the history \<open>h\<close>: the poller does so for an
  entry that is accounted for and has expired by the clock just read, the reservation
  controller for a waiting reservation that is overdue or a new one it cannot read a duration of.
\<close>

definition fair_delete :: "event list \<Rightarrow> reservation \<Rightarrow> bool" where
  "fair_delete h x \<longleftrightarrow>
     (\<exists>h0 k v now g. h = h0 @ [NowEv now, ResEv (Get (cluster_key k) g)] \<and> accounted h k v \<and>
        expired_at now v \<and> x = delete_target g) \<or>
     (\<exists>req. may_delete req h x)"

definition deletes_fair :: "event list \<Rightarrow> bool" where
  "deletes_fair h \<longleftrightarrow> (\<forall>pre x d post. h = pre @ ResEv (Delete x d) # post \<longrightarrow> fair_delete pre x)"

lemma deletes_fair_Nil: "deletes_fair []"
  by (simp add: deletes_fair_def)

lemma deletes_fair_step:
  assumes "deletes_fair (log w)" and "follows \<Gamma> m w" and "run_state m w = (r, w')"
    and "\<And>h x d. \<Gamma> (log w @ h) (ResEv (Delete x d)) \<Longrightarrow> fair_delete (log w @ h) x"
  shows "deletes_fair (log w')"
proof -
  from assms(2,3) obtain tr where tr: "log w' = log w @ tr"
    "\<And>pre e post. tr = pre @ e # post \<Longrightarrow> \<Gamma> (log w @ pre) e"
    by (auto simp: follows_def)
  show ?thesis
    unfolding deletes_fair_def tr(1)
  proof (intro allI impI)
    fix pre x d post
    assume "log w @ tr = pre @ ResEv (Delete x d) # post"
    from append_split_elem [OF this] show "fair_delete pre x"
    proof (elim disjE exE conjE)
      fix post' assume "log w = pre @ ResEv (Delete x d) # post'"
      with assms(1) show ?thesis by (simp add: deletes_fair_def)
    next
      fix pre' assume "pre = log w @ pre'" "tr = pre' @ ResEv (Delete x d) # post"
      with tr(2) assms(4) show ?thesis by blast
    qed
  qed
qed

lemma quiet_deletes_fair:
  assumes "deletes_fair (log w)" and "emits res_quiet m" and "run_state m w = (r, w')"
  shows "deletes_fair (log w')"
  by (rule deletes_fair_step [where \<Gamma> = "\<lambda>_. res_quiet", OF assms(1) emits_follows [OF assms(2)] assms(3)])
    (simp_all add: res_quiet_def)

lemma may_delete_fair: "may_delete req h x \<Longrightarrow> fair_delete h x"
  unfolding fair_delete_def by blast

lemma poll_guard_fair:
  assumes "table_ok m h0" and "poll_guard (map_of m) (h0 @ h) (ResEv (Delete x d))"
  shows "fair_delete (h0 @ h) x"
proof -
  from assms(2) obtain pre0 k v now g where "map_of m k = Some v" "expired_at now v"
    "h0 @ h = pre0 @ [NowEv now, ResEv (Get (cluster_key k) g)]" "x = delete_target g"
    by (auto simp: poll_guard_def poll_delete_def)
  moreover from this(1) assms(1) have "accounted h0 k v"
    by (simp only: table_ok_def)
  then have "accounted (h0 @ h) k v"
    by (rule accounted_append)
  ultimately show ?thesis
    unfolding fair_delete_def by blast
qed

lemma reachable_deletes_fair:
  assumes lib: "lib_ok E" and "reachable E w"
  shows "deletes_fair (log w)"
  using assms(2)
proof (induction rule: reachable.induct)
  case (reservation w req ro w')
  show ?case
    by (rule deletes_fair_step [OF reservation.IH follows_Reservation_Reconcile_deletes [OF lib]
        reservation.hyps(2)]) (simp add: may_delete_fair)
next
  case (pool w req rr w')
  from pool.IH quiet_pool.emits_Pool_Reconcile [OF lib] pool.hyps(2) show ?case
    by (rule quiet_deletes_fair)
next
  case (clowdenv w req rr w')
  from clowdenv.IH emits_Clowdenv_Reconcile [OF lib] clowdenv.hyps(2) show ?case
    by (rule quiet_deletes_fair)
next
  case (fill w u w')
  have "emits res_quiet (populateActiveReservations E)"
    unfolding populateActiveReservations_def getExistingReservations_def
    by (intro emits_intros emits_weaken [OF emits_populate_loop])
      (auto simp: quiet_res.read_ok)
  with fill show ?case by (blast intro: quiet_deletes_fair)
next
  case (poll w v w')
  show ?case
    by (rule deletes_fair_step [OF poll.IH follows_poll_cycle [OF lib map_le_refl] poll.hyps(2)])
      (rule poll_guard_fair [OF reachable_table_ok [OF lib poll.hyps(1)]])
qed (simp_all add: deletes_fair_Nil)

section \<open>Properties\<close>

text \<open>
  In every run of the operator, whatever the order of reconciliations and cycles and
  whatever others do to the cluster, a reservation is sent a delete only for a reason: the
  poller read the clock past an expiration that the reservation controller computed from an
  answer of the API server or that a listing had for an active reservation, or the reservation
  was read as waiting with its expiration passed, or as neither waiting nor active with a
  duration that cannot be parsed.
\<close>

theorem reservations_deleted_for_a_reason:
  assumes "lib_ok E" and "reachable E w" and "log w = pre @ ResEv (Delete x d) # post"
  shows "(\<exists>h0 k v now g. pre = h0 @ [NowEv now, ResEv (Get (cluster_key k) g)] \<and>
      accounted pre k v \<and> expired_at now v \<and> x = delete_target g) \<or>
    (\<exists>req res0. ResEv (Get req (Inr res0)) \<in> set pre \<and> x = default_pool res0 \<and>
      deletion_is_zero res0 \<and> (state_of res0 = ''waiting'' \<and> overdue res0 pre \<or>
        state_of res0 \<notin> {''active'', ''waiting''} \<and> unparsable res0))"
proof -
  from reachable_deletes_fair [OF assms(1,2)] assms(3) have "fair_delete pre x"
    by (simp add: deletes_fair_def)
  then show ?thesis
    unfolding fair_delete_def may_delete_def .
qed

text \<open>
  In every run the table of active reservations is a map, and each of its entries is
  accounted for: the expiration under a name was computed from the duration of a reservation
  of that name with which the API server answered, or is the one with which a listing showed
  it as active.
\<close>

theorem table_always_accounted:
  assumes "lib_ok E" and "reachable E w"
  shows "distinct (map fst (active w)) \<and> (\<forall>(k, v) \<in> set (active w).
    (\<exists>y. answered y (log w) \<and> mName y = k \<and> expires y (log w) v) \<or>
    (\<exists>items y. ResEv (ListAll AllObjects (Inr items)) \<in> set (log w) \<and> y \<in> set items \<and>
       state_of y = ''active'' \<and> mName y = k \<and> rsExpiration (resStatus y) = v))"
proof -
  from reachable_table_ok [OF assms] have "distinct (map fst (active w))"
    "\<And>k v. (k, v) \<in> set (active w) \<Longrightarrow> accounted (log w) k v"
    by (simp_all add: table_ok_def)
  then show ?thesis
    unfolding accounted_def [symmetric] by auto
qed

text \<open>A run: a handover, an hour passes, a cycle of the poller.\<close>

definition after_handover :: "sample world" where
  "after_handover = snd (run_state (Reservation_Reconcile sample_env ('''', ''r'')) handover_world)"

definition later :: "sample world" where
  "later = after_handover\<lparr>srv := (srv after_handover)\<lparr>sm_clock := 2 * Hour\<rparr>\<rparr>"

definition after_cycle :: "sample world" where
  "after_cycle = snd (run_state (poll_cycle sample_env) later)"

lemma sample_reachable:
  "reachable sample_env after_handover" "reachable sample_env after_cycle"
proof -
  have "reachable sample_env handover_world"
    by (rule reachable.start) (simp_all add: handover_world_def sample_world_def)
  then show 1: "reachable sample_env after_handover"
    unfolding after_handover_def by (rule reachable.reservation [OF _ surjective_pairing])
  then have "reachable sample_env later"
    unfolding later_def by (rule reachable.others)
  then show "reachable sample_env after_cycle"
    unfolding after_cycle_def by (rule reachable.poll [OF _ surjective_pairing])
qed

theorem reservations_deleted_for_a_reason_witness:
  "\<exists>pre x d post. log after_cycle = pre @ ResEv (Delete x d) # post \<and>
    ((\<exists>h0 k v now g. pre = h0 @ [NowEv now, ResEv (Get (cluster_key k) g)] \<and>
      accounted pre k v \<and> expired_at now v \<and> x = delete_target g) \<or>
    (\<exists>req res0. ResEv (Get req (Inr res0)) \<in> set pre \<and> x = default_pool res0 \<and>
      deletion_is_zero res0 \<and> (state_of res0 = ''waiting'' \<and> overdue res0 pre \<or>
        state_of res0 \<notin> {''active'', ''waiting''} \<and> unparsable res0)))"
proof -
  have "list_ex deletes_reservation (log after_cycle)"
    by code_simp
  then obtain pre e post where "log after_cycle = pre @ e # post" "deletes_reservation e"
    unfolding list_ex_iff by (metis split_list)
  then obtain x d where evs: "log after_cycle = pre @ ResEv (Delete x d) # post"
    by (auto elim!: deletes_reservation.elims)
  from conjI [OF evs reservations_deleted_for_a_reason [OF sample_lib_ok sample_reachable(2) evs]]
  show ?thesis by (intro exI)
qed

theorem table_always_accounted_witness:
  "\<exists>k v. (k, v) \<in> set (active after_handover) \<and>
     ((\<exists>y. answered y (log after_handover) \<and> mName y = k \<and> expires y (log after_handover) v) \<or>
      (\<exists>items y. ResEv (ListAll AllObjects (Inr items)) \<in> set (log after_handover) \<and>
        y \<in> set items \<and> state_of y = ''active'' \<and> mName y = k \<and> rsExpiration (resStatus y) = v))"
proof -
  have "active after_handover = [(''r'', 3600000000000)]"
    by code_simp
  then have entry: "(''r'', 3600000000000) \<in> set (active after_handover)"
    by simp
  from bspec [OF conjunct2 [OF table_always_accounted [OF sample_lib_ok sample_reachable(1)]] entry]
  have "(\<exists>y. answered y (log after_handover) \<and> mName y = ''r'' \<and>
        expires y (log after_handover) 3600000000000) \<or>
      (\<exists>items y. ResEv (ListAll AllObjects (Inr items)) \<in> set (log after_handover) \<and>
        y \<in> set items \<and> state_of y = ''active'' \<and> mName y = ''r'' \<and>
        rsExpiration (resStatus y) = 3600000000000)"
    unfolding prod.case .
  from conjI [OF entry this] show ?thesis by (intro exI)
qed

end
