(* ===== verification/Ownership.thy ===== *)
theory Ownership
  imports Operator
begin

text \<open>
  Who owns a namespace when the workers of the operator run side by side, call by call: the
  writes by which each of them can change an owner, and what it takes for a namespace that is
  lent to get another owner.
\<close>

section \<open>Repeated runs of a computation\<close>

lemma follows_retry:
  assumes "retry_law r" and "I w"
    and body: "\<And>w. I w \<Longrightarrow> follows \<Gamma> m w \<and> wp m (\<lambda>x w'. fst x \<noteq> None \<longrightarrow> I w') w"
  shows "follows \<Gamma> (r m) w"
proof -
  define ok where "ok w' \<longleftrightarrow> (\<exists>tr. log w' = log w @ tr \<and>
     (\<forall>pre e post. tr = pre @ e # post \<longrightarrow> \<Gamma> (log w @ pre) e))" for w' :: "'a world"
  have step: "ok w2" if "ok w1" "follows \<Gamma> m w1" "run_state m w1 = (x, w2)" for w1 w2 x
  proof -
    from that obtain tr tr' where "log w1 = log w @ tr" "log w2 = log w1 @ tr'"
      "\<And>pre e post. tr = pre @ e # post \<Longrightarrow> \<Gamma> (log w @ pre) e"
      "\<And>pre e post. tr' = pre @ e # post \<Longrightarrow> \<Gamma> (log w1 @ pre) e"
      by (auto simp: ok_def follows_def)
    then show ?thesis
      unfolding ok_def
      by (intro exI [of _ "tr @ tr'"]) (fastforce dest!: append_split_elem)
  qed
  have "wp (r m) (\<lambda>_. ok) w"
  proof (rule wp_retry [where I = "\<lambda>w. I w \<and> ok w", OF assms(1)])
    fix w1
    assume w1: "I w1 \<and> ok w1"
    show "wp m (\<lambda>x w'. (fst x \<noteq> None \<longrightarrow> I w' \<and> ok w') \<and> ok w') w1"
      using wpD [OF conjunct2 [OF body [OF conjunct1 [OF w1]]]] body [of w1] w1 step
      by (intro wpI) blast
  qed (use assms(2) in \<open>simp add: ok_def\<close>)
  then show ?thesis by (simp add: ok_def follows_def wp_def)
qed

section \<open>Workers side by side\<close>

text \<open>
  The manager runs one worker per controller, since \<^verbatim>\<open>MaxConcurrentReconciles\<close> is left at its
  default of one, and the poller is a thread of its own. A history is the list of all their
  calls, in the order in which the cluster answered them. It is one of workers side by side when
  the calls of each worker are those of runs of its code, one after the other, the last of them
  perhaps not finished. The calls of different workers may alternate in any way: the world a run
  starts from is arbitrary and its state may hold whatever the others do while it runs, so the
  calls of a run are answered as in any interleaving.
\<close>

datatype worker = Reservations | Pools | Clowdenvs | ThePoller

fun turn :: "'s env \<Rightarrow> worker \<Rightarrow> event list \<Rightarrow> bool" where
  "turn E Reservations tr \<longleftrightarrow> (\<exists>req w. tr = events (Reservation_Reconcile E req) w)"
| "turn E Pools tr \<longleftrightarrow> (\<exists>req w. tr = events (Pool_Reconcile E req) w)"
| "turn E Clowdenvs tr \<longleftrightarrow> (\<exists>req w. tr = events (Clowdenv_Reconcile E req) w)"
| "turn E ThePoller tr \<longleftrightarrow> (\<exists>n w. tr = events (Poll E n) w)"

type_synonym history = "(worker \<times> event) list"

definition calls :: "worker \<Rightarrow> history \<Rightarrow> event list" where
  "calls v H = map snd (filter (\<lambda>c. fst c = v) H)"

definition side_by_side :: "'s env \<Rightarrow> history \<Rightarrow> bool" where
  "side_by_side E H \<longleftrightarrow> (\<forall>v. \<exists>runs rest. (\<forall>tr \<in> set runs. turn E v tr) \<and>
     concat runs = calls v H @ rest)"

lemma calls_simps [simp]:
  "calls v [] = []" "calls v (H @ H') = calls v H @ calls v H'"
  "calls v ((u, e) # H) = (if u = v then e # calls v H else calls v H)"
  by (simp_all add: calls_def)

lemma in_history: "(t, e) \<in> set H \<Longrightarrow> e \<in> set (map snd H)"
  by force

lemma in_calls: "e \<in> set (calls v H) \<longleftrightarrow> (v, e) \<in> set H"
  by (force simp: calls_def)

section \<open>The writes that change an owner\<close>

text \<open>Calls that write no namespace, or are refused.\<close>

fun bystander :: "event \<Rightarrow> bool" where
  "bystander (NsEv (Update x r)) \<longleftrightarrow> isl r"
| "bystander _ \<longleftrightarrow> True"

definition pool_owned :: "namespace \<Rightarrow> bool" where
  "pool_owned ns \<longleftrightarrow> (\<exists>ow \<in> set (mOwnerReferences ns). rKind ow = KindNamespacePool)"

definition random_name :: "string \<Rightarrow> string" where
  "random_name sfx = ''ephemeral-'' @ strings_ToLower sfx"

text \<open>
  The random name has been drawn (or is the one under which the namespace was created that was
  asked for by this name), and the worker has written no namespace since.
\<close>

definition drawn :: "string \<Rightarrow> event list \<Rightarrow> bool" where
  "drawn n h \<longleftrightarrow> (\<exists>h1 sfx h2. h = h1 @ RandEv 6 sfx # h2 \<and> (\<forall>e \<in> set h2. bystander e) \<and>
     (n = random_name sfx \<or>
      (\<exists>x y. NsEv (Create x (Inr y)) \<in> set h2 \<and> mName x = random_name sfx \<and> mName y = n)))"

text \<open>
  A write is of an object that has been read when it carries its name and its resource version.
  It may keep the owners; or lend: after a listing showed the namespace as owned by a pool, it is
  read and given to the reservation that was read; or adopt: the namespace of a name just drawn
  is read and given to a pool. \<open>h\<close> are the calls the worker has made so far.
\<close>

definition same_object :: "namespace \<Rightarrow> namespace \<Rightarrow> bool" where
  "same_object x ns \<longleftrightarrow> mName x = mName ns \<and> mResourceVersion x = mResourceVersion ns"

definition keeps :: "event list \<Rightarrow> namespace \<Rightarrow> bool" where
  "keeps h x \<longleftrightarrow> (\<exists>k ns. NsEv (Get k (Inr ns)) \<in> set h \<and> same_object x ns \<and>
     mOwnerReferences x = mOwnerReferences ns)"

definition lends :: "event list \<Rightarrow> namespace \<Rightarrow> bool" where
  "lends h x \<longleftrightarrow> (\<exists>req res h1 opts items ready h2 ns. ResEv (Get req (Inr res)) \<in> set h \<and>
     h = h1 @ NsEv (ListAll opts (Inr items)) # h2 \<and> ready \<in> set items \<and> pool_owned ready \<and>
     NsEv (Get (cluster_key (mName ready)) (Inr ns)) \<in> set h2 \<and> (\<forall>e \<in> set h2. bystander e) \<and>
     same_object x ns \<and> mOwnerReferences x = [Reservation_MakeOwnerReference res])"

definition adopts :: "event list \<Rightarrow> namespace \<Rightarrow> bool" where
  "adopts h x \<longleftrightarrow> (\<exists>req pool n ns. PoolEv (Get req (Inr pool)) \<in> set h \<and> drawn n h \<and>
     NsEv (Get (cluster_key n) (Inr ns)) \<in> set h \<and> same_object x ns \<and>
     mOwnerReferences x = [Pool_MakeOwnerReference pool])"

fun owner_guard :: "worker \<Rightarrow> event list \<Rightarrow> event \<Rightarrow> bool" where
  "owner_guard v h (NsEv (Update x (Inr y))) \<longleftrightarrow>
     keeps h x \<or> v = Reservations \<and> lends h x \<or> v = Pools \<and> adopts h x"
| "owner_guard v h e \<longleftrightarrow> True"

lemma owner_guard_bystander: "bystander e \<Longrightarrow> owner_guard v h e"
  by (cases "(v, h, e)" rule: owner_guard.cases) auto

lemma follows_bystander: "emits bystander m \<Longrightarrow> follows (owner_guard v) m w"
  by (erule emits_follows) (rule owner_guard_bystander)

lemma read_bystander: "is_read e \<Longrightarrow> bystander e"
  by (cases e rule: bystander.cases) auto

lemma drawn_append:
  assumes "drawn n h" and "\<forall>e \<in> set tr. bystander e"
  shows "drawn n (h @ tr)"
proof -
  from assms(1) obtain h1 sfx h2 where "h = h1 @ RandEv 6 sfx # h2" "\<forall>e \<in> set h2. bystander e"
    "n = random_name sfx \<or>
      (\<exists>x y. NsEv (Create x (Inr y)) \<in> set h2 \<and> mName x = random_name sfx \<and> mName y = n)"
    unfolding drawn_def by blast
  with assms(2) show ?thesis
    unfolding drawn_def by (intro exI [of _ h1] exI [of _ sfx] exI [of _ "h2 @ tr"]) auto
qed

text \<open>What a run may write, it may write after earlier runs of the same worker.\<close>

lemma earlier_calls:
  "drawn n h \<Longrightarrow> drawn n (h0 @ h)" "keeps h x \<Longrightarrow> keeps (h0 @ h) x"
  "lends h x \<Longrightarrow> lends (h0 @ h) x" "adopts h x \<Longrightarrow> adopts (h0 @ h) x"
proof -
  show drawn: "drawn n h \<Longrightarrow> drawn n (h0 @ h)" for n
    unfolding drawn_def by (metis append.assoc)
  show "keeps h x \<Longrightarrow> keeps (h0 @ h) x"
    unfolding keeps_def by auto
  show "lends h x \<Longrightarrow> lends (h0 @ h) x"
    unfolding lends_def set_append Un_iff by (metis append.assoc)
  show "adopts h x \<Longrightarrow> adopts (h0 @ h) x"
    unfolding adopts_def set_append Un_iff using drawn by metis
qed

lemma owner_guard_earlier: "owner_guard v h e \<Longrightarrow> owner_guard v (h0 @ h) e"
  by (cases "(v, h, e)" rule: owner_guard.cases) (auto intro: earlier_calls)

interpretation standing_by_secrets: secret_policy bystander
  by unfold_locales (simp_all add: read_bystander)

interpretation standing_by_env: clowdenv_policy bystander
  by unfold_locales simp

interpretation standing_by_frontend: frontend_policy bystander
  by unfold_locales simp_all

interpretation standing_by_cleanup: cleanup_policy bystander
  by unfold_locales simp_all

section \<open>Writes that keep the owner\<close>

lemma guard_keeps:
  assumes "NsEv (Get k (Inr ns)) \<in> set h" and "same_object x ns"
    and "mOwnerReferences x = mOwnerReferences ns"
  shows "owner_guard v h (NsEv (Update x r))"
proof -
  from assms have "keeps h x" unfolding keeps_def by blast
  then show ?thesis by (cases r) simp_all
qed

lemma follows_UpdateAnnotations:
  assumes lib: "lib_ok E"
  shows "follows (owner_guard v) (UpdateAnnotations E n a) w"
proof -
  note read = follows_bystander [OF standing_by_secrets.emits_GetNamespace [OF lib]]
  have "follows (owner_guard v) (retry_on_conflict E (do {
       r \<leftarrow> GetNamespace E n;
       case r of
         Inl err \<Rightarrow> State_Monad.return
           (Some (Errorf ''error updating annotations for namespace'' (Some err)), zero_meta)
       | Inr namespace \<Rightarrow> (
           let namespace = namespace\<lparr>mAnnotations :=
                 utils_UpdateAnnotations E (mAnnotations namespace) a\<rparr>
           in do {
             u \<leftarrow> updateNs E namespace;
             State_Monad.return (case u of
                 Inl err \<Rightarrow> (Some (Errorf ''there was an issue updating annotations'' (Some err)),
                   namespace)
               | Inr updated \<Rightarrow> (None, updated))
           })
     })) w"
    by (rule follows_retry [where I = "\<lambda>_. True", OF lib_okD(2) [OF lib]])
      (auto intro!: wpI follows_bind_wp [OF read wp_GetNamespace [OF lib]] follows_intros
        guard_keeps simp: same_object_def)
  then show ?thesis
    unfolding UpdateAnnotations_def by (intro follows_intros)
qed

lemma follows_record_completion:
  assumes lib: "lib_ok E"
  shows "follows (owner_guard v) (record_completion E n) w"
  unfolding record_completion_def Let_def
  by (intro follows_bind_wp [OF follows_bystander [OF standing_by_secrets.emits_GetNamespace [OF lib]]
        wp_GetNamespace [OF lib]] follows_bind_wp [OF follows_k_call wp_k_call]
      follows_bind_wp [OF follows_UpdateAnnotations [OF lib] wp_UpdateAnnotations [OF lib]]
      follows_cases)
    (auto intro!: follows_intros intro: guard_keeps simp: same_object_def)

lemma follows_Clowdenv_Reconcile_owners:
  assumes "lib_ok E"
  shows "follows (owner_guard v) (Clowdenv_Reconcile E req) w"
  unfolding Clowdenv_Reconcile_def Let_def
  by (intro follows_intros follows_UpdateAnnotations follows_record_completion
      follows_bystander [OF standing_by_frontend.emits_CreateFrontendEnv] assms) simp


section \<open>The handover\<close>

text \<open>A pool has been shown as the owner, and no namespace written since.\<close>

definition shown_pooled :: "string \<Rightarrow> event list \<Rightarrow> bool" where
  "shown_pooled n h \<longleftrightarrow> (\<exists>h1 opts items ready h2. h = h1 @ NsEv (ListAll opts (Inr items)) # h2 \<and>
     ready \<in> set items \<and> pool_owned ready \<and> mName ready = n \<and> (\<forall>e \<in> set h2. bystander e))"

lemma shown_pooled_append:
  assumes "shown_pooled n h" and "\<forall>e \<in> set tr. bystander e"
  shows "shown_pooled n (h @ tr)"
proof -
  from assms(1) obtain h1 opts items ready h2 where "h = h1 @ NsEv (ListAll opts (Inr items)) # h2"
    "ready \<in> set items" "pool_owned ready" "mName ready = n" "\<forall>e \<in> set h2. bystander e"
    unfolding shown_pooled_def by blast
  with assms(2) show ?thesis
    unfolding shown_pooled_def
    by (intro exI [of _ h1] exI [of _ opts] exI [of _ items] exI [of _ ready] exI [of _ "h2 @ tr"]) auto
qed

text \<open>The reservation at hand is one that was read, as far as its owner reference goes.\<close>

definition read_res :: "reservation \<Rightarrow> event list \<Rightarrow> bool" where
  "read_res res h \<longleftrightarrow> (\<exists>req res0. ResEv (Get req (Inr res0)) \<in> set h \<and>
     Reservation_MakeOwnerReference res = Reservation_MakeOwnerReference res0)"

lemma read_res_append [simp]: "read_res res h \<Longrightarrow> read_res res (h @ tr)"
  by (auto simp: read_res_def)

lemma read_res_now: "read_res (default_pool res0) (h @ [ResEv (Get req (Inr res0))])"
  unfolding read_res_def default_pool_def Reservation_MakeOwnerReference_def
  by (intro exI [of _ req] exI [of _ res0]) auto

lemma emits_take_parts:
  "emits bystander (copy_reserved_secrets E n res)" "emits bystander (addRoleBindings E ns)"
  "emits bystander (verifyClowdEnvForReadyNs E n)" "emits bystander (ensure_finalizer E res)"
  "emits bystander (getExpirationTime E res)" "emits bystander (activate_reservation E n t res)"
proof -
  have "emits bystander (role_bindings_loop E ns rns)" for rns
    by (induction rns) (auto intro!: emits_intros)
  then show "emits bystander (addRoleBindings E ns)" by (simp add: addRoleBindings_def)
qed (auto simp: copy_reserved_secrets_def verifyClowdEnvForReadyNs_def GetClowdEnv_def
    ensure_finalizer_def getExpirationTime_def activate_reservation_def
    intro!: emits_intros standing_by_secrets.emits_CopySecretsFrom
    standing_by_secrets.emits_CopyReservationSecrets)

lemma guard_lends:
  assumes "shown_pooled n h" "read_res res h" and "\<forall>e \<in> set tr. bystander e"
  shows "owner_guard Reservations (h @ NsEv (Get (cluster_key n) (Inr ns)) # tr)
    (NsEv (Update (reserved_object res a ns) r))"
proof (cases r)
  case (Inr y)
  from assms(1) obtain h1 opts items ready h2 where list: "h = h1 @ NsEv (ListAll opts (Inr items)) # h2"
    "ready \<in> set items" "pool_owned ready" "mName ready = n" "\<forall>e \<in> set h2. bystander e"
    unfolding shown_pooled_def by blast
  from assms(2) obtain req res0 where res: "ResEv (Get req (Inr res0)) \<in> set h"
    "Reservation_MakeOwnerReference res = Reservation_MakeOwnerReference res0"
    unfolding read_res_def by blast
  have "lends (h @ NsEv (Get (cluster_key n) (Inr ns)) # tr) (reserved_object res a ns)"
    unfolding lends_def
    by (rule exI [of _ req], rule exI [of _ res0], rule exI [of _ h1], rule exI [of _ opts],
        rule exI [of _ items], rule exI [of _ ready],
        rule exI [of _ "h2 @ NsEv (Get (cluster_key n) (Inr ns)) # tr"], rule exI [of _ ns])
      (use list res assms(3) in \<open>auto simp: same_object_def reserved_object_def\<close>)
  with Inr show ?thesis by simp
qed simp

lemma follows_reserveNamespace:
  assumes "shown_pooled n (log w)" and "read_res res (log w)"
  shows "follows (owner_guard Reservations) (reserveNamespace E n res) w"
  unfolding reserveNamespace_def
  by (intro follows_bind_wp [OF follows_k_call wp_k_call]
      follows_bind_wp [OF follows_bystander [OF emits_take_parts(1)] wp_emits [OF emits_take_parts(1)]]
      follows_cases)
    (auto intro!: follows_intros follows_bystander [OF emits_take_parts(2)] guard_lends assms)

lemma follows_take_namespace_owners:
  assumes lib: "lib_ok E" and "shown_pooled n (log w)" and "read_res res (log w)"
  shows "follows (owner_guard Reservations) (take_namespace E n t res) w"
proof -
  have verify: "emits bystander (if psClowdEnvironment (poolSpec pool) \<noteq> None
      then verifyClowdEnvForReadyNs E n else State_Monad.return None)" for pool
    by (intro emits_intros emits_take_parts)
  have later: "shown_pooled n (log w @ PoolEv (Get k r) # tr)" if "\<forall>e \<in> set tr. bystander e" for k r tr
    by (rule shown_pooled_append [OF assms(2)]) (use that in auto)
  show ?thesis
    unfolding take_namespace_def
    by (intro follows_bind_wp [OF follows_k_call wp_k_call]
        follows_bind_wp [OF follows_bystander [OF verify] wp_emits [OF verify]]
        follows_bind [OF follows_reserveNamespace] follows_cases)
      (auto intro!: follows_intros follows_UpdateAnnotations [OF lib] later
        read_res_append [OF assms(3)] follows_bystander [OF emits_take_parts(6)])
qed

lemma listed_pooled:
  assumes "concat (map (\<lambda>ns. if offers p ns then replicate (pool_owners ns) ns else []) items) = ready # rest"
  shows "shown_pooled (mName ready) (h @ [NsEv (ListAll opts (Inr items))])"
proof -
  have "ready \<in> set (concat (map (\<lambda>ns. if offers p ns then replicate (pool_owners ns) ns else []) items))"
    by (simp add: assms)
  then have "ready \<in> set items" "pool_owned ready"
    by (auto simp: pool_owned_def pool_owners_def filter_empty_conv split: if_splits)
  then show ?thesis
    unfolding shown_pooled_def
    by (intro exI [of _ h] exI [of _ opts] exI [of _ items] exI [of _ ready] exI [of _ "[]"]) simp
qed

lemma follows_default_owners:
  assumes lib: "lib_ok E" and "read_res res (log w)"
  shows "follows (owner_guard Reservations) (reconcile_default E res) w"
proof -
  have listing: "emits bystander (GetReadyNamespaces E p)" for p
    by (rule standing_by_secrets.emits_GetReadyNamespaces)
  show ?thesis
    unfolding reconcile_default_def
    by (intro follows_bind_wp [OF follows_bystander [OF emits_take_parts(5)] wp_emits [OF emits_take_parts(5)]]
        follows_bind_wp [OF follows_bystander [OF listing] wp_GetReadyNamespaces] follows_cases)
      (auto intro!: follows_intros follows_take_namespace_owners [OF lib] listed_pooled
        listed_pooled [where h = "_ @ _", simplified] simp: assms(2))
qed

lemma follows_Reservation_Reconcile_owners:
  assumes lib: "lib_ok E"
  shows "follows (owner_guard Reservations) (Reservation_Reconcile E req) w"
proof -
  have cleanup: "emits bystander (handleCAPICleanup E res)" for res
    by (rule standing_by_cleanup.emits_handleCAPICleanup) simp
  have active: "emits bystander (reconcile_active E res)" for res
    unfolding reconcile_active_def by (auto intro!: emits_intros emits_take_parts)
  have default: "follows (owner_guard Reservations) (reconcile_default E (default_pool res0)) w1"
    if "read_res (default_pool res0) (log w1)" for res0 and w1 :: "'a world"
    by (rule follows_default_owners [OF lib that])
  have waiting: "follows (owner_guard Reservations) (reconcile_waiting E (default_pool res0)) w1"
    if "read_res (default_pool res0) (log w1)" for res0 and w1 :: "'a world"
    unfolding reconcile_waiting_def namespaceIsExpired_def
    by (intro follows_bind_wp [OF follows_bystander [OF emits_take_parts(5)] wp_emits [OF emits_take_parts(5)]]
        follows_bind_wp wp_bind [THEN iffD2] wp_k_call follows_cases)
      (auto intro!: follows_intros default simp: that)
  show ?thesis
    unfolding Reservation_Reconcile_def Let_def
    by (intro follows_bind_wp [OF follows_k_call wp_k_call] follows_cases)
      (auto intro!: follows_intros follows_bystander [OF cleanup] follows_bystander [OF active]
        default waiting read_res_now)
qed


section \<open>The adoption\<close>

lemma follows_CreateNamespace_owners: "follows (owner_guard v) (CreateNamespace E pool) w"
  unfolding CreateNamespace_def Let_def
  by (intro follows_intros) (simp_all add: owner_guard_bystander)

lemma wp_CreateNamespace_drawn:
  "wp (CreateNamespace E pool) (\<lambda>x w'. \<exists>tr. log w' = log w @ tr \<and> drawn (fst x) (log w')) w"
proof -
  have local: "drawn n (h @ [RandEv 6 sfx, NsEv (Create (zero_meta\<lparr>mName := random_name sfx\<rparr>) r)])"
    if "n = random_name sfx \<or> (\<exists>y. r = Inr y \<and> mName y = n)" for n h sfx r
    using that unfolding drawn_def
    by (intro exI [of _ h] exI [of _ sfx]
        exI [of _ "[NsEv (Create (zero_meta\<lparr>mName := random_name sfx\<rparr>) r)]"]) auto
  have project: "drawn (random_name sfx) (h @ [RandEv 6 sfx, ProjectEv (Create p q)])" for h sfx p q
    unfolding drawn_def
    by (intro exI [of _ h] exI [of _ sfx] exI [of _ "[ProjectEv (Create p q)]"]) simp
  show ?thesis
    unfolding CreateNamespace_def Let_def random_name_def [symmetric]
    by (intro wp_bind [THEN iffD2] wp_k_call wp_if)
      (auto simp: local project split: sum.split)
qed

lemma guard_adopts:
  assumes "drawn n h" and "PoolEv (Get req (Inr pool0)) \<in> set h"
    and "Pool_MakeOwnerReference pool = Pool_MakeOwnerReference pool0" and "\<forall>e \<in> set tr. bystander e"
  shows "owner_guard Pools (h @ tr @ [NsEv (Get (cluster_key n) (Inr ns))])
    (NsEv (Update (adopt_namespace E pool ns) r))"
proof (cases r)
  case (Inr y)
  have "drawn n (h @ tr @ [NsEv (Get (cluster_key n) (Inr ns))])"
    by (rule drawn_append) (use assms in auto)
  with assms(2,3) have "adopts (h @ tr @ [NsEv (Get (cluster_key n) (Inr ns))]) (adopt_namespace E pool ns)"
    unfolding adopts_def
    by (intro exI [of _ req] exI [of _ pool0] exI [of _ n] exI [of _ ns])
      (auto simp: adopt_namespace_def same_object_def)
  with Inr show ?thesis by simp
qed simp

lemma gets_bystander: "failed_gets n tr \<Longrightarrow> \<forall>e \<in> set tr. bystander e"
  by (auto simp: failed_gets_def)

text \<open>The pool at hand is one that was read, as far as its owner reference goes.\<close>

definition read_pool :: "pool \<Rightarrow> event list \<Rightarrow> bool" where
  "read_pool pool h \<longleftrightarrow> (\<exists>req pool0. PoolEv (Get req (Inr pool0)) \<in> set h \<and>
     Pool_MakeOwnerReference pool = Pool_MakeOwnerReference pool0)"

lemma read_pool_mono: "read_pool pool h \<Longrightarrow> set h \<subseteq> set h' \<Longrightarrow> read_pool pool h'"
  by (auto simp: read_pool_def)

lemma read_pool_append: "read_pool pool h \<Longrightarrow> read_pool pool (h @ tr)"
  by (erule read_pool_mono) simp

text \<open>What the reconciler of a pool knows while it sets a namespace up.\<close>

definition adopting :: "pool \<Rightarrow> string \<Rightarrow> event list \<Rightarrow> bool" where
  "adopting pool n h \<longleftrightarrow> drawn n h \<and> read_pool pool h"

lemma adopting_append: "adopting pool n h \<Longrightarrow> \<forall>e \<in> set tr. bystander e \<Longrightarrow> adopting pool n (h @ tr)"
  unfolding adopting_def by (simp add: drawn_append read_pool_append)

lemma guard_adopting:
  assumes "adopting pool n h" and "\<forall>e \<in> set tr. bystander e"
  shows "owner_guard Pools (h @ tr @ [NsEv (Get (cluster_key n) (Inr ns))])
    (NsEv (Update (adopt_namespace E pool ns) r))"
  using assms guard_adopts unfolding adopting_def read_pool_def by blast

lemma follows_adopt_step:
  assumes lib: "lib_ok E" and "adopting pool n (log w)"
  shows "follows (owner_guard Pools) (adopt_step E pool n) w"
  unfolding adopt_step_def
proof (rule follows_retry [where I = "\<lambda>w. adopting pool n (log w)", OF lib_okD(2) [OF lib] assms(2)])
  fix w :: "'a world"
  assume now: "adopting pool n (log w)"
  note read = follows_bystander [OF standing_by_secrets.emits_GetNamespace [OF lib]]
  have still: "adopting pool n (log w @ tr @ [NsEv (Get (cluster_key n) g)])"
    "adopting pool n (log w @ tr @ [NsEv (Get (cluster_key n) g), NsEv (Update x (Inl err))])"
    if "failed_gets n tr" for tr g x err
    by (rule adopting_append [OF now]; use gets_bystander [OF that] in auto)+
  let ?body = "do {
       r \<leftarrow> GetNamespace E n;
       case r of
         Inl err \<Rightarrow> State_Monad.return (Some (Errorf ''could not retrieve namespace'' (Some err)), zero_meta)
       | Inr ns \<Rightarrow> do {
           u \<leftarrow> updateNs E (adopt_namespace E pool ns);
           State_Monad.return (case u of
               Inl err \<Rightarrow> (Some err, adopt_namespace E pool ns)
             | Inr updated \<Rightarrow> (None, updated))
         }
     }"
  show "follows (owner_guard Pools) ?body w \<and>
      wp ?body (\<lambda>x w'. fst x \<noteq> None \<longrightarrow> adopting pool n (log w')) w"
    unfolding wp_bind
    by (intro conjI follows_bind_wp [OF read wp_GetNamespace [OF lib]] follows_cases
        wp_GetNamespace [OF lib] wp_intros wp_bind [THEN iffD2])
      (auto intro!: follows_intros guard_adopting [OF now] simp: still gets_bystander split: sum.splits)
qed

lemma follows_UpdateNamespaceResources_owners:
  assumes lib: "lib_ok E" and "adopting pool n (log w)"
  shows "follows (owner_guard Pools) (UpdateNamespaceResources E pool n) w"
proof -
  have quotas: "emits bystander (create_quotas_loop E qs n)" for qs
    by (induction qs) (auto intro!: emits_intros)
  show ?thesis
    unfolding UpdateNamespaceResources_def Let_def
    by (intro follows_intros follows_adopt_step assms follows_UpdateAnnotations
        follows_bystander [OF quotas] follows_bystander [OF standing_by_env.emits_CreateClowdEnv]
        follows_bystander [OF standing_by_secrets.emits_CopySecretsFrom]) simp
qed

lemma follows_increase_loop_owners:
  assumes lib: "lib_ok E" and "read_pool pool (log w)"
  shows "follows (owner_guard Pools) (increase_loop E pool k) w"
  using assms(2)
proof (induction k arbitrary: w)
  case (Suc k)
  have created: "adopting pool n (log w1) \<and> read_pool pool (log w1)"
    if "run_state (CreateNamespace E pool) w = ((n, err), w1)" for n err w1
    using wpD [OF wp_CreateNamespace_drawn that] Suc.prems
    by (auto simp: adopting_def intro: read_pool_mono)
  have filled: "read_pool pool (log w2)"
    if "run_state (UpdateNamespaceResources E pool n) w1 = (r, w2)" "read_pool pool (log w1)" for n r w1 w2
    using emits_grows [OF filling.emits_UpdateNamespaceResources [OF lib] that(1)] that(2)
    by (rule read_pool_mono [rotated])
  show ?case
    unfolding increase_loop.simps
    by (intro follows_intros follows_CreateNamespace_owners follows_UpdateNamespaceResources_owners [OF lib] Suc.IH)
      (auto intro: read_pool_append dest: created filled)
qed (simp add: follows_return)

lemma follows_deleteErrorNamespaces_owners:
  assumes lib: "lib_ok E"
  shows "follows (owner_guard v) (deleteErrorNamespaces E ns) w"
proof (induction ns arbitrary: w)
  case (Cons n ns)
  show ?case
    unfolding deleteErrorNamespaces.simps DeleteNamespace_def
    by (intro follows_intros follows_UpdateAnnotations Cons lib
        follows_bystander [OF standing_by_secrets.emits_GetNamespace]) simp
qed (simp add: follows_return)

lemma follows_decrease_loop_owners:
  assumes lib: "lib_ok E"
  shows "follows (owner_guard v) (decrease_loop E nss k) w"
proof (induction k arbitrary: w)
  case (Suc k)
  show ?case
    unfolding decrease_loop.simps mark_first_excess_find
    by (intro follows_intros follows_UpdateAnnotations Suc lib)
qed (simp add: follows_return)

lemma follows_resize_step_owners:
  assumes lib: "lib_ok E" and "read_pool pool (log w)"
  shows "follows (owner_guard Pools) (resize_step E pool) w"
  unfolding resize_step_def increaseReadyNamespacesQueue_def decreaseReadyNamespacesQueue_def Let_def
  by (intro follows_intros follows_increase_loop_owners follows_decrease_loop_owners
      follows_bystander [OF standing_by_secrets.emits_GetReadyNamespaces] assms)

lemma follows_Pool_Reconcile_owners:
  assumes lib: "lib_ok E"
  shows "follows (owner_guard Pools) (Pool_Reconcile E req) w"
proof -
  have status: "follows (owner_guard Pools) (getPoolStatus E p) w1" for p and w1 :: "'a world"
    unfolding getPoolStatus_unfold by (intro follows_intros) simp
  have pool: "read_pool p (log w2)"
    if "run_state (getPoolStatus E p0) w1 = (Inr (errs, p), w2)"
      "log w1 = h @ [PoolEv (Get req (Inr p0))]" for errs p p0 h and w1 w2 :: "'a world"
  proof -
    from that(2) have "listed_pool E req errs p (log w2)"
      by (intro getPoolStatus_listed [OF that(1)]) simp
    then obtain pool0 s where "PoolEv (Get req (Inr pool0)) \<in> set (log w2)" "p = pool0\<lparr>poolStatus := s\<rparr>"
      by (auto simp: listed_pool_def)
    then show ?thesis
      unfolding read_pool_def by (intro exI [of _ req] exI [of _ pool0]) (simp add: Pool_MakeOwnerReference_def)
  qed
  have deletes: "emits (\<lambda>_. True) (deleteErrorNamespaces E ns)" for ns
    by (induction ns) (auto intro!: emits_return emits_bind anything.emits_DeleteNamespace lib
        split: option.split)
  have kept: "read_pool p (log w2)"
    if "run_state (deleteErrorNamespaces E ns) w1 = (r, w2)" "read_pool p (log w1)"
    for ns r p and w1 w2 :: "'a world"
    using emits_grows [OF deletes that(1)] that(2) by (rule read_pool_mono [rotated])
  show ?thesis
    unfolding Pool_Reconcile_def
    by (intro follows_intros status follows_deleteErrorNamespaces_owners follows_resize_step_owners lib)
      (auto split: if_splits dest!: pool dest: kept)
qed

section \<open>All histories\<close>

lemma bystander_Poll:
  assumes "lib_ok E"
  shows "emits bystander (Poll E n)"
proof -
  have entry: "emits bystander (expire_entry E k)" for k
    unfolding expire_entry_def namespaceIsExpired_def by (auto intro!: emits_intros)
  have entries: "emits bystander (expire_loop E ks)" for ks
    by (induction ks) (auto intro!: emits_intros entry)
  have cycles: "emits bystander (poll_cycles E m)" for m
    by (induction m) (auto simp: poll_cycle_def intro!: emits_intros entries)
  have filling: "emits bystander (populate_loop E items)" for items
    by (induction items) (auto intro!: emits_intros)
  show ?thesis
    unfolding Poll_def populateActiveReservations_def getExistingReservations_def
    by (auto intro!: emits_intros cycles filling)
qed

lemma turn_guarded:
  assumes lib: "lib_ok E" and "turn E v (pre @ e # post)"
  shows "owner_guard v pre e"
proof (cases v)
  case Reservations
  with assms(2) obtain req w where "events (Reservation_Reconcile E req) w = pre @ e # post" by auto
  from follows_events [OF follows_Reservation_Reconcile_owners [OF lib] this] Reservations
  show ?thesis by simp
next
  case Pools
  with assms(2) obtain req w where "events (Pool_Reconcile E req) w = pre @ e # post" by auto
  from follows_events [OF follows_Pool_Reconcile_owners [OF lib] this] Pools show ?thesis by simp
next
  case Clowdenvs
  with assms(2) obtain req w where "events (Clowdenv_Reconcile E req) w = pre @ e # post" by auto
  from follows_events [OF follows_Clowdenv_Reconcile_owners [OF lib] this] show ?thesis .
next
  case ThePoller
  with assms(2) obtain n w where "events (Poll E n) w = pre @ e # post" by auto
  from follows_events [OF follows_bystander [OF bystander_Poll [OF lib]] this] show ?thesis .
qed

lemma turns_guarded:
  assumes "lib_ok E" and "\<forall>tr \<in> set runs. turn E v tr" and "concat runs = pre @ e # post"
  shows "owner_guard v pre e"
  using assms(2,3)
proof (induction runs arbitrary: pre)
  case (Cons tr runs)
  from Cons.prems(2) have "tr @ concat runs = pre @ e # post" by simp
  from append_split_elem [OF this] show ?case
  proof (elim disjE exE conjE)
    fix post'
    assume "tr = pre @ e # post'"
    with Cons.prems(1) show ?thesis by (auto intro: turn_guarded [OF assms(1)])
  next
    fix pre'
    assume "pre = tr @ pre'" "concat runs = pre' @ e # post"
    with Cons.IH [of pre'] Cons.prems(1) show ?thesis by (auto intro: owner_guard_earlier)
  qed
qed simp

lemma history_guarded:
  assumes "lib_ok E" and "side_by_side E H" and "H = pre @ (v, e) # post"
  shows "owner_guard v (calls v pre) e"
proof -
  from assms(2) obtain runs rest where "\<forall>tr \<in> set runs. turn E v tr" "concat runs = calls v H @ rest"
    unfolding side_by_side_def by blast
  with assms(3) turns_guarded [OF assms(1), of runs v "calls v pre" e] show ?thesis by simp
qed

section \<open>What the API server promises\<close>

text \<open>
  Two documented promises. A namespace that is asked for by its name has this name. And
  concurrency is optimistic: a resource version belongs to one state of an object, and an update
  is accepted only when the object still has the version it carries. Hence, while nobody else
  changes the owners of namespaces, an object that was read at this version, be it from a cache
  and long ago, shows the owners that the last accepted write of the operator stored. \<open>seen\<close>
  are the namespaces read by name so far, \<open>m\<close> the owners last stored for each name, none
  after the namespace is created anew. Nothing is said of what a listing or a read may show.
\<close>

fun honours_versions :: "namespace list \<Rightarrow> (string \<Rightarrow> owner_ref list option) \<Rightarrow> event list \<Rightarrow> bool" where
  "honours_versions seen m [] \<longleftrightarrow> True"
| "honours_versions seen m (NsEv (Get k (Inr ns)) # h) \<longleftrightarrow>
     mName ns = snd k \<and> honours_versions (ns # seen) m h"
| "honours_versions seen m (NsEv (Update x (Inr y)) # h) \<longleftrightarrow>
     (case m (mName x) of None \<Rightarrow> True
      | Some os \<Rightarrow> list_all (\<lambda>ns. same_object x ns \<longrightarrow> mOwnerReferences ns = os) seen) \<and>
     honours_versions seen (m(mName x \<mapsto> mOwnerReferences x)) h"
| "honours_versions seen m (NsEv (Create x (Inr y)) # h) \<longleftrightarrow> honours_versions seen (m(mName x := None)) h"
| "honours_versions seen m (ProjectEv (Create x (Inr y)) # h) \<longleftrightarrow>
     honours_versions seen (m(mName x := None)) h"
| "honours_versions seen m (e # h) \<longleftrightarrow> honours_versions seen m h"

definition optimistic_owners :: "history \<Rightarrow> bool" where
  "optimistic_owners H \<longleftrightarrow> honours_versions [] Map.empty (map snd H)"

text \<open>The calls that can change what is stored for a name.\<close>

fun stores_owners :: "string \<Rightarrow> event \<Rightarrow> owner_ref list option" where
  "stores_owners n (NsEv (Update x (Inr y))) = (if mName x = n then Some (mOwnerReferences x) else None)"
| "stores_owners n _ = None"

fun creates_named :: "string \<Rightarrow> event \<Rightarrow> bool" where
  "creates_named n (NsEv (Create x (Inr y))) \<longleftrightarrow> mName x = n"
| "creates_named n (ProjectEv (Create x (Inr y))) \<longleftrightarrow> mName x = n"
| "creates_named n _ \<longleftrightarrow> False"

fun seen_in :: "event list \<Rightarrow> namespace list" where
  "seen_in [] = []"
| "seen_in (NsEv (Get k (Inr ns)) # h) = seen_in h @ [ns]"
| "seen_in (e # h) = seen_in h"

lemma seen_in_set: "NsEv (Get k (Inr ns)) \<in> set h \<Longrightarrow> ns \<in> set (seen_in h)"
  by (induction h rule: seen_in.induct) auto

lemma honours_append:
  "honours_versions seen m (h @ h') \<Longrightarrow> \<exists>m'. honours_versions (seen_in h @ seen) m' h'"
  by (induction seen m h rule: honours_versions.induct) auto

lemma honours_kept:
  assumes "honours_versions seen m (h @ h')" and "m n = Some os"
    and "\<forall>e \<in> set h. \<not> creates_named n e \<and> stores_owners n e \<in> {None, Some os}"
  shows "\<exists>m'. honours_versions (seen_in h @ seen) m' h' \<and> m' n = Some os"
  using assms
proof (induction seen m h rule: honours_versions.induct)
  case (3 seen m x y h)
  have "\<exists>m'. honours_versions (seen_in h @ seen) m' h' \<and> m' n = Some os"
    by (rule "3.IH") (use "3.prems" in \<open>auto simp: fun_upd_def split: if_splits\<close>)
  then show ?case by simp
next
  case (4 seen m x y h)
  have "\<exists>m'. honours_versions (seen_in h @ seen) m' h' \<and> m' n = Some os"
    by (rule "4.IH") (use "4.prems" in \<open>auto simp: fun_upd_def split: if_splits\<close>)
  then show ?case by simp
next
  case (5 seen m x y h)
  have "\<exists>m'. honours_versions (seen_in h @ seen) m' h' \<and> m' n = Some os"
    by (rule "5.IH") (use "5.prems" in \<open>auto simp: fun_upd_def split: if_splits\<close>)
  then show ?case by simp
qed auto

lemma honours_named: "honours_versions seen m h \<Longrightarrow> NsEv (Get k (Inr ns)) \<in> set h \<Longrightarrow> mName ns = snd k"
  by (induction seen m h rule: honours_versions.induct) auto

text \<open>What is read before a second write with the current version shows the owners of the first.\<close>

lemma current_owners:
  assumes "optimistic_owners (h1 @ (u, NsEv (Update x (Inr y))) # h2 @ (v, NsEv (Update x' (Inr y'))) # h3)"
    and "mName x' = mName x" and "\<forall>c \<in> set h2. \<not> creates_named (mName x) (snd c)"
    and "\<forall>c \<in> set h2. stores_owners (mName x) (snd c) \<in> {None, Some (mOwnerReferences x)}"
    and "(t, NsEv (Get k (Inr ns))) \<in> set (h1 @ h2)" and "same_object x' ns"
  shows "mOwnerReferences ns = mOwnerReferences x"
proof -
  let ?es1 = "map snd h1" and ?es2 = "map snd h2"
  from assms(1) have "honours_versions [] Map.empty
      (?es1 @ NsEv (Update x (Inr y)) # ?es2 @ NsEv (Update x' (Inr y')) # map snd h3)"
    by (simp add: optimistic_owners_def)
  from honours_append [OF this] obtain m where
    "honours_versions (seen_in ?es1) (m(mName x \<mapsto> mOwnerReferences x))
      (?es2 @ NsEv (Update x' (Inr y')) # map snd h3)" by auto
  from honours_kept [OF this, of "mName x" "mOwnerReferences x"] assms(3,4) obtain m' where
    "honours_versions (seen_in ?es2 @ seen_in ?es1) m' (NsEv (Update x' (Inr y')) # map snd h3)"
    "m' (mName x) = Some (mOwnerReferences x)" by auto
  with assms(2,6) have "ns \<in> set (seen_in ?es2 @ seen_in ?es1) \<Longrightarrow> ?thesis"
    by (auto simp: list_all_iff)
  moreover from assms(5) have "NsEv (Get k (Inr ns)) \<in> set ?es1 \<or> NsEv (Get k (Inr ns)) \<in> set ?es2"
    by (auto dest: in_history simp del: set_map)
  then have "ns \<in> set (seen_in ?es2 @ seen_in ?es1)"
    using seen_in_set [of k ns ?es1] seen_in_set [of k ns ?es2] by auto
  ultimately show ?thesis by blast
qed

lemma listed_after:
  assumes "calls v (h1 @ (v, e) # h2) = l1 @ l # l2" and "e \<notin> set l2" and "e \<noteq> l"
  shows "(v, l) \<in> set h2"
proof -
  from assms have "l \<in> set (calls v h2)"
    by (auto simp: append_eq_append_conv2 Cons_eq_append_conv append_eq_Cons_conv)
  then show ?thesis by (simp add: in_calls)
qed

section \<open>Properties\<close>

text \<open>
  C3. How the owner of a namespace may change. In every history of the workers side by side, call
  by call, each accepted write of a namespace is of an object the worker has read, and keeps the
  owners it was read with; or the reservation worker gives it to a reservation it has read, after
  a listing that showed a pool as the owner; or the pool worker gives it to a pool it has read,
  for a name it has drawn; in the last two cases the worker wrote no namespace in between.
\<close>

theorem ownership_changes:
  assumes "lib_ok E" and "side_by_side E H"
    and "H = pre @ (v, NsEv (Update x (Inr y))) # post"
  shows "keeps (calls v pre) x \<or> v = Reservations \<and> lends (calls v pre) x \<or>
    v = Pools \<and> adopts (calls v pre) x"
  using history_guarded [OF assms] by simp

text \<open>
  C2. When a lent namespace gets another owner. Take any history of the workers side by side, on
  an API server with optimistic concurrency and with nobody else changing owners, but with
  caches that may be stale. Let the reservation worker write a namespace, to lend it for instance,
  and consider the first accepted write after it that stores other owners. Then the namespace
  was created anew in between, or the write is one of the pool worker, for a name it has drawn
  itself; or it is one of the reservation worker, and a listing that was answered to it after the
  lending still showed a pool as the owner. With listings that are current, a namespace whose
  name is not drawn again is not lent twice.
\<close>

theorem lent_namespace_stays:
  assumes "lib_ok E" and "side_by_side E H" and "optimistic_owners H"
    and "H = h1 @ (Reservations, NsEv (Update x (Inr y))) # h2 @ (v, NsEv (Update x' (Inr y'))) # h3"
    and "mName x' = mName x" and "mOwnerReferences x' \<noteq> mOwnerReferences x"
    and "\<forall>c \<in> set h2. stores_owners (mName x) (snd c) \<in> {None, Some (mOwnerReferences x)}"
  shows "(\<exists>c \<in> set h2. creates_named (mName x) (snd c)) \<or>
    v = Pools \<and> drawn (mName x) (calls Pools (h1 @ h2)) \<or>
    v = Reservations \<and> (\<exists>opts items ready. (Reservations, NsEv (ListAll opts (Inr items))) \<in> set h2 \<and>
      ready \<in> set items \<and> mName ready = mName x \<and> pool_owned ready)"
proof (cases "\<exists>c \<in> set h2. creates_named (mName x) (snd c)")
  case False
  let ?w = "NsEv (Update x (Inr y))"
  let ?h = "h1 @ (Reservations, ?w) # h2"
  have current: "mName ns = snd k" "same_object x' ns \<Longrightarrow> mOwnerReferences ns = mOwnerReferences x"
    if "NsEv (Get k (Inr ns)) \<in> set (calls v ?h)" for k ns
  proof -
    from that have seen: "(v, NsEv (Get k (Inr ns))) \<in> set (h1 @ h2)"
      by (auto simp: in_calls [symmetric] split: if_splits)
    then have "NsEv (Get k (Inr ns)) \<in> set (map snd H)"
      by (intro in_history [of v]) (auto simp: assms(4))
    with assms(3) show "mName ns = snd k"
      unfolding optimistic_owners_def by (rule honours_named)
    show "mOwnerReferences ns = mOwnerReferences x" if "same_object x' ns"
      by (rule current_owners [OF assms(3) [unfolded assms(4)] assms(5) _ assms(7) seen that])
        (use False in blast)
  qed
  have "keeps (calls v ?h) x' \<or> v = Reservations \<and> lends (calls v ?h) x' \<or>
      v = Pools \<and> adopts (calls v ?h) x'"
    using history_guarded [OF assms(1,2), of ?h v "NsEv (Update x' (Inr y'))" h3] assms(4) by simp
  then show ?thesis
  proof (elim disjE conjE)
    assume "keeps (calls v ?h) x'"
    then obtain k ns where "NsEv (Get k (Inr ns)) \<in> set (calls v ?h)" "same_object x' ns"
      "mOwnerReferences x' = mOwnerReferences ns" unfolding keeps_def by blast
    with current(2) assms(6) show ?thesis by metis
  next
    assume v: "v = Reservations" and "lends (calls v ?h) x'"
    then obtain l1 opts items ready l2 ns where
      l: "calls v ?h = l1 @ NsEv (ListAll opts (Inr items)) # l2" "\<forall>e \<in> set l2. bystander e" and
      ready: "ready \<in> set items" "pool_owned ready" "same_object x' ns"
        "NsEv (Get (cluster_key (mName ready)) (Inr ns)) \<in> set l2"
      unfolding lends_def by blast
    from l(2) have "?w \<notin> set l2" by auto
    with listed_after [OF l(1) [unfolded v]] have "(Reservations, NsEv (ListAll opts (Inr items))) \<in> set h2"
      by simp
    moreover have "NsEv (Get (cluster_key (mName ready)) (Inr ns)) \<in> set (calls v ?h)"
      unfolding l(1) using ready(4) by simp
    from current(1) [OF this] have "mName ready = mName x"
      using ready(3) assms(5) by (simp add: same_object_def cluster_key_def)
    ultimately show ?thesis using v ready(1,2) by blast
  next
    assume v: "v = Pools" and "adopts (calls v ?h) x'"
    then obtain n ns where n: "drawn n (calls v ?h)" "same_object x' ns"
      "NsEv (Get (cluster_key n) (Inr ns)) \<in> set (calls v ?h)" unfolding adopts_def by blast
    with current(1) [OF n(3)] assms(5) have "n = mName x"
      by (simp add: same_object_def cluster_key_def)
    with n(1) v show ?thesis by simp
  qed
qed blast

end
