(* ===== verification/Table_Freshness.thy ===== *)
theory Table_Freshness
  imports Reservation_Deletes
begin

text \<open>
  How old an entry of the table of active reservations can be: the reservation controller enters
  an expiration just before it writes it to the status, so the entry of a name is the expiration
  in the last such write.
\<close>

section \<open>The last expiration written\<close>

definition active_write :: "string \<Rightarrow> event \<Rightarrow> bool" where
  "active_write k e \<longleftrightarrow>
     (\<exists>x r. e = ResEv (StatusUpdate x r) \<and> mName x = k \<and> state_of x = ''active'')"

definition last_written :: "string \<Rightarrow> time \<Rightarrow> event list \<Rightarrow> bool" where
  "last_written k v h \<longleftrightarrow> (\<exists>pre x r post. h = pre @ ResEv (StatusUpdate x r) # post \<and>
     mName x = k \<and> rsExpiration (resStatus x) = v \<and> (\<forall>e \<in> set post. \<not> active_write k e))"

lemma last_written_append:
  "last_written k v h \<Longrightarrow> \<forall>e \<in> set tr. \<not> active_write k e \<Longrightarrow> last_written k v (h @ tr)"
  "last_written k v tr \<Longrightarrow> last_written k v (h @ tr)"
proof -
  show "last_written k v (h @ tr)" if "last_written k v h" "\<forall>e \<in> set tr. \<not> active_write k e"
  proof -
    from that(1) obtain pre x r post where "h = pre @ ResEv (StatusUpdate x r) # post" "mName x = k"
      "rsExpiration (resStatus x) = v" "\<forall>e \<in> set post. \<not> active_write k e"
      unfolding last_written_def by blast
    with that(2) show ?thesis
      unfolding last_written_def
      by (intro exI [of _ pre] exI [of _ x] exI [of _ r] exI [of _ "post @ tr"]) auto
  qed
  show "last_written k v (h @ tr)" if "last_written k v tr"
    using that unfolding last_written_def by (metis append.assoc)
qed

definition idle :: "event \<Rightarrow> bool" where
  "idle e \<longleftrightarrow> (\<forall>k. \<not> active_write k e)"

lemma idle_simps [simp]:
  "is_read e \<Longrightarrow> idle e" "idle (NsEv na)" "idle (SecretEv sa)" "idle (RoleBindingEv ba)"
  "idle (ClusterEv ca)" "idle (RosaEv ra)" "idle (ResEv (Update x r))" "idle (ResEv (Delete x d))"
  "idle (ResEv (StatusUpdate x u)) \<longleftrightarrow> state_of x \<noteq> ''active''"
  by (auto simp: idle_def active_write_def)

interpretation idle_reserve: reserve_policy idle
  by unfold_locales simp_all

interpretation idle_cleanup: cleanup_policy idle
  by unfold_locales simp_all

section \<open>Computations that keep the table up to date\<close>

definition tracks :: "'s world \<Rightarrow> 's world \<Rightarrow> bool" where
  "tracks w w' \<longleftrightarrow> (\<exists>tr. log w' = log w @ tr \<and> (\<forall>k v. map_of (active w') k = Some v \<longrightarrow>
     last_written k v tr \<or> map_of (active w) k = Some v \<and> (\<forall>e \<in> set tr. \<not> active_write k e)))"

lemma tracks_refl: "tracks w w"
  by (simp add: tracks_def)

lemma tracks_trans:
  assumes "tracks w w1" and "tracks w1 w2"
  shows "tracks w w2"
proof -
  from assms obtain tr tr' where tr: "log w1 = log w @ tr" "log w2 = log w1 @ tr'"
    "\<And>k v. map_of (active w1) k = Some v \<Longrightarrow> last_written k v tr \<or>
      map_of (active w) k = Some v \<and> (\<forall>e \<in> set tr. \<not> active_write k e)"
    "\<And>k v. map_of (active w2) k = Some v \<Longrightarrow> last_written k v tr' \<or>
      map_of (active w1) k = Some v \<and> (\<forall>e \<in> set tr'. \<not> active_write k e)"
    unfolding tracks_def by auto
  have "last_written k v (tr @ tr') \<or>
      map_of (active w) k = Some v \<and> (\<forall>e \<in> set (tr @ tr'). \<not> active_write k e)"
    if "map_of (active w2) k = Some v" for k v
    using tr(4) [OF that] tr(3) [of k v] last_written_append [of k v] by auto
  with tr(1,2) show ?thesis
    unfolding tracks_def by (intro exI [of _ "tr @ tr'"]) simp
qed

definition tracking :: "('s world, 'a) state \<Rightarrow> bool" where
  "tracking m \<longleftrightarrow> (\<forall>w. tracks w (snd (run_state m w)))"

named_theorems tracking_intros \<open>rules for computations that keep the table up to date\<close>

lemma tracking_return [tracking_intros]: "tracking (State_Monad.return x)"
  by (simp add: tracking_def tracks_refl)

lemma tracking_bind [tracking_intros]:
  assumes "tracking m" and "\<And>x. tracking (f x)"
  shows "tracking (State_Monad.bind m f)"
  unfolding tracking_def
proof
  fix w :: "'a world"
  obtain x w1 where "run_state m w = (x, w1)" by fastforce
  with assms tracks_trans [of w w1 "snd (run_state (f x) w1)"]
  show "tracks w (snd (run_state (State_Monad.bind m f) w))"
    unfolding tracking_def by (metis run_state_bind prod.case snd_conv)
qed

lemma tracking_calm: "calm m \<Longrightarrow> emits idle m \<Longrightarrow> tracking m"
  unfolding tracking_def tracks_def calm_def emits_iff idle_def by metis

lemma tracking_k_call [tracking_intros]: "(\<And>r. idle (ev r)) \<Longrightarrow> tracking (k_call f ev)"
  by (intro tracking_calm calm_k_call emits_k_call)

lemma tracking_get_active [tracking_intros]: "tracking get_active"
  by (simp add: tracking_def tracks_refl)

lemma tracking_if [tracking_intros]:
  "(b \<Longrightarrow> tracking m) \<Longrightarrow> (\<not> b \<Longrightarrow> tracking n) \<Longrightarrow> tracking (if b then m else n)"
  by simp

lemma tracking_cases [tracking_intros]:
  "(\<And>e. x = Inl e \<Longrightarrow> tracking (f e)) \<Longrightarrow> (\<And>y. x = Inr y \<Longrightarrow> tracking (g y)) \<Longrightarrow>
    tracking (case x of Inl e \<Rightarrow> f e | Inr y \<Rightarrow> g y)"
  "(u = None \<Longrightarrow> tracking m) \<Longrightarrow> (\<And>z. u = Some z \<Longrightarrow> tracking (h z)) \<Longrightarrow>
    tracking (case u of None \<Rightarrow> m | Some z \<Rightarrow> h z)"
  "(\<And>y. v = Returned y \<Longrightarrow> tracking (p y)) \<Longrightarrow> (v = Panicked \<Longrightarrow> tracking q) \<Longrightarrow>
    tracking (case v of Returned y \<Rightarrow> p y | Panicked \<Rightarrow> q)"
  "(l = [] \<Longrightarrow> tracking m) \<Longrightarrow> (\<And>a as. l = a # as \<Longrightarrow> tracking (j a as)) \<Longrightarrow>
    tracking (case l of [] \<Rightarrow> m | a # as \<Rightarrow> j a as)"
  by (cases x; cases u; cases v; cases l; simp)+

lemma tracking_let [tracking_intros]: "tracking (f x) \<Longrightarrow> tracking (let y = x in f y)"
  by simp

text \<open>An entry is set, then written: the only place where one changes.\<close>

lemma tracking_status:
  assumes "\<And>r. tracking (f r)"
  shows "tracking (put_active (mName x) (rsExpiration (resStatus x)) \<bind> (\<lambda>_. statusRes E x \<bind> f))"
  unfolding tracking_def
proof
  fix w :: "'a world"
  let ?w = "w\<lparr>active := AList.update (mName x) (rsExpiration (resStatus x)) (active w)\<rparr>"
  obtain r w1 where 1: "run_state (statusRes E x) ?w = (r, w1)" by fastforce
  have "tracks w w1"
    unfolding tracks_def
  proof (intro exI [of _ "[ResEv (StatusUpdate x r)]"] conjI allI impI)
    show "log w1 = log w @ [ResEv (StatusUpdate x r)]" using 1 by auto
    fix k v
    assume "map_of (active w1) k = Some v"
    then have "(if k = mName x then Some (rsExpiration (resStatus x)) else map_of (active w) k) = Some v"
      using 1 by (auto simp: active_table.look_put)
    then show "last_written k v [ResEv (StatusUpdate x r)] \<or> map_of (active w) k = Some v \<and>
        (\<forall>e \<in> set [ResEv (StatusUpdate x r)]. \<not> active_write k e)"
      by (auto simp: last_written_def active_write_def Cons_eq_append_conv split: if_splits)
  qed
  moreover have "tracks w1 (snd (run_state (f r) w1))"
    using assms unfolding tracking_def by blast
  ultimately have "tracks w (snd (run_state (f r) w1))" by (rule tracks_trans)
  moreover have "run_state (put_active (mName x) (rsExpiration (resStatus x)) \<bind>
      (\<lambda>_. statusRes E x \<bind> f)) w = run_state (f r) w1"
    unfolding run_state_bind run_active prod.case 1 ..
  ultimately show "tracks w (snd (run_state
      (put_active (mName x) (rsExpiration (resStatus x)) \<bind> (\<lambda>_. statusRes E x \<bind> f)) w))"
    by simp
qed

section \<open>The reservation controller\<close>

lemma tracking_parts [tracking_intros]:
  "tracking (ensure_finalizer E res)" "tracking (getExpirationTime E res)"
  "tracking (verifyClowdEnvForReadyNs E n)" "tracking (reserveNamespace E n res)"
  "tracking (GetReadyNamespaces E p)" "tracking (namespaceIsExpired E t)"
proof -
  show "tracking (ensure_finalizer E res)" "tracking (getExpirationTime E res)"
    "tracking (verifyClowdEnvForReadyNs E n)" "tracking (namespaceIsExpired E t)"
    unfolding ensure_finalizer_def getExpirationTime_def verifyClowdEnvForReadyNs_def GetClowdEnv_def
      namespaceIsExpired_def case_prod_beta
    by (intro tracking_intros; simp)+
  show "tracking (reserveNamespace E n res)"
    by (intro tracking_calm calm_reserveNamespace idle_reserve.emits_reserveNamespace)
  show "tracking (GetReadyNamespaces E p)"
    unfolding GetReadyNamespaces_def Let_def by (intro tracking_intros; simp)
qed

lemma tracking_activate: "tracking (activate_reservation E n t res)"
proof -
  have x: "mName (active_status n t res) = mName res"
    "rsExpiration (resStatus (active_status n t res)) = t" by (simp_all add: active_status_def)
  show ?thesis
    unfolding activate_reservation_def
    by (rule tracking_status [where x = "active_status n t res", unfolded x])
      (intro tracking_intros; simp)
qed

lemma tracking_take: "lib_ok E \<Longrightarrow> tracking (take_namespace E n t res)"
  unfolding take_namespace_def
  by (intro tracking_intros tracking_activate
      tracking_calm [OF calm_UpdateAnnotations idle_reserve.emits_UpdateAnnotations]; simp)

lemma tracking_default: "lib_ok E \<Longrightarrow> tracking (reconcile_default E res)"
  unfolding reconcile_default_def by (intro tracking_intros tracking_take; simp)

lemma tracking_active: "tracking (reconcile_active E res)"
proof -
  have refresh: "tracking (put_active (mName x) t \<bind> (\<lambda>_.
      statusRes E (x\<lparr>resStatus := (resStatus x)\<lparr>rsExpiration := t\<rparr>\<rparr>) \<bind> f))"
    if "\<And>r. tracking (f r)" for x t and f :: "gerr + reservation \<Rightarrow> ('a world, reconcile_result outcome) state"
    using tracking_status [OF that, where x = "x\<lparr>resStatus := (resStatus x)\<lparr>rsExpiration := t\<rparr>\<rparr>"]
    by simp
  show ?thesis
    unfolding reconcile_active_def
    by (intro refresh tracking_cases tracking_parts tracking_return tracking_get_active
        tracking_bind [OF tracking_parts(1)] tracking_bind [OF tracking_parts(2)]
        tracking_bind [OF tracking_get_active] tracking_bind [OF tracking_k_call]; simp)
qed

lemma tracking_Reservation_Reconcile:
  assumes "lib_ok E"
  shows "tracking (Reservation_Reconcile E req)"
proof -
  have "emits idle (handleCAPICleanup E res)" for res
    by (rule idle_cleanup.emits_handleCAPICleanup) simp
  from tracking_calm [OF calm_handleCAPICleanup this] show ?thesis
    unfolding Reservation_Reconcile_def reconcile_waiting_def Let_def
    by (intro tracking_intros tracking_default tracking_active assms; simp add: assms)
qed

end
