(* ===== verification/Interleaving.thy ===== *)
theory Interleaving
  imports Operator Table_Freshness
begin

text \<open>
  The poller as a thread: its loop broken into the steps between which the reservation
  controller can change the shared map and anyone the cluster. \<open>Operator\<close> takes a cycle of the
  poller as one step; here the calls of \<open>expire_entry\<close> are steps of their own. What is proved of
  all runs holds for the finer ones, and the runs of \<open>Operator\<close> are among them.
\<close>

section \<open>The steps of the poller\<close>

text \<open>
  Where \<open>Poll\<close> stands: before the listing; filling the table with what was listed; in the range
  loop between two entries; with an entry found expired; with the entry dropped; with the
  reservation read; after the delete; or ended, when the listing failed.
\<close>

datatype pc =
    Waiting
  | Filling "reservation list"
  | Ranging
  | Judged string
  | Dropped string
  | Fetched string "gerr + reservation"
  | Erased
  | Stopped

text \<open>
  A Go map may change while it is ranged over: an entry that is gone is not produced, one that
  is added may be. \<open>visit_entry\<close> therefore takes any entry that is present; the end of a cycle and
  its sleep may come between any two visits.
\<close>

inductive poller_step :: "'s env \<Rightarrow> pc \<Rightarrow> 's world \<Rightarrow> pc \<Rightarrow> 's world \<Rightarrow> bool" for E where
  list_failed: "run_state (getExistingReservations E) w = (Inl err, w') \<Longrightarrow>
    poller_step E Waiting w Stopped w'"
| initial_sleep: "run_state (time_Sleep E (30 * Second)) w = (u, w') \<Longrightarrow>
    poller_step E Waiting w Waiting w'"
| listed: "run_state (getExistingReservations E) w = (Inr items, w') \<Longrightarrow>
    poller_step E Waiting w (Filling items) w'"
| fill_entry: "run_state (populate_loop E [res]) w = (u, w') \<Longrightarrow>
    poller_step E (Filling (res # rest)) w (Filling rest) w'"
| filled: "poller_step E (Filling []) w Ranging w"
| visit_entry: "map_of (active w) k = Some v \<Longrightarrow> run_state (namespaceIsExpired E v) w = (b, w') \<Longrightarrow>
    poller_step E Ranging w (if b then Judged k else Ranging) w'"
| drop_entry: "run_state (del_active k) w = (u, w') \<Longrightarrow>
    poller_step E (Judged k) w (Dropped k) w'"
| fetch: "run_state (getRes E (cluster_key k)) w = (g, w') \<Longrightarrow>
    poller_step E (Dropped k) w (Fetched k g) w'"
| erase: "run_state (deleteRes E (delete_target g)) w = (d, w') \<Longrightarrow>
    poller_step E (Fetched k g) w Erased w'"
| report: "run_state (emit_metric (With activeReservationTotalMetrics
    [(''controller'', ''namespacereservation'')] (SetTo (Count (length (active w)))))) w = (u, w') \<Longrightarrow>
    poller_step E Erased w Ranging w'"
| choose_order: "run_state (range_keys E (map fst (active w))) w = (ks, w') \<Longrightarrow>
    poller_step E Ranging w Ranging w'"
| rest: "run_state (time_Sleep E (PollCycle * Second)) w = (u, w') \<Longrightarrow>
    poller_step E Ranging w Ranging w'"

inductive_cases poller_stepE: "poller_step E p w p' w'"

text \<open>Runs: the poller takes its steps, the reconcilers and other actors come in between.\<close>

inductive concurrent :: "'s env \<Rightarrow> pc \<Rightarrow> 's world \<Rightarrow> bool" for E where
  start: "active w = [] \<Longrightarrow> log w = [] \<Longrightarrow> concurrent E Waiting w"
| others: "concurrent E p w \<Longrightarrow> concurrent E p (w\<lparr>srv := s\<rparr>)"
| reservation: "concurrent E p w \<Longrightarrow> run_state (Reservation_Reconcile E req) w = (ro, w') \<Longrightarrow>
    concurrent E p w'"
| pool: "concurrent E p w \<Longrightarrow> run_state (Pool_Reconcile E req) w = (rr, w') \<Longrightarrow> concurrent E p w'"
| clowdenv: "concurrent E p w \<Longrightarrow> run_state (Clowdenv_Reconcile E req) w = (rr, w') \<Longrightarrow>
    concurrent E p w'"
| poller: "concurrent E p w \<Longrightarrow> poller_step E p w p' w' \<Longrightarrow> concurrent E p' w'"

text \<open>A visit, a cycle and the filling without interruption.\<close>

lemma run_cases: obtains x w' where "run_state m w = (x, w')"
  by (cases "run_state m w")

lemma concurrent_expire_entry:
  assumes "concurrent E Ranging w" and "run_state (expire_entry E k) w = (u, w')"
  shows "concurrent E Ranging w'"
proof (cases "map_of (active w) k")
  case None
  with assms show ?thesis by (simp add: expire_entry_def)
next
  case (Some v)
  obtain b w1 where 1: "run_state (namespaceIsExpired E v) w = (b, w1)" by (rule run_cases)
  note judged = concurrent.poller [OF assms(1) poller_step.visit_entry [OF Some 1]]
  show ?thesis
  proof (cases b)
    case False
    with Some 1 judged assms(2) show ?thesis by (simp add: expire_entry_def)
  next
    case True
    obtain u2 w2 where 2: "run_state (del_active k) w1 = (u2, w2)" by (rule run_cases)
    obtain g w3 where 3: "run_state (getRes E (cluster_key k)) w2 = (g, w3)" by (rule run_cases)
    obtain d w4 where 4: "run_state (deleteRes E (delete_target g)) w3 = (d, w4)" by (rule run_cases)
    obtain u5 w5 where 5:
      "run_state (emit_metric (With activeReservationTotalMetrics
        [(''controller'', ''namespacereservation'')] (SetTo (Count (length (active w4)))))) w4 = (u5, w5)"
      by (rule run_cases)
    from judged True have "concurrent E (Judged k) w1" by simp
    note chain = concurrent.poller [OF this poller_step.drop_entry [OF 2]]
    note chain = concurrent.poller [OF chain poller_step.fetch [OF 3]]
    note chain = concurrent.poller [OF chain poller_step.erase [OF 4]]
    note chain = concurrent.poller [OF chain poller_step.report [OF 5]]
    have "w' = w5"
      using assms(2) Some 1 2 3 4 5 True by (auto simp: expire_entry_def delete_target_def)
    with chain show ?thesis by simp
  qed
qed

lemma concurrent_expire_loop:
  "concurrent E Ranging w \<Longrightarrow> run_state (expire_loop E ks) w = (u, w') \<Longrightarrow> concurrent E Ranging w'"
proof (induction ks arbitrary: w)
  case (Cons k ks)
  obtain x w1 where 1: "run_state (expire_entry E k) w = (x, w1)" by (rule run_cases)
  with Cons.prems(2) have "run_state (expire_loop E ks) w1 = (u, w')" by simp
  with Cons.IH [OF concurrent_expire_entry [OF Cons.prems(1) 1]] show ?case .
qed simp

lemma concurrent_poll_cycle:
  assumes "concurrent E Ranging w" and "run_state (poll_cycle E) w = (u, w')"
  shows "concurrent E Ranging w'"
proof -
  obtain ks w1 where 1: "run_state (range_keys E (map fst (active w))) w = (ks, w1)" by (rule run_cases)
  obtain x w2 where 2: "run_state (expire_loop E ks) w1 = (x, w2)" by (rule run_cases)
  from concurrent.poller [OF assms(1) poller_step.choose_order [OF 1]]
  have "concurrent E Ranging w2" by (rule concurrent_expire_loop [OF _ 2])
  moreover have "run_state (time_Sleep E (PollCycle * Second)) w2 = (u, w')"
    using assms(2) 1 2 by (auto simp: poll_cycle_def)
  ultimately show ?thesis by (rule concurrent.poller [OF _ poller_step.rest])
qed

lemma concurrent_populate_loop:
  "concurrent E (Filling items) w \<Longrightarrow> run_state (populate_loop E items) w = (u, w') \<Longrightarrow>
    concurrent E Ranging w'"
proof (induction items arbitrary: w)
  case Nil
  then show ?case using concurrent.poller [OF Nil.prems(1) poller_step.filled] by simp
next
  case (Cons res rest)
  obtain x w1 where 1: "run_state (populate_loop E [res]) w = (x, w1)" by (rule run_cases)
  with Cons.prems(2) have "run_state (populate_loop E rest) w1 = (u, w')"
    by (simp split: prod.splits if_splits)
  with Cons.IH [OF concurrent.poller [OF Cons.prems(1) poller_step.fill_entry [OF 1]]]
  show ?case .
qed

text \<open>A run of the poller without interruption, of any number of cycles, is a run of its steps.\<close>

lemma concurrent_poll_cycles:
  "concurrent E Ranging w \<Longrightarrow> run_state (poll_cycles E n) w = (u, w') \<Longrightarrow> concurrent E Ranging w'"
proof (induction n arbitrary: w)
  case (Suc n)
  obtain x w1 where 1: "run_state (poll_cycle E) w = (x, w1)" by (rule run_cases)
  with Suc.prems(2) have "run_state (poll_cycles E n) w1 = (u, w')" by simp
  with Suc.IH [OF concurrent_poll_cycle [OF Suc.prems(1) 1]] show ?case .
qed simp

lemma concurrent_Poll:
  assumes "concurrent E Waiting w" and "run_state (Poll E n) w = (u, w')"
  shows "\<exists>p. concurrent E p w'"
proof -
  obtain x w1 where 1: "run_state (time_Sleep E (30 * Second)) w = (x, w1)" by (rule run_cases)
  obtain r w2 where 2: "run_state (getExistingReservations E) w1 = (r, w2)" by (rule run_cases)
  note waiting = concurrent.poller [OF assms(1) poller_step.initial_sleep [OF 1]]
  show ?thesis
  proof (cases r)
    case (Inl err)
    with 2 have "concurrent E Stopped w2"
      using concurrent.poller [OF waiting poller_step.list_failed] by simp
    moreover have "w' = w2"
      using assms(2) 1 2 Inl by (simp add: Poll_def populateActiveReservations_def)
    ultimately show ?thesis by blast
  next
    case (Inr items)
    obtain y w3 where 3: "run_state (populate_loop E items) w2 = (y, w3)" by (rule run_cases)
    from 2 Inr have "concurrent E (Filling items) w2"
      using concurrent.poller [OF waiting poller_step.listed] by simp
    from concurrent_populate_loop [OF this 3] have "concurrent E Ranging w3" .
    moreover have "run_state (poll_cycles E n) w3 = (u, w')"
      using assms(2) 1 2 3 Inr by (simp add: Poll_def populateActiveReservations_def)
    ultimately show ?thesis by (blast intro: concurrent_poll_cycles)
  qed
qed

section \<open>The table and the deletes of all interleavings\<close>

text \<open>
  An expiration is \<open>timely\<close> for a name when it is the one in the last status write with which the
  operator activated or refreshed a reservation of that name, or the one with which the listing
  at the start showed it.
\<close>

definition listed_active :: "event list \<Rightarrow> string \<Rightarrow> time \<Rightarrow> bool" where
  "listed_active h k v \<longleftrightarrow> (\<exists>items y. ResEv (ListAll AllObjects (Inr items)) \<in> set h \<and> y \<in> set items \<and>
     state_of y = ''active'' \<and> mName y = k \<and> rsExpiration (resStatus y) = v)"

definition timely :: "event list \<Rightarrow> string \<Rightarrow> time \<Rightarrow> bool" where
  "timely h k v \<longleftrightarrow> last_written k v h \<or> listed_active h k v"

definition timely_table :: "'s world \<Rightarrow> bool" where
  "timely_table w \<longleftrightarrow> (\<forall>k v. map_of (active w) k = Some v \<longrightarrow> timely (log w) k v)"

lemma timely_append: "timely h k v \<Longrightarrow> \<forall>e \<in> set tr. \<not> active_write k e \<Longrightarrow> timely (h @ tr) k v"
  unfolding timely_def listed_active_def using last_written_append(1) [of k v h tr] by auto

lemma timely_tracks:
  assumes "timely_table w" and "tracks w w'"
  shows "timely_table w'"
  unfolding timely_table_def
proof (intro allI impI)
  fix k v
  assume v: "map_of (active w') k = Some v"
  from assms(2) obtain tr where tr: "log w' = log w @ tr" "\<And>k v. map_of (active w') k = Some v \<Longrightarrow>
      last_written k v tr \<or> map_of (active w) k = Some v \<and> (\<forall>e \<in> set tr. \<not> active_write k e)"
    unfolding tracks_def by blast
  from tr(2) [OF v] show "timely (log w') k v"
    using assms(1) timely_append [of "log w" k v tr] last_written_append(2) [of k v tr "log w"]
    unfolding tr(1) timely_table_def timely_def by blast
qed

lemma timely_quiet:
  assumes "timely_table w" and "log w' = log w @ tr" and "\<forall>e \<in> set tr. idle e"
    and "map_of (active w') \<subseteq>\<^sub>m map_of (active w)"
  shows "timely_table w'"
  unfolding timely_table_def
proof (intro allI impI)
  fix k v
  assume "map_of (active w') k = Some v"
  with assms(4) have "map_of (active w) k = Some v" by (metis domI map_le_def)
  with assms(1-3) show "timely (log w') k v"
    by (auto simp: timely_table_def idle_def intro: timely_append)
qed

lemma timely_event:
  "timely_table w \<Longrightarrow> log w' = log w @ [e] \<Longrightarrow> idle e \<Longrightarrow> active w' = active w \<Longrightarrow> timely_table w'"
  by (rule timely_quiet [of w w' "[e]"]) (simp_all add: map_le_def del: idle_simps)

lemma timely_call [simp]:
  "idle e \<Longrightarrow> timely_table w \<Longrightarrow> timely_table (w\<lparr>log := log w @ [e]\<rparr>)"
  "idle e \<Longrightarrow> timely_table w \<Longrightarrow> timely_table (w\<lparr>srv := s, log := log w @ [e]\<rparr>)"
  by (rule timely_event [of w]; simp)+

lemma quiet_idle: "res_quiet e \<Longrightarrow> idle e"
  by (auto simp: res_quiet_def idle_def active_write_def)

text \<open>
  \<open>overdue_entry\<close>: at some point of the history the clock was read past an expiration that was
  accounted for and timely then. That is all that is left of the reason for a delete when it is
  finally made.
\<close>

definition overdue_entry :: "string \<Rightarrow> event list \<Rightarrow> bool" where
  "overdue_entry k h \<longleftrightarrow> (\<exists>h1 v now h2. h = h1 @ NowEv now # h2 \<and> accounted h1 k v \<and>
     timely h1 k v \<and> expired_at now v)"

definition late_delete :: "event list \<Rightarrow> reservation \<Rightarrow> bool" where
  "late_delete h x \<longleftrightarrow>
     (\<exists>k g h1 h2. h = h1 @ ResEv (Get (cluster_key k) g) # h2 \<and> overdue_entry k h1 \<and>
        x = delete_target g) \<or> (\<exists>req. may_delete req h x)"

definition deletes_late :: "event list \<Rightarrow> bool" where
  "deletes_late h \<longleftrightarrow> (\<forall>pre x d post. h = pre @ ResEv (Delete x d) # post \<longrightarrow> late_delete pre x)"

fun pc_ok :: "pc \<Rightarrow> event list \<Rightarrow> bool" where
  "pc_ok (Filling items) h \<longleftrightarrow>
     (\<exists>all. ResEv (ListAll AllObjects (Inr all)) \<in> set h \<and> set items \<subseteq> set all)"
| "pc_ok (Judged k) h \<longleftrightarrow> overdue_entry k h"
| "pc_ok (Dropped k) h \<longleftrightarrow> overdue_entry k h"
| "pc_ok (Fetched k g) h \<longleftrightarrow>
     (\<exists>h1 h2. h = h1 @ ResEv (Get (cluster_key k) g) # h2 \<and> overdue_entry k h1)"
| "pc_ok _ h \<longleftrightarrow> True"

lemma overdue_entry_append: "overdue_entry k h \<Longrightarrow> overdue_entry k (h @ tr)"
  unfolding overdue_entry_def by fastforce

lemma pc_ok_append: "pc_ok p h \<Longrightarrow> pc_ok p (h @ tr)"
  by (cases p) (auto simp: overdue_entry_append, blast)

lemma deletes_late_append:
  assumes "deletes_late h"
    and "\<And>pre x d post. tr = pre @ ResEv (Delete x d) # post \<Longrightarrow> late_delete (h @ pre) x"
  shows "deletes_late (h @ tr)"
  unfolding deletes_late_def
proof (intro allI impI)
  fix pre x d post
  assume "h @ tr = pre @ ResEv (Delete x d) # post"
  from append_split_elem [OF this] show "late_delete pre x"
  proof (elim disjE exE conjE)
    fix post' assume "h = pre @ ResEv (Delete x d) # post'"
    with assms(1) show ?thesis by (simp add: deletes_late_def)
  next
    fix pre' assume "pre = h @ pre'" "tr = pre' @ ResEv (Delete x d) # post"
    with assms(2) show ?thesis by blast
  qed
qed

lemma deletes_late_quiet:
  "deletes_late h \<Longrightarrow> \<forall>e \<in> set tr. res_quiet e \<Longrightarrow> deletes_late (h @ tr)"
  by (rule deletes_late_append) (fastforce simp: res_quiet_def)+

text \<open>The invariant: of the program counter, the table and the deletes so far.\<close>

definition consistent :: "pc \<Rightarrow> 's world \<Rightarrow> bool" where
  "consistent p w \<longleftrightarrow> pc_ok p (log w) \<and> table_ok (active w) (log w) \<and> timely_table w \<and>
     deletes_late (log w)"

lemma consistent_quiet:
  assumes "consistent p w" and "log w' = log w @ tr" and "\<forall>e \<in> set tr. res_quiet e"
    and "active w' = active w"
  shows "consistent p w'"
  using assms timely_quiet [of w w' tr]
  by (simp add: consistent_def pc_ok_append table_ok_append deletes_late_quiet quiet_idle)

lemma consistent_reservation:
  assumes lib: "lib_ok E" and ok: "consistent p w"
    and run: "run_state (Reservation_Reconcile E req) w = (ro, w')"
  shows "consistent p w'"
proof -
  from wpD [OF wp_Reservation_Reconcile_table [OF lib] run] obtain tr
    where tr: "log w' = log w @ tr" "table_step (active w) tr (active w')" by blast
  have "late_delete (log w @ pre) x" if "tr = pre @ ResEv (Delete x d) # post" for pre x d post
  proof -
    from follows_Reservation_Reconcile_deletes [OF lib, of req w] run tr(1) that
    have "delete_guard req (log w @ pre) (ResEv (Delete x d))"
      unfolding follows_def by (metis same_append_eq snd_conv)
    then show ?thesis
      unfolding late_delete_def by (metis delete_guard_delete)
  qed
  moreover have "timely_table w'"
    using ok timely_tracks tracking_Reservation_Reconcile [OF lib, of req] run
    unfolding consistent_def tracking_def by (metis snd_conv)
  ultimately show ?thesis
    using ok tr by (auto simp: consistent_def pc_ok_append intro: table_ok_step deletes_late_append)
qed

lemma table_ok_put: "table_ok m h \<Longrightarrow> accounted h k v \<Longrightarrow> table_ok (AList.update k v m) h"
  by (auto simp: table_ok_def active_table.look_put distinct_update split: if_splits)

lemma table_ok_del: "table_ok m h \<Longrightarrow> table_ok (AList.delete k m) h"
  by (auto simp: table_ok_def active_table.look_del distinct_delete split: if_splits)

lemma consistent_fill:
  assumes ok: "consistent (Filling (res # rest)) w"
    and run: "run_state (populate_loop E [res]) w = (u, w')"
  shows "consistent (Filling rest) w'"
proof -
  from ok obtain items where items: "ResEv (ListAll AllObjects (Inr items)) \<in> set (log w)"
      "res \<in> set items" "set rest \<subseteq> set items"
    by (auto simp: consistent_def)
  let ?m = "MetricEv (With reservationsByRequesterTotalMetrics [(''requester'', rsRequester (resSpec res)),
    (''pool'', rsStatusPool (resStatus res))] Inc)"
  show ?thesis
  proof (cases "state_of res = ''active''")
    case True
    with run have w': "log w' = log w @ [?m]"
        "active w' = AList.update (mName res) (rsExpiration (resStatus res)) (active w)"
      by auto
    from items(1,2) True have "accounted (log w) (mName res) (rsExpiration (resStatus res))"
      unfolding accounted_def by blast
    moreover from items(1,2) True have "listed_active (log w) (mName res) (rsExpiration (resStatus res))"
      unfolding listed_active_def by blast
    then have "timely_table (w\<lparr>active := active w'\<rparr>)"
      using ok by (auto simp: consistent_def timely_table_def timely_def w'(2) active_table.look_put)
    then have "timely_table w'"
      by (rule timely_quiet [where tr = "[?m]"]) (simp_all add: w')
    ultimately show ?thesis
      using ok w' items
      by (auto simp: consistent_def res_quiet_def intro!: table_ok_append table_ok_put deletes_late_quiet)
  next
    case False
    with run have "w' = w" by simp
    with ok items show ?thesis by (auto simp: consistent_def)
  qed
qed

lemma consistent_visit:
  assumes ok: "consistent Ranging w" and v: "map_of (active w) k = Some v"
    and run: "run_state (namespaceIsExpired E v) w = (b, w')"
  shows "consistent (if b then Judged k else Ranging) w'"
proof -
  have "wp (namespaceIsExpired E v) (\<lambda>b w'. \<exists>now. log w' = log w @ [NowEv now] \<and>
      active w' = active w \<and> (b \<longrightarrow> expired_at now v)) w"
    unfolding namespaceIsExpired_def
    by (intro wp_bind [THEN iffD2] wp_k_call wp_return [THEN iffD2]) (auto simp: expired_at_iff)
  from wpD [OF this run] obtain now where w': "log w' = log w @ [NowEv now]" "active w' = active w"
      "b \<longrightarrow> expired_at now v" by blast
  have "accounted (log w) k v" "timely (log w) k v"
    using ok v by (simp_all add: consistent_def table_ok_def timely_table_def)
  with w' have "b \<longrightarrow> overdue_entry k (log w')"
    by (auto simp: overdue_entry_def)
  moreover from ok w' have "consistent Ranging w'"
    by (intro consistent_quiet [OF ok, where tr = "[NowEv now]"]) (simp_all add: res_quiet_def)
  ultimately show ?thesis by (simp add: consistent_def)
qed

lemma consistent_erase:
  assumes ok: "consistent (Fetched k g) w"
    and run: "run_state (deleteRes E (delete_target g)) w = (d, w')"
  shows "consistent Erased w'"
proof -
  from run have w': "log w' = log w @ [ResEv (Delete (delete_target g) d)]" "active w' = active w"
    by auto
  from ok have "late_delete (log w) (delete_target g)"
    unfolding consistent_def late_delete_def pc_ok.simps by blast
  moreover from ok w' have "timely_table w'"
    by (intro timely_event [of w w' "ResEv (Delete (delete_target g) d)"]) (simp_all add: consistent_def)
  ultimately show ?thesis
    using ok w'
    by (auto simp: consistent_def Cons_eq_append_conv intro!: table_ok_append deletes_late_append)
qed

lemma consistent_fetch:
  assumes ok: "consistent (Dropped k) w" and run: "run_state (getRes E (cluster_key k)) w = (g, w')"
  shows "consistent (Fetched k g) w'"
proof -
  from run have w': "log w' = log w @ [ResEv (Get (cluster_key k) g)]" "active w' = active w"
    by auto
  from ok have "pc_ok (Fetched k g) (log w')"
    unfolding w' consistent_def pc_ok.simps by blast
  moreover from ok w' have "timely_table w'"
    by (intro timely_event [of w w' "ResEv (Get (cluster_key k) g)"]) (simp_all add: consistent_def)
  ultimately show ?thesis
    using ok w' by (auto simp: consistent_def res_quiet_def intro!: table_ok_append deletes_late_quiet)
qed

lemma consistent_poller:
  assumes "poller_step E p w p' w'" and "consistent p w"
  shows "consistent p' w'"
  using assms
proof (cases rule: poller_step.cases)
  case (visit_entry k v b)
  with assms(2) show ?thesis by (simp only: consistent_visit)
next
  case (fill_entry res u rest)
  with assms(2) show ?thesis by (simp only: consistent_fill)
next
  case (erase g d k)
  with assms(2) show ?thesis by (simp only: consistent_erase)
next
  case (drop_entry k u)
  moreover from drop_entry assms(2) have "timely_table w'"
    by (intro timely_quiet [of w w' "[]"]) (auto simp: consistent_def active_table.del_submap)
  ultimately show ?thesis using assms(2) by (auto simp: consistent_def table_ok_del)
next
  case (fetch k g)
  with assms(2) show ?thesis by (simp only: consistent_fetch)
qed (use assms(2) in \<open>auto simp: consistent_def getExistingReservations_def res_quiet_def
    intro!: table_ok_append deletes_late_quiet\<close>)

lemma concurrent_consistent:
  assumes "lib_ok E" and "concurrent E p w"
  shows "consistent p w"
  using assms(2)
proof (induction rule: concurrent.induct)
  case (start w)
  then show ?case by (simp add: consistent_def table_ok_def deletes_late_def timely_table_def)
next
  case (others p w s)
  then show ?case by (simp add: consistent_def timely_table_def)
next
  case (reservation p w req ro w')
  show ?case by (rule consistent_reservation [OF assms(1) reservation.IH reservation.hyps(2)])
next
  case (pool p w req rr w')
  from quiet_step [OF calm_Pool_Reconcile quiet_pool.emits_Pool_Reconcile, OF assms(1) assms(1) pool.hyps(2)]
    show ?case by (elim exE conjE) (rule consistent_quiet [OF pool.IH])
next
  case (clowdenv p w req rr w')
  from quiet_step [OF calm_Clowdenv_Reconcile emits_Clowdenv_Reconcile, OF assms(1) assms(1) clowdenv.hyps(2)]
    show ?case by (elim exE conjE) (rule consistent_quiet [OF clowdenv.IH])
next
  case (poller p w p' w')
  show ?case by (rule consistent_poller [OF poller.hyps(2) poller.IH])
qed

section \<open>Properties\<close>

text \<open>
  C4. However the steps of the poller and the reconciliations interleave and whatever others do
  to the cluster, a reservation is sent a delete only for a reason. Either, earlier in the run,
  the clock was read past an expiration of its name that was the latest at that time: computed
  from its duration and written to its status with no later activation or refresh of that name
  in between, or listed at the start; and the reservation was read by that name after it. (It
  may have been extended between that reading of the clock and the delete.) Or the reservation controller found it waiting and
  overdue, or new with a duration that cannot be parsed.
\<close>

theorem interleaved_deletes_for_a_reason:
  assumes "lib_ok E" and "concurrent E p w" and "log w = pre @ ResEv (Delete x d) # post"
  shows "(\<exists>k v now g h1 h2 h3.
      pre = h1 @ NowEv now # h2 @ ResEv (Get (cluster_key k) g) # h3 \<and>
      accounted h1 k v \<and>
      timely h1 k v \<and> expired_at now v \<and> x = delete_target g) \<or>
    (\<exists>req res0. ResEv (Get req (Inr res0)) \<in> set pre \<and> x = default_pool res0 \<and>
      deletion_is_zero res0 \<and> (state_of res0 = ''waiting'' \<and> overdue res0 pre \<or>
        state_of res0 \<notin> {''active'', ''waiting''} \<and> unparsable res0))"
proof -
  from concurrent_consistent [OF assms(1,2)] assms(3) have "late_delete pre x"
    by (simp add: consistent_def deletes_late_def)
  then show ?thesis
    unfolding late_delete_def
  proof (elim disjE exE conjE)
    fix k g h1 h2
    assume pre: "pre = h1 @ ResEv (Get (cluster_key k) g) # h2" and x: "x = delete_target g"
      and "overdue_entry k h1"
    then obtain h0 v now h3 where "h1 = h0 @ NowEv now # h3" "accounted h0 k v" "timely h0 k v" "expired_at now v"
      unfolding overdue_entry_def by blast
    with pre x show ?thesis by (intro disjI1 exI conjI) auto
  next
    fix req
    assume "may_delete req pre x"
    then show ?thesis
      unfolding may_delete_def by (intro disjI2 exI [of _ req])
  qed
qed

text \<open>
  C7. In every interleaving the table of active reservations is a map, and each of its entries is
  accounted for: the expiration under a name was computed from the duration of a reservation of
  that name with which the API server answered, or is the one with which a listing showed it as
  active.
\<close>

theorem interleaved_table_accounted:
  assumes "lib_ok E" and "concurrent E p w"
  shows "distinct (map fst (active w)) \<and> (\<forall>(k, v) \<in> set (active w).
    (\<exists>y. answered y (log w) \<and> mName y = k \<and> expires y (log w) v) \<or>
    (\<exists>items y. ResEv (ListAll AllObjects (Inr items)) \<in> set (log w) \<and> y \<in> set items \<and>
       state_of y = ''active'' \<and> mName y = k \<and> rsExpiration (resStatus y) = v))"
proof -
  from concurrent_consistent [OF assms] have "distinct (map fst (active w))"
    "\<And>k v. (k, v) \<in> set (active w) \<Longrightarrow> accounted (log w) k v"
    by (simp_all add: consistent_def table_ok_def)
  then show ?thesis
    unfolding accounted_def [symmetric] by auto
qed

section \<open>A race\<close>

text \<open>
  A run: a reservation of an hour is handed over; after two hours the poller finds its entry
  expired; before it drops the entry the duration is changed to a day and the reservation is
  reconciled, which puts the new expiration into the table; the poller goes on to drop that
  entry, to read the reservation and to delete it.
\<close>

lemma concurrent_populate:
  assumes "concurrent E Waiting w" and "run_state (populateActiveReservations E) w = (None, w')"
  shows "concurrent E Ranging w'"
proof -
  obtain r w1 where 1: "run_state (getExistingReservations E) w = (r, w1)" by (rule run_cases)
  from assms(2) 1 obtain items where r: "r = Inr items"
    by (cases r) (simp_all add: populateActiveReservations_def)
  obtain u w2 where 2: "run_state (populate_loop E items) w1 = (u, w2)" by (rule run_cases)
  from 1 r have "concurrent E (Filling items) w1"
    using concurrent.poller [OF assms(1) poller_step.listed] by simp
  from concurrent_populate_loop [OF this 2] have "concurrent E Ranging w2" .
  moreover have "w' = w2"
    using assms(2) 1 2 r by (simp add: populateActiveReservations_def)
  ultimately show ?thesis by simp
qed

definition with_srv :: "('s \<Rightarrow> 's) \<Rightarrow> 's world \<Rightarrow> 's world" where
  "with_srv f w = w\<lparr>srv := f (srv w)\<rparr>"

definition race_handed_over :: "sample world" where
  "race_handed_over = snd (run_state (Reservation_Reconcile sample_env ('''', ''r''))
     (snd (run_state (populateActiveReservations sample_env) handover_world)))"

definition race_later :: "sample world" where
  "race_later = with_srv (\<lambda>s. s\<lparr>sm_clock := 2 * Hour\<rparr>) race_handed_over"

definition race_judged :: "sample world" where
  "race_judged = snd (run_state (namespaceIsExpired sample_env Hour) race_later)"

definition race_extended :: "sample world" where
  "race_extended = snd (run_state (Reservation_Reconcile sample_env ('''', ''r''))
     (with_srv (\<lambda>s. s\<lparr>sm_res := map (\<lambda>(n, res).
        (n, res\<lparr>resSpec := (resSpec res)\<lparr>rsDuration := Some ''24h''\<rparr>\<rparr>)) (sm_res s)\<rparr>) race_judged))"

definition race_dropped :: "sample world" where
  "race_dropped = snd (run_state (del_active ''r'') race_extended)"

definition race_fetched :: "(gerr + reservation) \<times> sample world" where
  "race_fetched = run_state (getRes sample_env (cluster_key ''r'')) race_dropped"

definition race_erased :: "sample world" where
  "race_erased = (case race_fetched of
     (g, w) \<Rightarrow> snd (run_state (deleteRes sample_env (delete_target g)) w))"

text \<open>The last event deletes an active reservation that has not expired by the clock of the cluster.\<close>

definition deletes_unexpired :: "sample world \<Rightarrow> bool" where
  "deletes_unexpired w \<longleftrightarrow> (case last (log w) of
     ResEv (Delete x None) \<Rightarrow> state_of x = ''active'' \<and> sm_clock (srv w) < rsExpiration (resStatus x)
   | _ \<Rightarrow> False)"

lemma race_verdict: "poller_step sample_env Ranging race_later (Judged ''r'') race_judged"
proof -
  have entry: "map_of (active race_later) ''r'' = Some Hour"
    by code_simp
  have "fst (run_state (namespaceIsExpired sample_env Hour) race_later)"
    by code_simp
  with poller_step.visit_entry [OF entry surjective_pairing, of sample_env] show ?thesis
    unfolding race_judged_def by simp
qed

lemma race_steps:
  "poller_step sample_env (Judged ''r'') race_extended (Dropped ''r'') race_dropped"
  "poller_step sample_env (Dropped ''r'') race_dropped (Fetched ''r'' (fst race_fetched)) (snd race_fetched)"
  "poller_step sample_env (Fetched ''r'' (fst race_fetched)) (snd race_fetched) Erased race_erased"
  unfolding race_dropped_def race_fetched_def race_erased_def case_prod_beta
  by (rule poller_step.drop_entry poller_step.fetch poller_step.erase; rule surjective_pairing)+

lemma race_concurrent:
  "concurrent sample_env Erased race_erased" "concurrent sample_env (Judged ''r'') race_extended"
proof -
  have "fst (run_state (populateActiveReservations sample_env) handover_world) = None"
    by code_simp
  then have "run_state (populateActiveReservations sample_env) handover_world =
      (None, snd (run_state (populateActiveReservations sample_env) handover_world))"
    by (metis prod.collapse)
  moreover have "concurrent sample_env Waiting handover_world"
    by (rule concurrent.start) (simp_all add: handover_world_def sample_world_def)
  ultimately have "concurrent sample_env Ranging
      (snd (run_state (populateActiveReservations sample_env) handover_world))"
    by (intro concurrent_populate)
  then have "concurrent sample_env Ranging race_handed_over"
    unfolding race_handed_over_def by (rule concurrent.reservation [OF _ surjective_pairing])
  then have "concurrent sample_env Ranging race_later"
    unfolding race_later_def with_srv_def by (rule concurrent.others)
  then have "concurrent sample_env (Judged ''r'') race_judged"
    by (rule concurrent.poller) (rule race_verdict)
  then show extended: "concurrent sample_env (Judged ''r'') race_extended"
    unfolding race_extended_def with_srv_def
    by (rule concurrent.reservation [OF concurrent.others surjective_pairing])
  from concurrent.poller [OF concurrent.poller [OF concurrent.poller [OF extended race_steps(1)]
      race_steps(2)] race_steps(3)] show "concurrent sample_env Erased race_erased" .
qed

lemma race_last:
  obtains x where "last (log race_erased) = ResEv (Delete x None)" "state_of x = ''active''"
    "sm_clock (srv race_erased) < rsExpiration (resStatus x)"
proof -
  have "deletes_unexpired race_erased"
    by code_simp
  then show ?thesis
    by (auto simp: deletes_unexpired_def split: event.splits act.splits option.splits intro: that)
qed

text \<open>
  C17. An extension that comes after the poller's verdict is lost. Let the poller have found the
  entry of a name expired; then, however the cluster changed meanwhile, let a reconciliation of
  an active reservation succeed, so that a new expiration is computed, written to the status and
  put into the table. The next three steps of the poller do not look at it: the entry of the
  name is dropped whatever it says now, the reservation is read, the clock is not, and what was
  read is sent a delete.
\<close>

theorem extension_after_verdict_is_lost:
  assumes "lib_ok E"
    and "poller_step E Ranging w0 (Judged k) w1"
    and "run_state (Reservation_Reconcile E req) (w1\<lparr>srv := s1\<rparr>) = (Returned (rq, None), w2)"
    and "log w2 = log w1 @ ResEv (Get req (Inr res0)) # tr"
    and "deletion_is_zero res0" and "state_of res0 = ''active''"
    and "poller_step E (Judged k) (w2\<lparr>srv := s2\<rparr>) p3 w3"
    and "poller_step E p3 (w3\<lparr>srv := s3\<rparr>) p4 w4"
    and "poller_step E p4 (w4\<lparr>srv := s4\<rparr>) p5 w5"
  shows "(\<exists>v now. map_of (active w0) k = Some v \<and> log w1 = log w0 @ [NowEv now] \<and> expired_at now v) \<and>
    (\<exists>y t r. (y = default_pool res0 \<or> answered y tr) \<and> expires y tr t \<and>
       ResEv (StatusUpdate (y\<lparr>resStatus := (resStatus y)\<lparr>rsExpiration := t\<rparr>\<rparr>) (Inr r)) \<in> set tr \<and>
       active w2 = AList.update (mName y) t (active w0)) \<and>
    active w5 = AList.delete k (active w2) \<and>
    (\<exists>g d. log w5 = log w2 @ [ResEv (Get (cluster_key k) g), ResEv (Delete (delete_target g) d)])"
proof -
  from assms(2) have verdict: "\<exists>v now. map_of (active w0) k = Some v \<and> log w1 = log w0 @ [NowEv now] \<and>
      expired_at now v" "active w1 = active w0"
    by (auto elim!: poller_stepE simp: namespaceIsExpired_def expired_at_def time_Sub_sign
        split: if_splits)
  from assms(4-6) wpD [OF wp_Reservation_Reconcile_refresh [OF assms(1)] assms(3)]
  have "refreshed (default_pool res0) (active w0) tr (active w2)"
    by (auto simp: verdict(2))
  moreover from assms(7-9) have "active w5 = AList.delete k (active w2) \<and>
      (\<exists>g d. log w5 = log w2 @ [ResEv (Get (cluster_key k) g), ResEv (Delete (delete_target g) d)])"
    by (auto elim!: poller_stepE)
  ultimately show ?thesis
    using verdict(1) unfolding refreshed_def by blast
qed

fun reads_live :: "string \<Rightarrow> event \<Rightarrow> bool" where
  "reads_live st (ResEv (Get req (Inr res))) \<longleftrightarrow> deletion_is_zero res \<and> state_of res = st"
| "reads_live st _ \<longleftrightarrow> False"

text \<open>The second reconciliation reads an active reservation, succeeds, and sets the entry to a day.\<close>

definition race_refresh_seen :: bool where
  "race_refresh_seen \<longleftrightarrow> (case run_state (Reservation_Reconcile sample_env ('''', ''r''))
       (with_srv (\<lambda>s. s\<lparr>sm_res := map (\<lambda>(n, res).
          (n, res\<lparr>resSpec := (resSpec res)\<lparr>rsDuration := Some ''24h''\<rparr>\<rparr>)) (sm_res s)\<rparr>) race_judged) of
     (out, w) \<Rightarrow> out = Returned (no_requeue, None) \<and>
       reads_live ''active'' (log w ! length (log race_judged)) \<and>
       map_of (active w) ''r'' = Some (24 * Hour))"

lemma race_refresh_seen: race_refresh_seen
  by code_simp

theorem extension_after_verdict_is_lost_witness:
  "map_of (active race_extended) ''r'' = Some (24 * Hour) \<and> (\<exists>g x d.
     log race_erased = log race_extended @ [ResEv (Get (cluster_key ''r'') g), ResEv (Delete x d)] \<and>
     state_of x = ''active'' \<and> sm_clock (srv race_erased) < rsExpiration (resStatus x))"
proof -
  let ?s = "srv (with_srv (\<lambda>s. s\<lparr>sm_res := map (\<lambda>(n, res).
     (n, res\<lparr>resSpec := (resSpec res)\<lparr>rsDuration := Some ''24h''\<rparr>\<rparr>)) (sm_res s)\<rparr>) race_judged)"
  from race_refresh_seen have run: "run_state (Reservation_Reconcile sample_env ('''', ''r''))
      (race_judged\<lparr>srv := ?s\<rparr>) = (Returned (no_requeue, None), race_extended)"
    and seen: "reads_live ''active'' (log race_extended ! length (log race_judged))"
      "map_of (active race_extended) ''r'' = Some (24 * Hour)"
    by (auto simp: race_refresh_seen_def race_extended_def with_srv_def split: prod.splits)
  from wpD [OF wp_Reservation_Reconcile_refresh [OF sample_lib_ok] run] obtain g tr where
    log: "log race_extended = log race_judged @ ResEv (Get ('''', ''r'') g) # tr" by auto
  with seen(1) obtain res0 where g: "g = Inr res0" "deletion_is_zero res0" "state_of res0 = ''active''"
    by (cases g) (auto simp: nth_append)
  from extension_after_verdict_is_lost [OF sample_lib_ok race_verdict run log [unfolded g(1)] g(2,3),
      where ?s2.0 = "srv race_extended" and ?s3.0 = "srv race_dropped" and ?s4.0 = "srv (snd race_fetched)"]
    race_steps
  have "\<exists>g d. log race_erased = log race_extended @
      [ResEv (Get (cluster_key ''r'') g), ResEv (Delete (delete_target g) d)]" by simp
  then obtain g d where erased: "log race_erased = log race_extended @
      [ResEv (Get (cluster_key ''r'') g), ResEv (Delete (delete_target g) d)]" by blast
  obtain x where "last (log race_erased) = ResEv (Delete x None)" "state_of x = ''active''"
    "sm_clock (srv race_erased) < rsExpiration (resStatus x)" by (rule race_last)
  with erased seen(2) show ?thesis by auto
qed

theorem interleaved_deletes_for_a_reason_witness:
  "\<exists>pre x d post. log race_erased = pre @ ResEv (Delete x d) # post \<and>
    ((\<exists>k v now g h1 h2 h3.
      pre = h1 @ NowEv now # h2 @ ResEv (Get (cluster_key k) g) # h3 \<and>
      accounted h1 k v \<and>
      timely h1 k v \<and> expired_at now v \<and> x = delete_target g) \<or>
    (\<exists>req res0. ResEv (Get req (Inr res0)) \<in> set pre \<and> x = default_pool res0 \<and>
      deletion_is_zero res0 \<and> (state_of res0 = ''waiting'' \<and> overdue res0 pre \<or>
        state_of res0 \<notin> {''active'', ''waiting''} \<and> unparsable res0)))"
proof -
  obtain x where "last (log race_erased) = ResEv (Delete x None)"
    by (rule race_last)
  moreover have "log race_erased \<noteq> []"
    by (simp add: race_erased_def case_prod_beta)
  ultimately have evs: "log race_erased = butlast (log race_erased) @ ResEv (Delete x None) # []"
    by (metis append_butlast_last_id)
  from conjI [OF evs interleaved_deletes_for_a_reason [OF sample_lib_ok race_concurrent(1) evs]]
  show ?thesis by (intro exI)
qed

theorem interleaved_table_accounted_witness:
  "\<exists>k v. (k, v) \<in> set (active race_extended) \<and>
     ((\<exists>y. answered y (log race_extended) \<and> mName y = k \<and> expires y (log race_extended) v) \<or>
      (\<exists>items y. ResEv (ListAll AllObjects (Inr items)) \<in> set (log race_extended) \<and>
        y \<in> set items \<and> state_of y = ''active'' \<and> mName y = k \<and> rsExpiration (resStatus y) = v))"
proof -
  have "active race_extended \<noteq> []"
    by code_simp
  then obtain k v where entry: "(k, v) \<in> set (active race_extended)"
    by (cases "active race_extended") auto
  from bspec [OF conjunct2 [OF interleaved_table_accounted [OF sample_lib_ok race_concurrent(2)]] entry]
  have "(\<exists>y. answered y (log race_extended) \<and> mName y = k \<and> expires y (log race_extended) v) \<or>
      (\<exists>items y. ResEv (ListAll AllObjects (Inr items)) \<in> set (log race_extended) \<and>
        y \<in> set items \<and> state_of y = ''active'' \<and> mName y = k \<and> rsExpiration (resStatus y) = v)"
    unfolding prod.case .
  from conjI [OF entry this] show ?thesis by (intro exI)
qed


section \<open>The end of the poller\<close>

text \<open>
  The poller lists the reservations once, half a minute after the start. When that fails the
  goroutine ends for good: whatever number of cycles it was to run, it makes no further call,
  and the table stays as it is.
\<close>

lemma failed_listing_ends_poller:
  assumes "fst (k_list (res_api E) AllObjects (snd (go_sleep E (30 * Second) (srv w)))) = Inl err"
  shows "\<exists>s. run_state (Poll E n) w = ((), w\<lparr>srv := s,
    log := log w @ [SleepEv (30 * Second), ResEv (ListAll AllObjects (Inl err))]\<rparr>)"
  using assms
  by (auto simp: Poll_def populateActiveReservations_def getExistingReservations_def)

end
