(* ===== verification/Refused_Activation.thy ===== *)
theory Refused_Activation
  imports Ownership Interleaving
begin

text \<open>
  What becomes of a handover when the status write that should record it is refused, and what
  the next reconciliation makes of it.
\<close>

section \<open>A refused write ends the reconciliation\<close>

definition refused_status :: "reservation \<Rightarrow> gerr \<Rightarrow> event" where
  "refused_status x err = ResEv (StatusUpdate x (Inl err))"

text \<open>All calls but the refused status writes with the state active.\<close>

fun accepting :: "event \<Rightarrow> bool" where
  "accepting (ResEv (StatusUpdate x (Inl err))) \<longleftrightarrow> state_of x \<noteq> ''active''"
| "accepting _ \<longleftrightarrow> True"

lemma accepting_status: "state_of x \<noteq> ''active'' \<Longrightarrow> accepting (ResEv (StatusUpdate x r))"
  by (cases r) simp_all

lemma read_accepting: "is_read e \<Longrightarrow> accepting e"
  by (cases e rule: accepting.cases) simp_all

interpretation unrefused: reserve_policy accepting
  by unfold_locales (simp_all add: read_accepting)

interpretation unrefused_cleanup: cleanup_policy accepting
  by unfold_locales (simp_all add: read_accepting)

definition refusal_ends ::
  "event list \<Rightarrow> reconcile_result outcome \<Rightarrow> (string \<times> time) list \<Rightarrow> bool" where
  "refusal_ends tr out m \<longleftrightarrow> (\<forall>pre x err post.
     tr = pre @ refused_status x err # post \<longrightarrow> state_of x = ''active'' \<longrightarrow>
       post = [] \<and> out = Returned (no_requeue, Some err) \<and>
       map_of m (mName x) = Some (rsExpiration (resStatus x)))"

lemma refusal_ends_append:
  assumes "refusal_ends tr out m" and "\<forall>e \<in> set tr0. accepting e"
  shows "refusal_ends (tr0 @ tr) out m"
  unfolding refusal_ends_def
proof (intro allI impI)
  fix pre x err post
  assume split: "tr0 @ tr = pre @ refused_status x err # post" and x: "state_of x = ''active''"
  from x assms(2) have "refused_status x err \<notin> set tr0" by (auto simp: refused_status_def)
  with append_split_elem [OF split] obtain pre' where "tr = pre' @ refused_status x err # post"
    by auto
  with assms(1) x show "post = [] \<and> out = Returned (no_requeue, Some err) \<and>
      map_of m (mName x) = Some (rsExpiration (resStatus x))"
    unfolding refusal_ends_def by blast
qed

lemma refusal_ends_Nil: "refusal_ends [] out m"
  by (simp add: refusal_ends_def)

definition reconciled :: "'s world \<Rightarrow> reconcile_result outcome \<Rightarrow> 's world \<Rightarrow> bool" where
  "reconciled w out w' \<longleftrightarrow> (\<exists>tr. log w' = log w @ tr \<and> refusal_ends tr out (active w'))"

lemma reconciled_return: "wp (State_Monad.return out) (reconciled w) w"
  by (auto simp: reconciled_def refusal_ends_Nil)

lemma reconciled_bind:
  fixes m :: "('s world, 'a) state"
  assumes "emits accepting m" and "\<And>x w1. wp (f x) (reconciled w1) w1"
  shows "wp (State_Monad.bind m f) (reconciled w) w"
  unfolding wp_bind
proof (rule wp_emits [OF assms(1)], rule wp_mono [OF assms(2)])
  fix tr out and w1 w' :: "'s world"
  assume "log w1 = log w @ tr" "\<forall>e \<in> set tr. accepting e" "reconciled w1 out w'"
  then show "reconciled w out w'"
    unfolding reconciled_def by (metis append.assoc refusal_ends_append)
qed

lemma reconciled_last:
  assumes "emits accepting m" shows "wp m (reconciled w) w"
  by (rule wp_emits [OF assms])
    (auto simp: reconciled_def intro!: refusal_ends_append [OF refusal_ends_Nil, simplified])

text \<open>The write itself, after the entry of the table was set.\<close>

lemma reconciled_status:
  assumes "\<And>y w1. wp (f (Inr y)) (reconciled w1) w1"
    and "\<And>err. f (Inl err) = State_Monad.return (Returned (no_requeue, Some err))"
  shows "wp (put_active (mName x) (rsExpiration (resStatus x)) \<bind> (\<lambda>_. statusRes E x \<bind> f))
    (reconciled w) w"
proof -
  let ?w = "w\<lparr>active := AList.update (mName x) (rsExpiration (resStatus x)) (active w)\<rparr>"
  have "wp (f r) (reconciled w) (?w\<lparr>srv := s, log := log w @ [ResEv (StatusUpdate x r)]\<rparr>)" for r s
  proof (cases r)
    case (Inl err)
    then show ?thesis
      by (auto simp: assms(2) reconciled_def refusal_ends_def refused_status_def Cons_eq_append_conv
          update_conv' append_eq_Cons_conv)
  next
    case (Inr y)
    let ?w1 = "?w\<lparr>srv := s, log := log w @ [ResEv (StatusUpdate x (Inr y))]\<rparr>"
    have "reconciled w out w'" if "reconciled ?w1 out w'" for out w'
      using that refusal_ends_append [of _ out "active w'" "[ResEv (StatusUpdate x (Inr y))]"]
      unfolding reconciled_def by force
    with assms(1) [of y ?w1] show ?thesis unfolding Inr by (rule wp_mono)
  qed
  then show ?thesis
    by (simp add: wp_active wp_k_call)
qed

lemma emits_finalizer: "emits accepting (ensure_finalizer E x)"
  unfolding ensure_finalizer_def by (intro emits_intros) simp

lemma reconciled_activate: "wp (activate_reservation E n t res) (reconciled w) w"
proof -
  have x: "mName (active_status n t res) = mName res"
    "rsExpiration (resStatus (active_status n t res)) = t" by (simp_all add: active_status_def)
  show ?thesis
    unfolding activate_reservation_def
    by (rule reconciled_status [where x = "active_status n t res", unfolded x],
        simp_all only: sum.case)
      (rule reconciled_last, intro emits_intros emits_finalizer, simp_all)
qed

lemma reconciled_take: "lib_ok E \<Longrightarrow> wp (take_namespace E n t res) (reconciled w) w"
  unfolding take_namespace_def
  by (intro reconciled_bind wp_intros reconciled_return reconciled_activate emits_intros
      unrefused.emits_UpdateAnnotations unrefused.emits_reserveNamespace
      unrefused.emits_verifyClowdEnvForReadyNs) simp_all

lemma reconciled_default: "lib_ok E \<Longrightarrow> wp (reconcile_default E res) (reconciled w) w"
  unfolding reconcile_default_def
  by (intro reconciled_bind wp_intros reconciled_return reconciled_take emits_intros
      unrefused.emits_getExpirationTime unrefused.emits_GetReadyNamespaces accepting_status)
    simp_all

lemma reconciled_active: "wp (reconcile_active E res) (reconciled w) w"
proof -
  have stored: "wp (put_active (mName x) t \<bind> (\<lambda>_.
      statusRes E (x\<lparr>resStatus := (resStatus x)\<lparr>rsExpiration := t\<rparr>\<rparr>) \<bind> f)) (reconciled w1) w1"
    if "\<And>y w2. wp (f (Inr y)) (reconciled w2) w2"
      "\<And>err. f (Inl err) = State_Monad.return (Returned (no_requeue, Some err))"
    for x t f and w1 :: "'a world"
    using reconciled_status [OF that, where x = "x\<lparr>resStatus := (resStatus x)\<lparr>rsExpiration := t\<rparr>\<rparr>"]
    by simp
  show ?thesis
    unfolding reconcile_active_def
    by (intro reconciled_bind wp_intros reconciled_return stored emits_finalizer emits_intros
        unrefused.emits_getExpirationTime) (simp_all add: reconciled_return)
qed

lemma reconciled_Reconcile:
  assumes "lib_ok E"
  shows "wp (Reservation_Reconcile E req) (reconciled w) w"
proof -
  have "emits accepting (handleCAPICleanup E res)" for res
    by (rule unrefused_cleanup.emits_handleCAPICleanup) (simp_all add: accepting_status)
  then show ?thesis
    unfolding Reservation_Reconcile_def reconcile_waiting_def namespaceIsExpired_def Let_def
    by (intro reconciled_bind wp_intros reconciled_return reconciled_default reconciled_active
        emits_intros unrefused.emits_getExpirationTime assms) simp_all
qed

section \<open>A handover writes one namespace\<close>

text \<open>No call activates, or all writes of namespaces are of the one object \<open>z\<close>.\<close>

definition writes_only :: "namespace \<Rightarrow> event list \<Rightarrow> bool" where
  "writes_only z tr \<longleftrightarrow> (\<forall>e \<in> set tr. no_ns_write e \<or> (\<exists>r. e = NsEv (Update z r)))"

definition lone :: "event list \<Rightarrow> bool" where
  "lone tr \<longleftrightarrow> (\<forall>e \<in> set tr. not_activating e) \<or> (\<exists>z. writes_only z tr)"

definition plain :: "event \<Rightarrow> bool" where
  "plain e \<longleftrightarrow> no_ns_write e \<and> not_activating e"

lemma writes_only_append [simp]:
  "writes_only z (tr @ tr') \<longleftrightarrow> writes_only z tr \<and> writes_only z tr'"
  by (auto simp: writes_only_def)

lemma writes_only_none: "\<forall>e \<in> set tr. no_ns_write e \<Longrightarrow> writes_only z tr"
  by (auto simp: writes_only_def)

lemma writes_only_mem: "writes_only z tr \<Longrightarrow> NsEv (Update x r) \<in> set tr \<Longrightarrow> x = z"
  unfolding writes_only_def by (drule (1) bspec) (simp add: no_ns_write_def)

lemma read_plain: "is_read e \<Longrightarrow> plain e"
  using read_not_activating [of e] by (cases e) (auto simp: plain_def no_ns_write_def not_activating_def)

interpretation plain_secrets: secret_policy plain
  by unfold_locales (simp_all add: read_plain, simp_all add: plain_def no_ns_write_def not_activating_def)

interpretation not_activating_reserve: reserve_policy not_activating
  by unfold_locales (simp_all add: not_activating_def read_not_activating)

interpretation unwritten_cleanup: cleanup_policy no_ns_write
  by unfold_locales (auto simp: no_ns_write_def split: event.splits)

definition lone_run :: "'s world \<Rightarrow> 'a \<Rightarrow> 's world \<Rightarrow> bool" where
  "lone_run w out w' \<longleftrightarrow> (\<exists>tr. log w' = log w @ tr \<and> lone tr)"

lemma lone_bind:
  fixes m :: "('s world, 'a) state"
  assumes "emits plain m" and "\<And>x w1. wp (f x) (lone_run w1) w1"
  shows "wp (State_Monad.bind m f) (lone_run w) w"
  unfolding wp_bind
proof (rule wp_emits [OF assms(1)], rule wp_mono [OF assms(2)])
  fix tr out and w1 w' :: "'s world"
  assume "log w1 = log w @ tr" "\<forall>e \<in> set tr. plain e" "lone_run w1 out w'"
  then obtain tr' where "log w' = log w @ tr @ tr'" "lone tr'" by (auto simp: lone_run_def)
  with \<open>\<forall>e \<in> set tr. plain e\<close> writes_only_none [of tr] have "lone (tr @ tr')"
    by (auto simp: lone_def plain_def)
  with \<open>log w' = log w @ tr @ tr'\<close> show "lone_run w out w'" by (auto simp: lone_run_def)
qed

lemma lone_last:
  "emits no_ns_write m \<Longrightarrow> wp m (lone_run w) w" "emits not_activating m \<Longrightarrow> wp m (lone_run w) w"
  by (erule wp_emits; auto simp: lone_run_def lone_def dest: writes_only_none)+

lemma lone_return: "wp (State_Monad.return x) (lone_run w) w"
  by (simp add: lone_run_def lone_def)

lemma plain_parts:
  "emits plain (getExpirationTime E res)" "emits plain (verifyClowdEnvForReadyNs E n)"
  "emits plain (copy_reserved_secrets E n res)" "emits plain (addRoleBindings E ns)"
  "emits no_ns_write (activate_reservation E n t res)" "emits no_ns_write (ensure_finalizer E res)"
proof -
  have calls: "plain (NowEv t)" "plain (EnvEv a)" "plain (RangeEv ks)" "plain (RoleBindingEv b)"
    "no_ns_write (ResEv c)" "no_ns_write (MetricEv m)" "no_ns_write (NowEv t)" for t a ks b c m
    by (simp_all add: plain_def no_ns_write_def not_activating_def)
  have "emits plain (role_bindings_loop E ns rns)" for rns
    by (induction rns) (auto intro!: emits_intros simp: calls)
  then show "emits plain (addRoleBindings E ns)" by (simp add: addRoleBindings_def)
  show finalizer: "emits no_ns_write (ensure_finalizer E res)" for res
    unfolding ensure_finalizer_def by (intro emits_intros) (simp add: calls)
  show "emits no_ns_write (activate_reservation E n t res)"
    unfolding activate_reservation_def by (intro emits_intros finalizer) (simp_all add: calls)
qed (auto simp: copy_reserved_secrets_def verifyClowdEnvForReadyNs_def GetClowdEnv_def
    getExpirationTime_def plain_def no_ns_write_def not_activating_def
    intro!: emits_intros plain_secrets.emits_CopySecretsFrom plain_secrets.emits_CopyReservationSecrets)

lemma lone_reserve:
  "wp (reserveNamespace E n res) (\<lambda>x w'. \<exists>z tr. log w' = log w @ tr \<and> writes_only z tr) w"
proof -
  have quiet: "writes_only z tr" if "\<forall>e \<in> set tr. plain e" for z tr
    using that by (auto simp: plain_def intro: writes_only_none)
  have call: "writes_only z (e # tr) \<longleftrightarrow> (no_ns_write e \<or> (\<exists>r. e = NsEv (Update z r))) \<and> writes_only z tr"
    "writes_only z []" "no_ns_write (NsEv (Get k g))" for z e tr k g
    by (auto simp: writes_only_def no_ns_write_def)
  show ?thesis
    unfolding reserveNamespace_def
    by (intro wp_bind [THEN iffD2] wp_emits [OF plain_parts(3)] wp_emits [OF plain_parts(4)]
        wp_intros wp_k_call wp_return [THEN iffD2])
      (auto simp: call quiet)
qed

lemma lone_take:
  assumes lib: "lib_ok E"
  shows "wp (take_namespace E n t res) (lone_run w) w"
proof -
  have calls: "plain (PoolEv a)" "no_ns_write (MetricEv m)" for a m
    by (simp_all add: plain_def no_ns_write_def not_activating_def)
  have handover: "wp (State_Monad.bind (reserveNamespace E n res) f) (lone_run w) w"
    if "\<And>x. emits no_ns_write (f x)" for f :: "gerr option outcome \<Rightarrow> ('a world, reconcile_result outcome) state" and w
    unfolding wp_bind
    by (rule wp_mono [OF lone_reserve], elim exE conjE, rule wp_emits [OF that])
      (auto simp: lone_run_def lone_def dest: writes_only_none)
  show ?thesis
    unfolding take_namespace_def
    by (intro lone_bind wp_intros lone_return handover emits_intros plain_parts
        lone_last(2) [OF emits_bind [OF not_activating_reserve.emits_UpdateAnnotations [OF lib]]]; simp add: calls)
qed

lemma lone_default:
  assumes lib: "lib_ok E"
  shows "wp (reconcile_default E res) (lone_run w) w"
  unfolding reconcile_default_def
  by (intro lone_bind wp_intros lone_return lone_take [OF lib] plain_parts emits_intros
      plain_secrets.emits_GetReadyNamespaces lone_last(1))
    (simp_all add: plain_def no_ns_write_def not_activating_def)

lemma lone_Reconcile:
  assumes lib: "lib_ok E"
  shows "wp (Reservation_Reconcile E req) (lone_run w) w"
proof -
  have cleanup: "emits no_ns_write (handleCAPICleanup E res)" for res
    by (rule unwritten_cleanup.emits_handleCAPICleanup) (simp add: no_ns_write_def)
  have active: "emits no_ns_write (reconcile_active E res)" for res
    unfolding reconcile_active_def
    by (intro emits_intros plain_parts emits_weaken [OF plain_parts(1)]) (simp_all add: plain_def no_ns_write_def)
  have calls: "plain (NowEv t)" "plain (ResEv (Get k g))" "plain (ResEv (Delete x d))" for t k g x d
    by (simp_all add: plain_def no_ns_write_def not_activating_def)
  show ?thesis
    unfolding Reservation_Reconcile_def reconcile_waiting_def namespaceIsExpired_def Let_def
    by (intro lone_bind wp_intros lone_return lone_default [OF lib] lone_last(1) [OF active]
        lone_last(1) [OF emits_bind [OF cleanup]] plain_parts emits_intros)
      (simp_all add: calls)
qed

text \<open>The namespace read under the name \<open>n\<close> is stored as \<open>z\<close>, owned by the reservation.\<close>

definition takes :: "reservation \<Rightarrow> string \<Rightarrow> namespace \<Rightarrow> event list \<Rightarrow> bool" where
  "takes res n z h \<longleftrightarrow> (\<exists>ns a ns'. NsEv (Get (cluster_key n) (Inr ns)) \<in> set h \<and>
     z = reserved_object res a ns \<and> NsEv (Update z (Inr ns')) \<in> set h)"

lemma subseq_mem: "subseq xs ys \<Longrightarrow> x \<in> set xs \<Longrightarrow> x \<in> set ys"
  unfolding subseq_singleton_left [symmetric] by (rule subseq_order.trans)

lemma handed_over_takes: "handed_over E res n h \<Longrightarrow> \<exists>z. takes res n z h"
  unfolding handed_over_def takes_def by (fastforce dest: subseq_mem)

lemma activation_takes:
  assumes "lib_ok E" and "state_of x = ''active''"
    and "events (Reservation_Reconcile E req) w = pre @ ResEv (StatusUpdate x r) # post"
    and "\<forall>res0. ResEv (Get req (Inr res0)) \<in> set pre \<longrightarrow> state_of res0 \<noteq> ''active''"
  obtains res0 z where "ResEv (Get req (Inr res0)) \<in> set pre"
    "takes (default_pool res0) (rsNamespace (resStatus x)) z pre"
proof -
  from follows_events [OF follows_Reservation_Reconcile [OF assms(1)] assms(3)] assms(2,4)
  obtain res0 n t where res0: "ResEv (Get req (Inr res0)) \<in> set pre"
    "x = active_status n t (default_pool res0)" "handed_over E (default_pool res0) n pre"
    by (auto simp: activation_guard_def may_activate_def)
  then obtain z where "takes (default_pool res0) n z pre" using handed_over_takes by blast
  with res0(1,2) show ?thesis by (intro that [of res0 z]) (simp_all add: active_status_def)
qed

section \<open>Properties\<close>

text \<open>
  C19. A refused activation is not undone. When the status write that makes a pending reservation
  active is refused, the handover before it was complete: the namespace has been written as
  owned by the reservation and bound. The reconciliation ends with that very call and its error,
  so the namespace stays reserved while the reservation stays pending without it, and the table
  of the poller has an entry for a reservation that is not active.
\<close>

theorem refused_activation_not_undone:
  assumes "lib_ok E" and "state_of x = ''active''"
    and "events (Reservation_Reconcile E req) w = pre @ ResEv (StatusUpdate x (Inl err)) # post"
    and "\<forall>res0. ResEv (Get req (Inr res0)) \<in> set pre \<longrightarrow> state_of res0 \<noteq> ''active''"
  shows "post = [] \<and> (\<exists>res0 n t. x = active_status n t (default_pool res0) \<and>
      handed_over E (default_pool res0) n pre) \<and>
    (case run_state (Reservation_Reconcile E req) (w\<lparr>log := []\<rparr>) of (out, w') \<Rightarrow>
       out = Returned (no_requeue, Some err) \<and>
       map_of (active w') (mName x) = Some (rsExpiration (resStatus x)))"
proof -
  obtain out w' where run: "run_state (Reservation_Reconcile E req) (w\<lparr>log := []\<rparr>) = (out, w')"
    by (rule run_cases)
  with wpD [OF reconciled_Reconcile [OF assms(1)] run] assms(2,3)
  have "post = [] \<and> out = Returned (no_requeue, Some err) \<and>
      map_of (active w') (mName x) = Some (rsExpiration (resStatus x))"
    unfolding reconciled_def refusal_ends_def refused_status_def events_def by auto
  moreover have "\<exists>res0 n t. x = active_status n t (default_pool res0) \<and>
      handed_over E (default_pool res0) n pre"
    using follows_events [OF follows_Reservation_Reconcile [OF assms(1)] assms(3)] assms(2,4)
    by (auto simp: activation_guard_def may_activate_def)
  ultimately show ?thesis using run by simp
qed


text \<open>
  C20. A namespace whose handover could not be recorded is abandoned. Let the status write that
  makes a pending reservation active be refused, and let a later reconciliation, whatever has
  happened in between, read the reservation as still pending and make it active. Each of the two
  has stored the namespace it names as owned by the reservation it read; and the second writes
  no other namespace than its own and neither creates nor deletes one, so when it takes another
  one the first is not given back, and no status names it.
\<close>

theorem refused_namespace_abandoned:
  assumes "lib_ok E"
    and "events (Reservation_Reconcile E req) w1 = pre1 @ ResEv (StatusUpdate x1 (Inl err)) # post1"
    and "state_of x1 = ''active''"
    and "\<forall>res. ResEv (Get req (Inr res)) \<in> set pre1 \<longrightarrow> state_of res \<noteq> ''active''"
    and "events (Reservation_Reconcile E req) w2 = pre2 @ ResEv (StatusUpdate x2 (Inr y2)) # post2"
    and "state_of x2 = ''active''"
    and "\<forall>res. ResEv (Get req (Inr res)) \<in> set pre2 \<longrightarrow> state_of res \<noteq> ''active''"
  shows "\<exists>res1 z1 res2 z2.
    ResEv (Get req (Inr res1)) \<in> set pre1 \<and> ResEv (Get req (Inr res2)) \<in> set pre2 \<and>
    takes (default_pool res1) (rsNamespace (resStatus x1)) z1 pre1 \<and>
    takes (default_pool res2) (rsNamespace (resStatus x2)) z2 pre2 \<and>
    mOwnerReferences z1 = [Reservation_MakeOwnerReference res1] \<and>
    mOwnerReferences z2 = [Reservation_MakeOwnerReference res2] \<and>
    (\<forall>e \<in> set (events (Reservation_Reconcile E req) w2). no_ns_write e \<or> (\<exists>r. e = NsEv (Update z2 r)))"
proof -
  obtain res1 z1 where 1: "ResEv (Get req (Inr res1)) \<in> set pre1"
    "takes (default_pool res1) (rsNamespace (resStatus x1)) z1 pre1"
    by (rule activation_takes [OF assms(1,3,2,4)])
  obtain res2 z2 where 2: "ResEv (Get req (Inr res2)) \<in> set pre2"
    "takes (default_pool res2) (rsNamespace (resStatus x2)) z2 pre2"
    by (rule activation_takes [OF assms(1,6,5,7)])
  have owners: "mOwnerReferences z = [Reservation_MakeOwnerReference res]"
    if "takes (default_pool res) n z h" for res n z h
    using that by (auto simp: takes_def reserved_object_def default_pool_def Reservation_MakeOwnerReference_def)
  obtain out w' where run: "run_state (Reservation_Reconcile E req) (w2\<lparr>log := []\<rparr>) = (out, w')"
    by (rule run_cases)
  from wpD [OF lone_Reconcile [OF assms(1)] run] run
  have "lone (events (Reservation_Reconcile E req) w2)"
    by (simp add: lone_run_def events_def)
  with assms(5,6) obtain z where z: "writes_only z (events (Reservation_Reconcile E req) w2)"
    by (auto simp: lone_def not_activating_def)
  moreover from 2(2) obtain ns' where "NsEv (Update z2 (Inr ns')) \<in> set pre2"
    by (auto simp: takes_def)
  ultimately have "z = z2"
    using assms(5) writes_only_mem [of z pre2 z2] by simp
  with 1 2 owners [OF 1(2)] owners [OF 2(2)] z show ?thesis
    unfolding writes_only_def by blast
qed

end
