(* ===== verification/Ownership_Faults.thy ===== *)
theory Ownership_Faults
  imports Refused_Activation
begin

text \<open>
  How a namespace gets into wrong hands: a random name that comes up again. With it the runs that
  are the concrete inputs of the theorems on the owners: such a clash, and a status write that is
  refused after the handover.
\<close>

section \<open>A random name that comes up again\<close>

text \<open>The namespace, or the project, was asked for and refused.\<close>

definition create_refused :: "string \<Rightarrow> event \<Rightarrow> bool" where
  "create_refused n e \<longleftrightarrow> (\<exists>err. e = NsEv (Create (zero_meta\<lparr>mName := n\<rparr>) (Inl err)) \<or>
     e = ProjectEv (Create (zero_meta\<lparr>mName := n\<rparr>) (Inl err)))"

lemma CreateNamespace_refused:
  assumes "run_state (CreateNamespace E pool) w = ((n, Some err), w1)"
  obtains sfx e where "n = random_name sfx" "log w1 = log w @ [RandEv 6 sfx, e]" "create_refused n e"
proof -
  have refused: "create_refused n (NsEv (Create (zero_meta\<lparr>mName := n\<rparr>) (Inl err)))"
    "create_refused n (ProjectEv (Create (zero_meta\<lparr>mName := n\<rparr>) (Inl err)))" for n err
    by (auto simp: create_refused_def)
  from assms refused that show ?thesis
    by (auto simp: CreateNamespace_def Let_def random_name_def split: if_splits sum.splits)
qed

text \<open>
  C18. A pool takes whatever has the name it drew. Let the creation of a namespace be refused, for
  instance because a namespace of this name exists, and let the setup that follows succeed. The
  refusal is not noticed by the loop that fills the pool. The namespace that is read under the
  drawn name, whoever owns it and whatever it is used for, has been written back with the pool
  as its only owner, as not reserved, with the pool's label; and when the pool has no
  ClowdEnvironment it has then been marked as ready, to be given to the next reservation.
\<close>

theorem name_clash_takes_namespace:
  assumes "lib_ok E"
    and "run_state (CreateNamespace E pool) w = ((n, Some err), w1)"
    and "run_state (UpdateNamespaceResources E pool n) w1 = ((ns, None), w2)"
  shows "run_state (increase_loop E pool (Suc k)) w = run_state (increase_loop E pool k) w2 \<and>
    (\<exists>sfx e tr1 old x y tr2 tr3. n = random_name sfx \<and> create_refused n e \<and>
      log w2 = log w @ [RandEv 6 sfx, e] @ tr1 @
        [NsEv (Get (cluster_key n) (Inr old)), NsEv (Update x (Inr y))] @ tr2 @ tr3 \<and>
      same_object x old \<and> mOwnerReferences x = [Pool_MakeOwnerReference pool] \<and>
      gm_lookup (mAnnotations x) AnnotationReserved = Some FalseValue \<and>
      gm_lookup (mLabels x) LabelPool = Some (mName pool) \<and>
      (psClowdEnvironment (poolSpec pool) = None \<longrightarrow>
         annotate_done E n [AnnotationEnvStatus \<mapsto> EnvStatusReady] tr3 None))"
proof -
  obtain sfx e where refused: "n = random_name sfx" "log w1 = log w @ [RandEv 6 sfx, e]"
    "create_refused n e" by (rule CreateNamespace_refused [OF assms(2)])
  have "wp (UpdateNamespaceResources E pool n) (\<lambda>r w'. snd r = None \<longrightarrow>
      (\<exists>tr. log w' = log w1 @ tr \<and> setup_done E pool n tr)) w1"
    by (rule wp_UpdateNamespaceResources [OF assms(1)]) auto
  from wpD [OF this assms(3)] obtain tr where tr: "log w2 = log w1 @ tr" "setup_done E pool n tr"
    by auto
  from tr(2) obtain tr1 old y tr2 tr3 where
    "tr = tr1 @ [NsEv (Get (cluster_key n) (Inr old)), NsEv (Update (adopt_namespace E pool old) (Inr y))] @ tr2 @ tr3"
    "ready_part E (psClowdEnvironment (poolSpec pool)) n tr3"
    unfolding setup_done_def by (metis append.assoc)
  moreover from this(2) have "psClowdEnvironment (poolSpec pool) = None \<Longrightarrow>
      annotate_done E n [AnnotationEnvStatus \<mapsto> EnvStatusReady] tr3 None"
    by (simp add: ready_part_def)
  moreover have "same_object (adopt_namespace E pool old) old"
    "mOwnerReferences (adopt_namespace E pool old) = [Pool_MakeOwnerReference pool]"
    "gm_lookup (mAnnotations (adopt_namespace E pool old)) AnnotationReserved = Some FalseValue"
    "gm_lookup (mLabels (adopt_namespace E pool old)) LabelPool = Some (mName pool)"
    by (simp_all add: adopt_namespace_def same_object_def lib_okD(3,4) [OF assms(1)]
        CreateInitialAnnotations_def CreateInitialLabels_def)
  moreover have "run_state (increase_loop E pool (Suc k)) w = run_state (increase_loop E pool k) w2"
    by (simp add: assms(2,3))
  ultimately show ?thesis
    using refused tr(1)
    by - (rule conjI, assumption, rule exI [of _ sfx], rule exI [of _ e], rule exI [of _ tr1],
        rule exI [of _ old], rule exI [of _ "adopt_namespace E pool old"], rule exI [of _ y],
        rule exI [of _ tr2], rule exI [of _ tr3], simp del: increase_loop.simps)
qed

section \<open>A run with a clash\<close>

text \<open>
  A ready namespace of a pool of one is lent to a reservation; the pool is reconciled, is one
  namespace short and draws a suffix: the one of the namespace that is lent.
\<close>

definition clash_name :: string where
  "clash_name = ''ephemeral-aaaaaa''"

definition clash_reservation :: "string \<Rightarrow> reservation" where
  "clash_reservation n = (let res = sample_reservation '''' in
     res\<lparr>mName := n, mUID := n, tKind := ''NamespaceReservation'',
       resSpec := (resSpec res)\<lparr>rsPool := ''p''\<rparr>\<rparr>)"

definition clash_pool :: pool where
  "clash_pool = (let pool = sample_pool ''p'' None in
     pool\<lparr>tKind := KindNamespacePool, poolSpec := (poolSpec pool)\<lparr>psSize := 1\<rparr>\<rparr>)"

definition clash_start :: "sample world" where
  "clash_start = sample_world (empty_sample\<lparr>
     sm_ns := [(clash_name, ready_ns\<lparr>mName := clash_name\<rparr>)],
     sm_pools := [(''p'', clash_pool)],
     sm_res := [(''r'', clash_reservation ''r''), (''q'', clash_reservation ''q'')]\<rparr>)"

definition clash_lent :: "sample world" where
  "clash_lent = snd (run_state (Reservation_Reconcile sample_env ('''', ''r'')) clash_start)"

definition clash_taken :: "sample world" where
  "clash_taken = snd (run_state (Pool_Reconcile sample_env (cluster_key ''p'')) clash_lent)"

text \<open>A stored namespace is owned by the stored reservation.\<close>

definition owned_by :: "sample world \<Rightarrow> string \<Rightarrow> string \<Rightarrow> bool" where
  "owned_by w n r \<longleftrightarrow> (case (map_of (sm_ns (srv w)) n, map_of (sm_res (srv w)) r) of
     (Some ns, Some res) \<Rightarrow> mOwnerReferences ns = [Reservation_MakeOwnerReference res]
   | _ \<Rightarrow> False)"

definition clash_drawn :: "(string \<times> gerr option) \<times> sample world" where
  "clash_drawn = run_state (CreateNamespace sample_env clash_pool) clash_lent"

definition clash_set_up :: "(namespace \<times> gerr option) \<times> sample world" where
  "clash_set_up = run_state (UpdateNamespaceResources sample_env clash_pool clash_name) (snd clash_drawn)"

definition clash_seen :: bool where
  "clash_seen \<longleftrightarrow> owned_by clash_lent clash_name ''r'' \<and> fst (fst clash_drawn) = clash_name \<and>
     snd (fst clash_drawn) \<noteq> None \<and> snd (fst clash_set_up) = None \<and>
     psClowdEnvironment (poolSpec clash_pool) = None"

lemma clash_seen: clash_seen
  by code_simp

theorem name_clash_takes_namespace_witness:
  "owned_by clash_lent clash_name ''r'' \<and>
    (\<exists>old x y. NsEv (Get (cluster_key clash_name) (Inr old)) \<in> set (log (snd clash_set_up)) \<and>
      NsEv (Update x (Inr y)) \<in> set (log (snd clash_set_up)) \<and> same_object x old \<and>
      mOwnerReferences x = [Pool_MakeOwnerReference clash_pool])"
proof -
  from clash_seen obtain err where 1: "fst clash_drawn = (clash_name, Some err)"
    and 2: "snd (fst clash_set_up) = None" and lent: "owned_by clash_lent clash_name ''r''"
    unfolding clash_seen_def by (metis not_None_eq prod.collapse)
  from 1 have drawn: "run_state (CreateNamespace sample_env clash_pool) clash_lent =
      ((clash_name, Some err), snd clash_drawn)"
    unfolding clash_drawn_def by (metis prod.collapse)
  from 2 have "run_state (UpdateNamespaceResources sample_env clash_pool clash_name) (snd clash_drawn) =
      ((fst (fst clash_set_up), None), snd clash_set_up)"
    unfolding clash_set_up_def by (metis prod.collapse)
  from name_clash_takes_namespace [OF sample_lib_ok drawn this] lent show ?thesis
    by fastforce
qed

text \<open>The two reconciliations as a history.\<close>

lemma calls_one: "calls v (map (Pair u) tr) = (if u = v then tr else [])"
  by (induction tr) auto

lemma two_runs:
  assumes "turn E u tr" and "turn E v tr'" and "u \<noteq> v"
  shows "side_by_side E (map (Pair u) tr @ map (Pair v) tr')"
  unfolding side_by_side_def
proof
  fix t
  from assms show "\<exists>runs rest. (\<forall>r \<in> set runs. turn E t r) \<and>
      concat runs = calls t (map (Pair u) tr @ map (Pair v) tr') @ rest"
    by (intro exI [of _ "if t = u then [tr] else if t = v then [tr'] else []"] exI [of _ "[]"])
      (auto simp: calls_one)
qed

definition clash_history :: history where
  "clash_history =
     map (Pair Reservations) (events (Reservation_Reconcile sample_env ('''', ''r'')) clash_start) @
     map (Pair Pools) (events (Pool_Reconcile sample_env (cluster_key ''p'')) clash_lent)"

lemma clash_side_by_side: "side_by_side sample_env clash_history"
  unfolding clash_history_def cluster_key_def by (rule two_runs) auto

lemma two_positions:
  assumes "i < j" "j < length l"
  shows "l = take i l @ l ! i # take (j - Suc i) (drop (Suc i) l) @ l ! j # drop (Suc j) l"
proof -
  have "drop (Suc i) l = take (j - Suc i) (drop (Suc i) l) @ l ! j # drop (Suc j) l"
    using assms id_take_nth_drop [of "j - Suc i" "drop (Suc i) l"] by simp
  with assms id_take_nth_drop [of i l] show ?thesis by simp
qed

text \<open>The lending and the adoption, and what is between them.\<close>

fun lent_adopted :: "worker \<times> event \<Rightarrow> history \<Rightarrow> worker \<times> event \<Rightarrow> bool" where
  "lent_adopted (Reservations, NsEv (Update x (Inr y))) h2 (Pools, NsEv (Update x' (Inr y'))) \<longleftrightarrow>
     mName x = clash_name \<and> map rKind (mOwnerReferences x) = [''NamespaceReservation''] \<and>
     mName x' = mName x \<and> mOwnerReferences x' \<noteq> mOwnerReferences x \<and>
     list_all (\<lambda>c. \<not> creates_named (mName x) (snd c)) h2 \<and>
     list_all (\<lambda>c. stores_owners (mName x) (snd c) \<in> {None, Some (mOwnerReferences x)}) h2"
| "lent_adopted _ _ _ \<longleftrightarrow> False"

definition clash_history_seen :: "history \<Rightarrow> bool" where
  "clash_history_seen H \<longleftrightarrow> 18 < length H \<and> optimistic_owners H \<and>
     lent_adopted (H ! 4) (take 13 (drop 5 H)) (H ! 18)"

lemma clash_history_seen: "clash_history_seen clash_history"
  by code_simp

lemma clash_writes:
  obtains h1 x y h2 x' y' h3 where
    "clash_history = h1 @ (Reservations, NsEv (Update x (Inr y))) # h2 @ (Pools, NsEv (Update x' (Inr y'))) # h3"
    "lent_adopted (Reservations, NsEv (Update x (Inr y))) h2 (Pools, NsEv (Update x' (Inr y')))"
proof -
  from clash_history_seen have len: "18 < length clash_history" and
    seen: "lent_adopted (clash_history ! 4) (take 13 (drop 5 clash_history)) (clash_history ! 18)"
    by (simp_all add: clash_history_seen_def)
  from seen obtain x y x' y' where "clash_history ! 4 = (Reservations, NsEv (Update x (Inr y)))"
    "clash_history ! 18 = (Pools, NsEv (Update x' (Inr y')))"
    by (elim lent_adopted.elims(2)) blast
  with two_positions [of 4 18 clash_history] len seen that show ?thesis by simp
qed

theorem ownership_changes_witness:
  "\<exists>pre x y post. clash_history = pre @ (Reservations, NsEv (Update x (Inr y))) # post \<and>
    mName x = clash_name \<and> (keeps (calls Reservations pre) x \<or> lends (calls Reservations pre) x)"
proof -
  obtain pre x y h2 x' y' h3 where
    H: "clash_history = pre @ (Reservations, NsEv (Update x (Inr y))) # h2 @ (Pools, NsEv (Update x' (Inr y'))) # h3"
    and x: "lent_adopted (Reservations, NsEv (Update x (Inr y))) h2 (Pools, NsEv (Update x' (Inr y')))"
    by (rule clash_writes)
  from ownership_changes [OF sample_lib_ok clash_side_by_side H] H x show ?thesis by auto
qed

theorem lent_namespace_stays_witness:
  "\<exists>h1 x y h2 x' y' h3. clash_history = h1 @ (Reservations, NsEv (Update x (Inr y))) # h2 @
      (Pools, NsEv (Update x' (Inr y'))) # h3 \<and>
    map rKind (mOwnerReferences x) = [''NamespaceReservation''] \<and>
    mOwnerReferences x' \<noteq> mOwnerReferences x \<and> drawn clash_name (calls Pools (h1 @ h2))"
proof -
  obtain h1 x y h2 x' y' h3 where
    H: "clash_history = h1 @ (Reservations, NsEv (Update x (Inr y))) # h2 @ (Pools, NsEv (Update x' (Inr y'))) # h3"
    and x: "lent_adopted (Reservations, NsEv (Update x (Inr y))) h2 (Pools, NsEv (Update x' (Inr y')))"
    by (rule clash_writes)
  from clash_history_seen have "optimistic_owners clash_history"
    by (simp add: clash_history_seen_def)
  from lent_namespace_stays [OF sample_lib_ok clash_side_by_side this H] x
  have drawn: "drawn clash_name (calls Pools (h1 @ h2))"
    by (auto simp: list_all_iff)
  from x have "map rKind (mOwnerReferences x) = [''NamespaceReservation'']"
    "mOwnerReferences x' \<noteq> mOwnerReferences x" by auto
  from conjI [OF H conjI [OF this(1) conjI [OF this(2) drawn]]] show ?thesis by (intro exI)
qed

section \<open>A status write that is refused\<close>

text \<open>
  A run on a cluster that refuses status writes of reservations until its clock is at 2000: the
  first reconciliation of a reservation hands a namespace over and fails to record it; the second
  finds the reservation as new as before and hands another one over.
\<close>

definition flaky_env :: "sample env" where
  "flaky_env = sample_env\<lparr>res_api := (res_api sample_env)\<lparr>k_status_update := (\<lambda>x s.
     if sm_clock s < 2000 then (Inl (ApiError Conflict), s)
     else k_status_update (res_api sample_env) x s)\<rparr>\<rparr>"

lemma flaky_lib_ok: "lib_ok flaky_env"
  using sample_lib_ok by (simp add: lib_ok_def flaky_env_def)

definition flaky_start :: "sample world" where
  "flaky_start = sample_world (empty_sample\<lparr>
     sm_ns := map (\<lambda>n. (n, ready_ns\<lparr>mName := n\<rparr>)) [''n1'', ''n2''],
     sm_pools := [(''p'', clash_pool)], sm_res := [(''r'', clash_reservation ''r'')]\<rparr>)"

definition flaky_first :: "sample world" where
  "flaky_first = snd (run_state (Reservation_Reconcile flaky_env ('''', ''r'')) flaky_start)"

definition flaky_later :: "sample world" where
  "flaky_later = with_srv (\<lambda>s. s\<lparr>sm_clock := 3000\<rparr>) flaky_first"

text \<open>The refused write that ends the first, and the accepted one in the second.\<close>

fun refuses_activation :: "event \<Rightarrow> bool" where
  "refuses_activation (ResEv (StatusUpdate x (Inl err))) \<longleftrightarrow>
     state_of x = ''active'' \<and> rsNamespace (resStatus x) = ''n1''"
| "refuses_activation _ \<longleftrightarrow> False"

fun reads_active :: "event \<Rightarrow> bool" where
  "reads_active (ResEv (Get req (Inr res))) \<longleftrightarrow> state_of res = ''active''"
| "reads_active _ \<longleftrightarrow> False"

definition flaky_events :: "event list" where
  "flaky_events = events (Reservation_Reconcile flaky_env ('''', ''r'')) flaky_start"

definition ends_refused :: "event list \<Rightarrow> bool" where
  "ends_refused h \<longleftrightarrow> h \<noteq> [] \<and> refuses_activation (last h) \<and>
     list_all (\<lambda>e. \<not> reads_active e) (butlast h)"

lemma ends_refusedE:
  assumes "ends_refused h"
  obtains x err where "h = butlast h @ ResEv (StatusUpdate x (Inl err)) # []"
    "state_of x = ''active''" "rsNamespace (resStatus x) = ''n1''"
    "\<forall>res. ResEv (Get req (Inr res)) \<in> set (butlast h) \<longrightarrow> state_of res \<noteq> ''active''"
proof -
  from assms obtain x err where "last h = ResEv (StatusUpdate x (Inl err))" "state_of x = ''active''"
    "rsNamespace (resStatus x) = ''n1''"
    by (cases "last h" rule: refuses_activation.cases) (auto simp: ends_refused_def)
  with assms that [of x err] append_butlast_last_id [of h] show ?thesis
    by (fastforce simp: ends_refused_def list_all_iff)
qed

fun accepts_activation :: "event \<Rightarrow> bool" where
  "accepts_activation (ResEv (StatusUpdate x (Inr y))) \<longleftrightarrow>
     state_of x = ''active'' \<and> rsNamespace (resStatus x) = ''n2''"
| "accepts_activation _ \<longleftrightarrow> False"

definition flaky_second_events :: "event list" where
  "flaky_second_events = events (Reservation_Reconcile flaky_env ('''', ''r'')) flaky_later"

definition flaky_seen :: bool where
  "flaky_seen \<longleftrightarrow> ends_refused flaky_events \<and> list_ex accepts_activation flaky_second_events \<and>
     list_all (\<lambda>e. \<not> reads_active e) flaky_second_events"

lemma flaky_seen: flaky_seen
  by code_simp

lemma flaky_refused:
  obtains x err where "flaky_events = butlast flaky_events @ ResEv (StatusUpdate x (Inl err)) # []"
    "state_of x = ''active''" "rsNamespace (resStatus x) = ''n1''"
    "\<forall>res. ResEv (Get ('''', ''r'') (Inr res)) \<in> set (butlast flaky_events) \<longrightarrow> state_of res \<noteq> ''active''"
  using flaky_seen ends_refusedE [of flaky_events "('''', ''r'')"] unfolding flaky_seen_def by blast

lemma flaky_accepted:
  obtains pre x y post where "flaky_second_events = pre @ ResEv (StatusUpdate x (Inr y)) # post"
    "state_of x = ''active''" "rsNamespace (resStatus x) = ''n2''"
    "\<forall>res. ResEv (Get ('''', ''r'') (Inr res)) \<in> set pre \<longrightarrow> state_of res \<noteq> ''active''"
proof -
  from flaky_seen obtain e where e: "e \<in> set flaky_second_events" "accepts_activation e"
    by (auto simp: flaky_seen_def list_ex_iff)
  then obtain pre post where split: "flaky_second_events = pre @ e # post" by (meson split_list)
  from e(2) obtain x y where "e = ResEv (StatusUpdate x (Inr y))" "state_of x = ''active''"
    "rsNamespace (resStatus x) = ''n2''" by (cases e rule: accepts_activation.cases) auto
  moreover have none: "list_all (\<lambda>e. \<not> reads_active e) pre"
    using flaky_seen [unfolded flaky_seen_def split] by simp
  have "\<forall>res. ResEv (Get ('''', ''r'') (Inr res)) \<in> set pre \<longrightarrow> state_of res \<noteq> ''active''"
  proof (intro allI impI)
    fix res
    assume "ResEv (Get ('''', ''r'') (Inr res)) \<in> set pre"
    with none have "\<not> reads_active (ResEv (Get ('''', ''r'') (Inr res)))"
      unfolding list_all_iff by (rule bspec)
    then show "state_of res \<noteq> ''active''" by simp
  qed
  ultimately show ?thesis using split by (intro that) simp_all
qed

theorem refused_activation_not_undone_witness:
  "\<exists>pre x. (\<exists>err. flaky_events = pre @ [ResEv (StatusUpdate x (Inl err))]) \<and>
    (\<exists>res0 n t. x = active_status n t (default_pool res0) \<and>
      handed_over flaky_env (default_pool res0) n pre)"
proof -
  obtain x err where evs: "flaky_events = butlast flaky_events @ ResEv (StatusUpdate x (Inl err)) # []"
    and x: "state_of x = ''active''"
    and new: "\<forall>res. ResEv (Get ('''', ''r'') (Inr res)) \<in> set (butlast flaky_events) \<longrightarrow>
      state_of res \<noteq> ''active''" by (rule flaky_refused)
  from refused_activation_not_undone [OF flaky_lib_ok x evs [unfolded flaky_events_def]
      new [unfolded flaky_events_def]] evs
  show ?thesis unfolding flaky_events_def by blast
qed

theorem refused_namespace_abandoned_witness:
  "\<exists>pre1 res1 z1 pre2 res2 z2. takes (default_pool res1) ''n1'' z1 pre1 \<and>
    takes (default_pool res2) ''n2'' z2 pre2 \<and> set pre1 \<subseteq> set flaky_events \<and>
    (\<forall>e \<in> set flaky_second_events. no_ns_write e \<or> (\<exists>r. e = NsEv (Update z2 r)))"
proof -
  obtain x1 err where 1: "flaky_events = butlast flaky_events @ ResEv (StatusUpdate x1 (Inl err)) # []"
    "state_of x1 = ''active''" "rsNamespace (resStatus x1) = ''n1''"
    "\<forall>res. ResEv (Get ('''', ''r'') (Inr res)) \<in> set (butlast flaky_events) \<longrightarrow> state_of res \<noteq> ''active''"
    by (rule flaky_refused)
  obtain pre x2 y post where 2: "flaky_second_events = pre @ ResEv (StatusUpdate x2 (Inr y)) # post"
    "state_of x2 = ''active''" "rsNamespace (resStatus x2) = ''n2''"
    "\<forall>res. ResEv (Get ('''', ''r'') (Inr res)) \<in> set pre \<longrightarrow> state_of res \<noteq> ''active''"
    by (rule flaky_accepted)
  from refused_namespace_abandoned [OF flaky_lib_ok 1(1) [unfolded flaky_events_def] 1(2)
      1(4) [unfolded flaky_events_def] 2(1) [unfolded flaky_second_events_def] 2(2,4)]
  obtain z1 z2 res1 res2 where "takes (default_pool res1) ''n1'' z1 (butlast flaky_events)"
    "takes (default_pool res2) ''n2'' z2 pre"
    "\<forall>e \<in> set flaky_second_events. no_ns_write e \<or> (\<exists>r. e = NsEv (Update z2 r))"
    unfolding 1(3) 2(3) flaky_events_def flaky_second_events_def by blast
  moreover have "set (butlast flaky_events) \<subseteq> set flaky_events" by (auto dest: in_set_butlastD)
  ultimately show ?thesis by blast
qed

end
