(* ===== verification/Startup.thy ===== *)
theory Startup
  imports Poller
begin

text \<open>
  \<^verbatim>\<open>main.go\<close>, \<^verbatim>\<open>run.go\<close>, the \<^verbatim>\<open>init\<close> of \<^verbatim>\<open>metrics.go\<close> and the \<^verbatim>\<open>SetupWithManager\<close> functions: how the
  process registers its types and collectors, builds the manager with its three controllers
  and health checks, and starts the poller and the manager. The controller runtime, the flag
  package and the metrics registry are the fields of the parameter \<open>runtime\<close>; as in
  \<open>Cluster_Api\<close>, each call is recorded with its answer.
\<close>

section \<open>What is registered with the manager\<close>

datatype watch_handler = MapEnqueueNamespace

datatype event_filter = FilterByPool

datatype reconciler = ReservationReconciler | PoolReconciler | ClowdenvironmentReconciler

text \<open>
  What the calls on \<^verbatim>\<open>ctrl.NewControllerManagedBy\<close> describe: the kind that is reconciled, other
  kinds that are watched with the function from their events to requests, a filter on the
  events, the base and maximal delay of the rate limiter when it is not the default one.
\<close>

record controller =
  ctFor :: string
  ctWatches :: "(string \<times> watch_handler) list"
  ctEventFilter :: "event_filter option"
  ctRateLimiter :: "(duration \<times> duration) option"
  ctReconciler :: reconciler

record manager_options =
  moMetricsBindAddress :: string
  moHealthProbeBindAddress :: string
  moLeaderElection :: bool
  moLeaderElectionID :: string

datatype flag = StringFlag string string string | BoolFlag string bool string

datatype flag_value = StringValue string | BoolValue bool

section \<open>The process\<close>

datatype start_event =
    RegisterCollector collector "gerr option"
  | AddToScheme string "gerr option"
  | ParseFlags "flag list" "(flag_value list) option"
  | UpdateMetric metric
  | GetConfig bool
  | NewManager manager_options "gerr option"
  | CompleteController controller "gerr option"
  | AddHealthzCheck string "gerr option"
  | AddReadyzCheck string "gerr option"
  | GoPoll
  | StartManager "gerr option"

record 's process =
  outside :: 's
  calls :: "start_event list"

text \<open>
  \<open>rt_parse_flags\<close> gives the values of the declared flags in order, or None when the command line
  is refused, which ends the process; so does \<^verbatim>\<open>GetConfigOrDie\<close> without a configuration.
\<close>

record 's runtime =
  rt_version :: string
  rt_register :: "collector \<Rightarrow> 's \<Rightarrow> gerr option \<times> 's"
  rt_add_to_scheme :: "string \<Rightarrow> 's \<Rightarrow> gerr option \<times> 's"
  rt_parse_flags :: "flag list \<Rightarrow> 's \<Rightarrow> (flag_value list) option \<times> 's"
  rt_get_config :: "'s \<Rightarrow> bool \<times> 's"
  rt_new_manager :: "manager_options \<Rightarrow> 's \<Rightarrow> gerr option \<times> 's"
  rt_complete :: "controller \<Rightarrow> 's \<Rightarrow> gerr option \<times> 's"
  rt_add_healthz :: "string \<Rightarrow> 's \<Rightarrow> gerr option \<times> 's"
  rt_add_readyz :: "string \<Rightarrow> 's \<Rightarrow> gerr option \<times> 's"
  rt_start :: "'s \<Rightarrow> gerr option \<times> 's"

definition rt_call :: "('s \<Rightarrow> 'r \<times> 's) \<Rightarrow> ('r \<Rightarrow> start_event) \<Rightarrow> ('s process, 'r) state" where
  "rt_call f ev = State (\<lambda>p. case f (outside p) of
     (r, s') \<Rightarrow> (r, p\<lparr>outside := s', calls := calls p @ [ev r]\<rparr>))"

abbreviation rt_note :: "start_event \<Rightarrow> ('s process, unit) state" where
  "rt_note e \<equiv> rt_call (Pair ()) (\<lambda>_. e)"

text \<open>How the process ends: \<^verbatim>\<open>main\<close> returns, \<^verbatim>\<open>os.Exit\<close>, or a panic during initialization.\<close>

datatype ending = MainReturned | Exited int | InitPanic gerr

section \<open>The controllers\<close>

definition reservation_controller :: controller where
  "reservation_controller = \<lparr>ctFor = ''NamespaceReservation'', ctWatches = [],
     ctEventFilter = None, ctRateLimiter = Some (500 * (Second div 1000), 60 * Second),
     ctReconciler = ReservationReconciler\<rparr>"

definition pool_controller :: controller where
  "pool_controller = \<lparr>ctFor = ''NamespacePool'', ctWatches = [(''Namespace'', MapEnqueueNamespace)],
     ctEventFilter = None, ctRateLimiter = None, ctReconciler = PoolReconciler\<rparr>"

definition clowdenv_controller :: controller where
  "clowdenv_controller = \<lparr>ctFor = ''ClowdEnvironment'', ctWatches = [],
     ctEventFilter = Some FilterByPool, ctRateLimiter = None,
     ctReconciler = ClowdenvironmentReconciler\<rparr>"

definition Reservation_SetupWithManager :: "'s runtime \<Rightarrow> ('s process, gerr option) state" where
  "Reservation_SetupWithManager M =
     rt_call (rt_complete M reservation_controller) (CompleteController reservation_controller)"

definition Pool_SetupWithManager :: "'s runtime \<Rightarrow> ('s process, gerr option) state" where
  "Pool_SetupWithManager M =
     rt_call (rt_complete M pool_controller) (CompleteController pool_controller)"

definition Clowdenv_SetupWithManager :: "'s runtime \<Rightarrow> ('s process, gerr option) state" where
  "Clowdenv_SetupWithManager M =
     rt_call (rt_complete M clowdenv_controller) (CompleteController clowdenv_controller)"

section \<open>Initialization\<close>

text \<open>\<^verbatim>\<open>MustRegister\<close> and \<^verbatim>\<open>utilruntime.Must\<close> panic on the first error.\<close>

fun must_register :: "'s runtime \<Rightarrow> collector list \<Rightarrow> ('s process, gerr option) state" where
  "must_register M [] = State_Monad.return None"
| "must_register M (c # cs) = do {
     err \<leftarrow> rt_call (rt_register M c) (RegisterCollector c);
     case err of
       Some e \<Rightarrow> State_Monad.return (Some e)
     | None \<Rightarrow> must_register M cs
   }"

definition init_metrics :: "'s runtime \<Rightarrow> ('s process, gerr option) state" where
  "init_metrics M = must_register M registered_collectors"

definition scheme_packages :: "string list" where
  "scheme_packages = [''clientgoscheme'', ''clowder'', ''frontend'', ''projectv1'', ''configv1'',
     ''crd'', ''clusterv1'']"

fun must_add :: "'s runtime \<Rightarrow> string list \<Rightarrow> ('s process, gerr option) state" where
  "must_add M [] = State_Monad.return None"
| "must_add M (p # ps) = do {
     err \<leftarrow> rt_call (rt_add_to_scheme M p) (AddToScheme p);
     case err of
       Some e \<Rightarrow> State_Monad.return (Some e)
     | None \<Rightarrow> must_add M ps
   }"

definition init_scheme :: "'s runtime \<Rightarrow> ('s process, gerr option) state" where
  "init_scheme M = must_add M scheme_packages"

section \<open>Run and main\<close>

definition Run :: "'s runtime \<Rightarrow> string \<Rightarrow> string \<Rightarrow> bool \<Rightarrow> ('s process, ending) state" where
  "Run M metricsAddr probeAddr enableLeaderElection = do {
     rt_note (UpdateMetric (With enoVersion [(''version'', rt_version M)] Inc));
     config \<leftarrow> rt_call (rt_get_config M) GetConfig;
     if \<not> config then State_Monad.return (Exited 1) else do {
     let opts = \<lparr>moMetricsBindAddress = metricsAddr, moHealthProbeBindAddress = probeAddr,
       moLeaderElection = enableLeaderElection,
       moLeaderElectionID = ''2ee9ac64.cloud.redhat.com''\<rparr>;
     err \<leftarrow> rt_call (rt_new_manager M opts) (NewManager opts);
     if err \<noteq> None then State_Monad.return (Exited 1) else do {
     err \<leftarrow> Reservation_SetupWithManager M;
     if err \<noteq> None then State_Monad.return (Exited 1) else do {
     err \<leftarrow> Pool_SetupWithManager M;
     if err \<noteq> None then State_Monad.return (Exited 1) else do {
     err \<leftarrow> Clowdenv_SetupWithManager M;
     if err \<noteq> None then State_Monad.return (Exited 1) else do {
     err \<leftarrow> rt_call (rt_add_healthz M ''healthz'') (AddHealthzCheck ''healthz'');
     if err \<noteq> None then State_Monad.return (Exited 1) else do {
     err \<leftarrow> rt_call (rt_add_readyz M ''readyz'') (AddReadyzCheck ''readyz'');
     if err \<noteq> None then State_Monad.return (Exited 1) else do {
     rt_note GoPoll;
     err \<leftarrow> rt_call (rt_start M) StartManager;
     State_Monad.return (if err \<noteq> None then Exited 1 else MainReturned)
   }}}}}}}}"

definition declared_flags :: "flag list" where
  "declared_flags =
     [StringFlag ''metrics-bind-address'' '':9000'' ''The address the metric endpoint binds to.'',
      StringFlag ''health-probe-bind-address'' '':8081'' ''The address the probe endpoint binds to.'',
      BoolFlag ''leader-elect'' False (''Enable leader election for controller manager. '' @
        ''Enabling this will ensure there is only one active controller manager.'')]"

text \<open>A refused command line exits with status 2 (\<^verbatim>\<open>flag.ExitOnError\<close>).\<close>

definition main :: "'s runtime \<Rightarrow> ('s process, ending) state" where
  "main M = do {
     vals \<leftarrow> rt_call (rt_parse_flags M declared_flags) (ParseFlags declared_flags);
     case vals of
       Some [StringValue metricsAddr, StringValue probeAddr, BoolValue enableLeaderElection] \<Rightarrow>
         Run M metricsAddr probeAddr enableLeaderElection
     | _ \<Rightarrow> State_Monad.return (Exited 2)
   }"

text \<open>The life of the process: the initializers of the package in the order of its files, then \<^verbatim>\<open>main\<close>.\<close>

definition process :: "'s runtime \<Rightarrow> ('s process, ending) state" where
  "process M = do {
     err \<leftarrow> init_metrics M;
     case err of
       Some e \<Rightarrow> State_Monad.return (InitPanic e)
     | None \<Rightarrow> do {
         err \<leftarrow> init_scheme M;
         case err of
           Some e \<Rightarrow> State_Monad.return (InitPanic e)
         | None \<Rightarrow> main M
       }
   }"

section \<open>The order of the start\<close>

text \<open>
  The calls of a start without an error up to the poller, and what a refused call would have
  been; the configuration counts as a call that can be refused.
\<close>

definition startup_calls :: "'s runtime \<Rightarrow> string \<Rightarrow> string \<Rightarrow> bool \<Rightarrow> start_event list" where
  "startup_calls M metricsAddr probeAddr leader =
     [UpdateMetric (With enoVersion [(''version'', rt_version M)] Inc), GetConfig True,
      NewManager \<lparr>moMetricsBindAddress = metricsAddr, moHealthProbeBindAddress = probeAddr,
        moLeaderElection = leader, moLeaderElectionID = ''2ee9ac64.cloud.redhat.com''\<rparr> None,
      CompleteController reservation_controller None, CompleteController pool_controller None,
      CompleteController clowdenv_controller None, AddHealthzCheck ''healthz'' None,
      AddReadyzCheck ''readyz'' None, GoPoll]"

fun refused :: "start_event \<Rightarrow> bool" where
  "refused (RegisterCollector c err) \<longleftrightarrow> err \<noteq> None"
| "refused (AddToScheme p err) \<longleftrightarrow> err \<noteq> None"
| "refused (ParseFlags fs vals) \<longleftrightarrow> vals = None"
| "refused (GetConfig found) \<longleftrightarrow> \<not> found"
| "refused (NewManager opts err) \<longleftrightarrow> err \<noteq> None"
| "refused (CompleteController c err) \<longleftrightarrow> err \<noteq> None"
| "refused (AddHealthzCheck n err) \<longleftrightarrow> err \<noteq> None"
| "refused (AddReadyzCheck n err) \<longleftrightarrow> err \<noteq> None"
| "refused (StartManager err) \<longleftrightarrow> err \<noteq> None"
| "refused (UpdateMetric m) \<longleftrightarrow> False"
| "refused GoPoll \<longleftrightarrow> False"

fun accepted :: "start_event \<Rightarrow> start_event" where
  "accepted (RegisterCollector c err) = RegisterCollector c None"
| "accepted (AddToScheme p err) = AddToScheme p None"
| "accepted (GetConfig found) = GetConfig True"
| "accepted (NewManager opts err) = NewManager opts None"
| "accepted (CompleteController c err) = CompleteController c None"
| "accepted (AddHealthzCheck n err) = AddHealthzCheck n None"
| "accepted (AddReadyzCheck n err) = AddReadyzCheck n None"
| "accepted (StartManager err) = StartManager None"
| "accepted e = e"

lemma wp_rt_call:
  "(\<And>r s'. f (outside p) = (r, s') \<Longrightarrow> Q r (p\<lparr>outside := s', calls := calls p @ [ev r]\<rparr>)) \<Longrightarrow>
   wp (rt_call f ev) Q p"
  by (cases "f (outside p)") (simp add: wp_def rt_call_def)

text \<open>
  What \<open>Run\<close> does from a given point: all of the calls \<open>cs\<close> and the start of the manager, or the
  first of them up to one that is refused.
\<close>

definition runs_through :: "start_event list \<Rightarrow> start_event list \<Rightarrow> ending \<Rightarrow> bool" where
  "runs_through cs tr st \<longleftrightarrow>
     (\<exists>err. tr = cs @ [StartManager err] \<and> st = (if err \<noteq> None then Exited 1 else MainReturned)) \<or>
     (\<exists>k < length cs. \<exists>e. refused e \<and> accepted e = cs ! k \<and>
        tr = take k cs @ [e] \<and> st = Exited 1)"

lemma runs_through_Cons: "runs_through cs tr st \<Longrightarrow> runs_through (c # cs) (c # tr) st"
  unfolding runs_through_def
proof (elim disjE exE conjE)
  fix k e
  assume "k < length cs" "refused e" "accepted e = cs ! k" "tr = take k cs @ [e]" "st = Exited 1"
  then have "Suc k < length (c # cs) \<and> refused e \<and> accepted e = (c # cs) ! Suc k \<and>
      c # tr = take (Suc k) (c # cs) @ [e] \<and> st = Exited 1"
    by simp
  then show "(\<exists>err. c # tr = (c # cs) @ [StartManager err] \<and>
      st = (if err \<noteq> None then Exited 1 else MainReturned)) \<or>
    (\<exists>k < length (c # cs). \<exists>e. refused e \<and> accepted e = (c # cs) ! k \<and>
        c # tr = take k (c # cs) @ [e] \<and> st = Exited 1)"
    by blast
qed simp

lemma runs_through_refused:
  "refused e \<Longrightarrow> accepted e = c \<Longrightarrow> runs_through (c # cs) [e] (Exited 1)"
  unfolding runs_through_def by (intro disjI2 exI [of _ 0]) auto

lemma runs_through_end:
  "st = (if err \<noteq> None then Exited 1 else MainReturned) \<Longrightarrow> runs_through [] [StartManager err] st"
  by (auto simp: runs_through_def)

lemma wp_Run:
  "wp (Run M a b l) (\<lambda>st p'. \<exists>tr. calls p' = calls p @ tr \<and> runs_through (startup_calls M a b l) tr st) p"
  unfolding Run_def Reservation_SetupWithManager_def Pool_SetupWithManager_def
    Clowdenv_SetupWithManager_def startup_calls_def Let_def
  by (intro wp_bind [THEN iffD2] wp_rt_call wp_if wp_return [THEN iffD2])
    (auto intro!: runs_through_Cons intro: runs_through_refused runs_through_end)

text \<open>\<open>sets_up\<close>: neither the poller nor the manager is started.\<close>

definition sets_up :: "start_event list \<Rightarrow> bool" where
  "sets_up tr \<longleftrightarrow> list_all (\<lambda>e. e \<noteq> GoPoll \<and> accepted e \<noteq> StartManager None) tr"

lemma sets_up_simps [simp]:
  "sets_up []" "sets_up (e # tr) \<longleftrightarrow> e \<noteq> GoPoll \<and> accepted e \<noteq> StartManager None \<and> sets_up tr"
  "sets_up (tr @ tr') \<longleftrightarrow> sets_up tr \<and> sets_up tr'"
  by (simp_all add: sets_up_def)

lemma wp_must_register:
  "wp (must_register M cs) (\<lambda>r p'. \<exists>tr. calls p' = calls p @ tr \<and>
     sets_up tr \<and>
     (r = None \<longrightarrow> tr = map (\<lambda>c. RegisterCollector c None) cs)) p"
proof (induction cs arbitrary: p)
  case (Cons c cs)
  show ?case
    unfolding must_register.simps
    by (intro wp_bind [THEN iffD2] wp_rt_call wp_intros wp_mono [OF Cons.IH]) auto
qed simp

lemma wp_must_add:
  "wp (must_add M ps) (\<lambda>r p'. \<exists>tr. calls p' = calls p @ tr \<and>
     sets_up tr \<and>
     (r = None \<longrightarrow> tr = map (\<lambda>n. AddToScheme n None) ps)) p"
proof (induction ps arbitrary: p)
  case (Cons n ps)
  show ?case
    unfolding must_add.simps
    by (intro wp_bind [THEN iffD2] wp_rt_call wp_intros wp_mono [OF Cons.IH]) auto
qed simp

lemma sets_up_before: "k < length (startup_calls M a b l) \<Longrightarrow> sets_up (take k (startup_calls M a b l))"
  by (auto simp: startup_calls_def less_Suc_eq take_Cons')

lemma sets_up_refused:
  "refused e \<Longrightarrow> accepted e = startup_calls M a b l ! k \<Longrightarrow> k < length (startup_calls M a b l) \<Longrightarrow>
    e \<noteq> GoPoll \<and> accepted e \<noteq> StartManager None"
  by (cases e) (auto simp: startup_calls_def less_Suc_eq)

lemma runs_through_sets_up:
  "runs_through (startup_calls M a b l) tr st \<Longrightarrow>
    (\<exists>err. tr = startup_calls M a b l @ [StartManager err] \<and>
       st = (if err \<noteq> None then Exited 1 else MainReturned)) \<or> sets_up tr \<and> st \<noteq> MainReturned"
  unfolding runs_through_def
proof (elim disjE exE conjE)
  fix k e
  assume "k < length (startup_calls M a b l)" "refused e" "accepted e = startup_calls M a b l ! k"
    "tr = take k (startup_calls M a b l) @ [e]" "st = Exited 1"
  with sets_up_before [OF this(1)] sets_up_refused [OF this(2,3,1)]
  have "sets_up tr \<and> st \<noteq> MainReturned" by simp
  then show ?thesis ..
qed simp

definition starts :: "'s runtime \<Rightarrow> start_event list \<Rightarrow> ending \<Rightarrow> bool" where
  "starts M tr st \<longleftrightarrow> (\<exists>a b l err.
     tr = ParseFlags declared_flags (Some [StringValue a, StringValue b, BoolValue l]) #
        startup_calls M a b l @ [StartManager err] \<and>
     st = (if err \<noteq> None then Exited 1 else MainReturned)) \<or> sets_up tr \<and> st \<noteq> MainReturned"

lemma starts_run:
  "runs_through (startup_calls M a b l) tr st \<Longrightarrow>
    starts M (ParseFlags declared_flags (Some [StringValue a, StringValue b, BoolValue l]) # tr) st"
  unfolding starts_def by (drule runs_through_sets_up) auto

lemma starts_refused: "starts M [ParseFlags fs vals] (Exited 2)"
  by (simp add: starts_def)

lemma wp_main: "wp (main M) (\<lambda>st p'. \<exists>tr. calls p' = calls p @ tr \<and> starts M tr st) p"
  unfolding main_def
  by (intro wp_bind [THEN iffD2] wp_rt_call)
    (auto split: option.splits list.splits flag_value.splits
      intro!: wp_mono [OF wp_Run] starts_run starts_refused)

text \<open>
  C26. The start of the process is all or nothing: either every collector and every API package is
  registered, the manager is made with the flags, the three controllers and the two checks are
  added, then the poller is started and last the manager, whose end decides the exit status; or
  something is refused and the process ends without having started poller or manager. The poller
  is started before the manager runs, and whatever the leader election flag says.
\<close>

theorem poller_starts_after_setup:
  "case run_state (process M) \<lparr>outside = s, calls = []\<rparr> of (st, p') \<Rightarrow>
     (\<exists>metricsAddr probeAddr leader err. calls p' =
        map (\<lambda>c. RegisterCollector c None) registered_collectors @
        map (\<lambda>n. AddToScheme n None) scheme_packages @
        ParseFlags declared_flags
          (Some [StringValue metricsAddr, StringValue probeAddr, BoolValue leader]) #
        startup_calls M metricsAddr probeAddr leader @ [StartManager err] \<and>
        st = (if err \<noteq> None then Exited 1 else MainReturned)) \<or>
     list_all (\<lambda>e. e \<noteq> GoPoll \<and> accepted e \<noteq> StartManager None) (calls p') \<and> st \<noteq> MainReturned"
proof -
  let ?c = "map (\<lambda>c. RegisterCollector c None) registered_collectors"
    and ?s = "map (\<lambda>n. AddToScheme n None) scheme_packages"
  have "wp (process M) (\<lambda>st p'. (\<exists>tr. calls p' = ?c @ ?s @ tr \<and> starts M tr st) \<or>
      sets_up (calls p') \<and> st \<noteq> MainReturned) \<lparr>outside = s, calls = []\<rparr>"
    unfolding process_def init_metrics_def init_scheme_def
    by (intro wp_bind [THEN iffD2] wp_mono [OF wp_must_register] wp_intros wp_mono [OF wp_must_add]
        wp_mono [OF wp_main] wp_return [THEN iffD2]) auto
  moreover have "sets_up ?c" "sets_up ?s"
    by (auto simp: sets_up_def list_all_iff)
  ultimately show ?thesis
    unfolding sets_up_def [symmetric] wp_def starts_def case_prod_beta
  proof (elim disjE exE conjE, goal_cases)
    case (1 tr a b l err)
    show ?case
      unfolding 1(3,4) by (intro disjI1 exI conjI) (rule 1(5) [unfolded 1(4)] refl)+
  qed simp_all
qed

text \<open>A runtime that accepts everything.\<close>

definition sample_runtime :: "unit runtime" where
  "sample_runtime = \<lparr>rt_version = ''1'', rt_register = (\<lambda>_. Pair None),
     rt_add_to_scheme = (\<lambda>_. Pair None),
     rt_parse_flags = (\<lambda>fs. Pair (Some (map (\<lambda>f. case f of StringFlag n v u \<Rightarrow> StringValue v
        | BoolFlag n v u \<Rightarrow> BoolValue v) fs))),
     rt_get_config = Pair True, rt_new_manager = (\<lambda>_. Pair None), rt_complete = (\<lambda>_. Pair None),
     rt_add_healthz = (\<lambda>_. Pair None), rt_add_readyz = (\<lambda>_. Pair None), rt_start = Pair None\<rparr>"

theorem poller_starts_after_setup_witness:
  "\<exists>metricsAddr probeAddr leader err.
     calls (snd (run_state (process sample_runtime) \<lparr>outside = (), calls = []\<rparr>)) =
        map (\<lambda>c. RegisterCollector c None) registered_collectors @
        map (\<lambda>n. AddToScheme n None) scheme_packages @
        ParseFlags declared_flags
          (Some [StringValue metricsAddr, StringValue probeAddr, BoolValue leader]) #
        startup_calls sample_runtime metricsAddr probeAddr leader @ [StartManager err]"
proof -
  have "fst (run_state (process sample_runtime) \<lparr>outside = (), calls = []\<rparr>) = MainReturned"
    by (simp add: process_def init_metrics_def registered_collectors_def init_scheme_def
        scheme_packages_def main_def declared_flags_def Run_def Reservation_SetupWithManager_def
        Pool_SetupWithManager_def Clowdenv_SetupWithManager_def rt_call_def sample_runtime_def)
  then obtain p' where run: "run_state (process sample_runtime) \<lparr>outside = (), calls = []\<rparr> =
      (MainReturned, p')"
    by (metis prod.collapse)
  from poller_starts_after_setup [of sample_runtime "()"] show ?thesis
    unfolding run prod.case snd_conv by (elim disjE exE conjE) (intro exI, assumption, simp)
qed

end
