(* ===== verification/Metrics.thy ===== *)
theory Metrics
  imports Reservation_Cleanup
begin

text \<open>
  The series of the collectors: what the updates that a history contains make of them, and the
  gauge that a cleanup of Cluster API resources sets and takes away again.
\<close>

section \<open>Series\<close>

text \<open>A series: the name of the collector and the label values in the declared order.\<close>

type_synonym series = "string \<times> string list"

fun series_of :: "metric \<Rightarrow> series" where
  "series_of (With c kvs op) =
     (coName c, map (\<lambda>l. case map_of kvs l of None \<Rightarrow> '''' | Some v \<Rightarrow> v) (coLabels c))"
| "series_of (DeleteLabelValues c vs) = (coName c, vs)"

fun after_event :: "event \<Rightarrow> series set \<Rightarrow> series set" where
  "after_event (MetricEv (With c kvs op)) S = insert (series_of (With c kvs op)) S"
| "after_event (MetricEv (DeleteLabelValues c vs)) S = S - {series_of (DeleteLabelValues c vs)}"
| "after_event _ S = S"

text \<open>The series that are exported after a history.\<close>

definition live_series :: "event list \<Rightarrow> series set" where
  "live_series h = fold after_event h {}"

definition capi_series :: "string \<Rightarrow> string \<Rightarrow> series" where
  "capi_series ns res = (''capi_cleanup_duration_seconds'', [ns, res])"

lemma live_series_append: "live_series (h @ tr) = fold after_event tr (live_series h)"
  by (simp add: live_series_def)

abbreviation capi_gauge :: "string \<Rightarrow> string \<Rightarrow> duration \<Rightarrow> metric" where
  "capi_gauge ns res d \<equiv> With capiCleanupDurationMetrics
     [(''namespace'', ns), (''reservation'', res)] (SetTo (Seconds d))"

lemma after_capi:
  "after_event (MetricEv (capi_gauge ns res d)) S = insert (capi_series ns res) S"
  "after_event (MetricEv (DeleteLabelValues capiCleanupDurationMetrics [ns, res])) S =
     S - {capi_series ns res}"
  by (simp_all add: capi_series_def capiCleanupDurationMetrics_def)

fun unmetered :: "event \<Rightarrow> bool" where
  "unmetered (MetricEv m) = False"
| "unmetered _ = True"

lemma after_unmetered: "unmetered e \<Longrightarrow> after_event e S = S"
  by (cases e) simp_all

declare after_event.simps [simp del]

lemma live_series_unmetered:
  "(\<forall>e \<in> set tr. unmetered e) \<Longrightarrow> live_series (h @ tr) = live_series h"
  by (induction tr arbitrary: h rule: rev_induct) (simp_all add: live_series_append after_unmetered)

lemma wp_unmetered:
  assumes "emits unmetered m" and "\<And>r w'. live_series (log w') = live_series (log w) \<Longrightarrow> Q r w'"
  shows "wp m Q w"
  by (rule wp_emits [OF assms(1)]) (simp add: assms(2) live_series_unmetered)

section \<open>The gauge of a cleanup\<close>

lemma unmetered_drain:
  "emits unmetered (DeleteCAPIResources E n)"
  "emits unmetered (RemoveStuckROSAMachinePoolFinalizers E n)"
proof -
  have "emits unmetered (delete_clusters_loop E cs)" for cs
    by (induction cs)
      (auto intro!: emits_return emits_k_call emits_bind split: option.splits)
  then show "emits unmetered (DeleteCAPIResources E n)"
    unfolding DeleteCAPIResources_def by (intro emits_intros) simp_all
  have "emits unmetered (stuck_pools_loop E n ps b)" for ps b
  proof (induction ps arbitrary: b)
    case (Cons p ps)
    show ?case
      unfolding stuck_pools_loop.simps clusterWaitingForWorkersDeletion_def Let_def
      by (intro emits_intros Cons.IH; simp)
  qed (simp add: emits_return)
  then show "emits unmetered (RemoveStuckROSAMachinePoolFinalizers E n)"
    unfolding RemoveStuckROSAMachinePoolFinalizers_def by (intro emits_intros; simp)
qed

text \<open>
  The series after a cleanup, from the series \<open>S\<close> before it: unless it ended in a requeue or an
  error, its own gauge is gone, and no other series was touched.
\<close>

definition gauge_outcome :: "series \<Rightarrow> series set \<Rightarrow> reconcile_result \<Rightarrow> series set \<Rightarrow> bool" where
  "gauge_outcome s S r S' \<longleftrightarrow> S - {s} \<subseteq> S' \<and> S' \<subseteq> insert s S \<and> (r = (no_requeue, None) \<longrightarrow> S' = S - {s})"

lemma wp_drain_gauge:
  "wp (drain_and_release E n res) (\<lambda>r w'. gauge_outcome (capi_series n (mName res))
     (live_series (log w)) r (live_series (log w'))) w"
  unfolding drain_and_release_def
  by (intro wp_bind [THEN iffD2] wp_intros wp_unmetered [OF unmetered_drain(1)]
      wp_unmetered [OF unmetered_drain(2)] wp_k_call wp_return [THEN iffD2];
      simp add: live_series_append after_capi after_unmetered;
      auto simp: gauge_outcome_def no_requeue_def Second_def split: sum.split)

text \<open>The reservation a cleanup goes on with: the one it was given, or as written back as deleting.\<close>

definition cleaned_up :: "reservation \<Rightarrow> event list \<Rightarrow> reservation \<Rightarrow> bool" where
  "cleaned_up res h res' \<longleftrightarrow>
     res' = res \<or> ResEv (StatusUpdate (set_state ''deleting'' res) (Inr res')) \<in> set h"

lemma wp_cleanup_gauge:
  assumes "lib_ok E" and "capiCleanupFinalizer \<in> set (mFinalizers res)"
    and "rsNamespace (resStatus res) \<noteq> ''''"
  shows "wp (handleCAPICleanup E res) (\<lambda>r w'. r = (no_requeue, None) \<longrightarrow>
    (\<exists>res'. cleaned_up res (log w') res' \<and> live_series (log w') =
       live_series (log w) - {capi_series (rsNamespace (resStatus res)) (mName res')})) w"
proof -
  let ?n = "rsNamespace (resStatus res)"
  have drain: "wp (drain_and_release E ?n res') (\<lambda>r w'. r = (no_requeue, None) \<longrightarrow>
    (\<exists>res'. cleaned_up res (log w') res' \<and> live_series (log w') =
       live_series (log w) - {capi_series ?n (mName res')})) w1"
    if "live_series (log w1) = live_series (log w)" "cleaned_up res (log w1) res'" for w1 res'
  proof -
    note grows = wp_emits [OF anything_deleted.emits_drain_and_release,
        of _ "\<lambda>_ w'. set (log w1) \<subseteq> set (log w')"]
    show ?thesis
      by (rule wp_mono [OF wp_conj [OF wp_drain_gauge grows]])
        (use that in \<open>auto simp: gauge_outcome_def cleaned_up_def\<close>)
  qed
  show ?thesis
    unfolding handleCAPICleanup_def Let_def
    by (intro wp_bind [THEN iffD2] wp_intros wp_k_call wp_return [THEN iffD2] drain;
        simp add: assms lib_okD [OF assms(1)] live_series_append after_unmetered cleaned_up_def
          no_requeue_def)
qed

section \<open>Properties\<close>

text \<open>
  A cleanup that ends without an error and without asking to be called again leaves no gauge
  behind: the series of its namespace and reservation is gone, whether this run or an earlier one
  made it, and all other series are as they were.
\<close>

theorem cleanup_gauge_released:
  assumes "lib_ok E" and "capiCleanupFinalizer \<in> set (mFinalizers res)"
    and "rsNamespace (resStatus res) \<noteq> ''''"
    and "run_state (handleCAPICleanup E res) w = ((no_requeue, None), w')"
  shows "\<exists>res'. (res' = res \<or>
      ResEv (StatusUpdate (set_state ''deleting'' res) (Inr res')) \<in> set (log w')) \<and>
    live_series (log w') =
      live_series (log w) - {capi_series (rsNamespace (resStatus res)) (mName res')}"
  using wpD [OF wp_cleanup_gauge [OF assms(1-3)] assms(4)] by (simp add: cleaned_up_def)

definition gauged_world :: "sample world" where
  "gauged_world = (deleted_sample [])
     \<lparr>log := [MetricEv (capi_gauge ''ns'' ''r'' 3)]\<rparr>"

definition deleting_reservation :: reservation where
  "deleting_reservation = set_state ''deleting'' deleted_reservation"

theorem cleanup_gauge_released_witness:
  "\<exists>res' :: reservation. live_series (log (snd (run_state (handleCAPICleanup sample_env deleting_reservation)
      gauged_world))) = live_series (log gauged_world) - {capi_series ''ns'' (mName res')}"
proof -
  have "fst (run_state (handleCAPICleanup sample_env deleting_reservation) gauged_world) =
      (no_requeue, None)"
    by code_simp
  then obtain w' where run: "run_state (handleCAPICleanup sample_env deleting_reservation)
      gauged_world = ((no_requeue, None), w')"
    by (metis prod.collapse)
  have fin: "capiCleanupFinalizer \<in> set (mFinalizers deleting_reservation)"
    and ns: "rsNamespace (resStatus deleting_reservation) = ''ns''"
    by (simp_all add: deleting_reservation_def set_state_def deleted_reservation_def
        deleted_sample_def sample_world_def)
  from ns have "rsNamespace (resStatus deleting_reservation) \<noteq> ''''"
    by simp
  from cleanup_gauge_released [OF sample_lib_ok fin this run] show ?thesis
    unfolding run snd_conv ns by (elim exE conjE) (rule exI)
qed

end
