(* ===== verification/Metric_Calls.thy ===== *)
theory Metric_Calls
  imports Startup Metrics Operator
begin

text \<open>
  The updates of the metrics at all the places where the operator makes them: each fits the
  collector it is made on.
\<close>

definition metered_well :: "event \<Rightarrow> bool" where
  "metered_well e \<longleftrightarrow> (\<forall>m. e = MetricEv m \<longrightarrow> metric_fits m)"

lemma metered_well_simps [simp]:
  "metered_well (MetricEv m) \<longleftrightarrow> metric_fits m" "is_read e \<Longrightarrow> metered_well e"
  by (auto simp: metered_well_def)

interpretation metered_pool: pool_policy metered_well
  by unfold_locales (simp_all, simp_all add: metered_well_def)

interpretation metered_handler: env_handler_policy metered_well
  by unfold_locales (simp_all, simp_all add: metered_well_def)

interpretation metered_live: live_policy metered_well
  by unfold_locales (simp_all, simp_all add: metered_well_def)

interpretation metered_cleanup: cleanup_policy metered_well
  by unfold_locales (simp_all, simp_all add: metered_well_def)

lemma metered_Reservation_Reconcile:
  assumes "lib_ok E"
  shows "emits metered_well (Reservation_Reconcile E req)"
proof -
  have status: "metered_well (ResEv (StatusUpdate x r))" for x r
    by (simp add: metered_well_def)
  show ?thesis
    unfolding Reservation_Reconcile_def Let_def
    by (intro emits_intros metered_cleanup.emits_handleCAPICleanup metered_live.emits_reconcile_active
        metered_live.emits_reconcile_waiting metered_live.emits_reconcile_default assms status) simp
qed

lemma metered_Clowdenv_Reconcile:
  assumes "lib_ok E"
  shows "emits metered_well (Clowdenv_Reconcile E req)"
  unfolding Clowdenv_Reconcile_def Let_def
  by (intro emits_intros metered_handler.emits_record_completion metered_handler.emits_CreateFrontendEnv
      metered_pool.emits_UpdateAnnotations assms) simp

lemma metered_Poll: "emits metered_well (Poll E n)"
proof -
  have "emits metered_well (expire_loop E ks)" for ks
  proof (induction ks)
    case (Cons k ks)
    show ?case
      unfolding expire_loop.simps expire_entry_def namespaceIsExpired_def
      by (intro emits_intros Cons; simp) (simp add: metered_well_def)
  qed (simp add: emits_return)
  then have "emits metered_well (poll_cycles E k)" for k
    by (induction k) (auto simp: poll_cycle_def intro!: emits_intros)
  moreover have "emits metered_well (populate_loop E items)" for items
    by (rule emits_weaken [OF emits_populate_loop]) simp
  ultimately show ?thesis
    unfolding Poll_def populateActiveReservations_def getExistingReservations_def
    by (intro emits_intros; simp)
qed

lemma metered_Run:
  assumes "UpdateMetric m \<in> set (calls (snd (run_state (Run M a b l) (p\<lparr>calls := []\<rparr>))))"
  shows "metric_fits m"
proof -
  from wpD [OF wp_Run surjective_pairing, of M a b l "p\<lparr>calls := []\<rparr>"]
  obtain tr st where tr: "calls (snd (run_state (Run M a b l) (p\<lparr>calls := []\<rparr>))) = tr"
    "runs_through (startup_calls M a b l) tr st" by auto
  have "refused e \<Longrightarrow> e \<noteq> UpdateMetric m" for e by auto
  with tr(2) assms have "UpdateMetric m \<in> set (startup_calls M a b l)"
    unfolding tr(1) runs_through_def by (auto dest: in_set_takeD)
  then show ?thesis by (simp add: startup_calls_def)
qed

section \<open>Property\<close>

text \<open>
  C27. Every update the operator makes of its metrics, in any run of the start, of a reconciler
  or of the poller on any cluster, fits the collector it is made on: the collector is registered,
  the label names given at the place of the call (or the number of positional values) are those
  declared, and the operation is one of its kind; so no update panics. The collectors have
  different names and increasing buckets, so that they can be made and registered together.
\<close>

theorem metrics_well_typed:
  assumes "lib_ok E"
    and "MetricEv m \<in> set (events (Reservation_Reconcile E req) w) \<or>
      MetricEv m \<in> set (events (Pool_Reconcile E req) w) \<or>
      MetricEv m \<in> set (events (Clowdenv_Reconcile E req) w) \<or>
      MetricEv m \<in> set (events (Poll E n) w) \<or>
      UpdateMetric m \<in> set (calls (snd (run_state (Run M a b l) (p\<lparr>calls := []\<rparr>))))"
  shows "metric_fits m \<and> distinct (map coName registered_collectors) \<and>
    list_all (\<lambda>c. kind_fits (coKind c)) registered_collectors"
proof -
  from assms(2) have "metric_fits m"
    using emits_events [OF metered_Reservation_Reconcile [OF assms(1)]]
      emits_events [OF metered_pool.emits_Pool_Reconcile [OF assms(1)]]
      emits_events [OF metered_Clowdenv_Reconcile [OF assms(1)]]
      emits_events [OF metered_Poll] metered_Run metered_well_simps(1) by metis
  moreover have "distinct (map coName registered_collectors)"
    "list_all (\<lambda>c. kind_fits (coKind c)) registered_collectors"
    by (simp_all add: registered_collectors_def collector_defs)
  ultimately show ?thesis by blast
qed

theorem metrics_well_typed_witness:
  "\<exists>m. MetricEv m \<in> set handover_events \<and> metric_fits m"
proof -
  have "list_ex (\<lambda>e. \<not> unmetered e) handover_events"
    unfolding handover_events_def by code_simp
  then obtain m where m: "MetricEv m \<in> set handover_events"
    by (auto simp: list_ex_iff elim!: unmetered.elims)
  with metrics_well_typed [OF sample_lib_ok disjI1, of m "('''', ''r'')" handover_world]
  show ?thesis unfolding handover_events_def by blast
qed

end
