(* ===== verification/Go_Heap.thy ===== *)
theory Go_Heap
  imports Api_Types
begin

text \<open>
  Memory for the code that is about sharing: a heap of cells with the next free address,
  pointers that may be nil, slices into a backing array, and what it means that a function
  copies deeply. The kinds of cells are a type parameter; a kind is given by its injection
  into the cells and the partial inverse of it, the interface \<open>cell_kind\<close>.
\<close>

section \<open>Heaps\<close>

type_synonym addr = nat
type_synonym 'c cells = "addr \<Rightarrow> 'c option"

record 'c heap =
  cells :: "'c cells"
  free_from :: addr

text \<open>Addresses are handed out in order and, as the collector is invisible, never taken back.\<close>

definition heap_ok :: "'c heap \<Rightarrow> bool" where
  "heap_ok h \<longleftrightarrow> (\<forall>a. cells h a = None \<longleftrightarrow> free_from h \<le> a)"

definition alloc :: "'c \<Rightarrow> 'c heap \<Rightarrow> addr \<times> 'c heap" where
  "alloc c h = (free_from h, \<lparr>cells = (cells h)(free_from h \<mapsto> c), free_from = Suc (free_from h)\<rparr>)"

definition poke :: "addr \<Rightarrow> 'c \<Rightarrow> 'c heap \<Rightarrow> 'c heap" where
  "poke a c h = h\<lparr>cells := (cells h)(a \<mapsto> c)\<rparr>"

text \<open>\<open>h\<close> has grown to \<open>h'\<close>: what was there is there and unchanged.\<close>

definition grown :: "'c heap \<Rightarrow> 'c heap \<Rightarrow> bool" where
  "grown h h' \<longleftrightarrow> cells h \<subseteq>\<^sub>m cells h' \<and> free_from h \<le> free_from h'"

lemma grown_refl: "grown h h"
  by (simp add: grown_def)

lemma grown_trans: "grown h1 h2 \<Longrightarrow> grown h2 h3 \<Longrightarrow> grown h1 h3"
  unfolding grown_def by (meson map_le_trans le_trans)

lemma grown_cells: "grown h h' \<Longrightarrow> cells h \<subseteq>\<^sub>m cells h'"
  by (simp add: grown_def)

lemma cells_below: "heap_ok h \<Longrightarrow> cells h a = Some c \<Longrightarrow> a < free_from h"
  unfolding heap_ok_def by (metis not_le option.distinct(1))

lemma alloc_ok: "heap_ok h \<Longrightarrow> heap_ok (snd (alloc c h))"
  unfolding heap_ok_def alloc_def by (simp add: Suc_le_eq less_le)

lemma map_leD: "m \<subseteq>\<^sub>m m' \<Longrightarrow> m a = Some c \<Longrightarrow> m' a = Some c"
  unfolding map_le_def by (metis domI)

lemma alloc_grown: "heap_ok h \<Longrightarrow> grown h (snd (alloc c h))"
  unfolding grown_def alloc_def heap_ok_def map_le_def by (simp add: domIff)

lemma poke_ok: "heap_ok h \<Longrightarrow> a < free_from h \<Longrightarrow> heap_ok (poke a c h)"
  by (auto simp: heap_ok_def poke_def)

section \<open>Deep copies\<close>

text \<open>
  \<open>val\<close> reads the value that \<open>v\<close> stands for from the cells, following its pointers; it is
  None when a pointer dangles. \<open>owned val lo h v a\<close>: \<open>v\<close> stands for \<open>a\<close> by the cells from
  \<open>lo\<close> on alone, whatever happens below.
\<close>

definition owned :: "('c cells \<Rightarrow> 'v \<Rightarrow> 'a option) \<Rightarrow> addr \<Rightarrow> 'c heap \<Rightarrow> 'v \<Rightarrow> 'a \<Rightarrow> bool" where
  "owned val lo h v a \<longleftrightarrow>
     (\<forall>g. (\<forall>x. lo \<le> x \<and> x < free_from h \<longrightarrow> g x = cells h x) \<longrightarrow> val g v = Some a)"

type_synonym ('v, 'c) copier = "'v \<Rightarrow> 'c heap \<Rightarrow> ('v \<times> 'c heap) option"

definition deep :: "('c cells \<Rightarrow> 'v \<Rightarrow> 'a option) \<Rightarrow> ('v, 'c) copier \<Rightarrow> bool" where
  "deep val copy \<longleftrightarrow>
     (\<forall>m m' v a. m \<subseteq>\<^sub>m m' \<longrightarrow> val m v = Some a \<longrightarrow> val m' v = Some a) \<and>
     (\<forall>h v a. heap_ok h \<longrightarrow> val (cells h) v = Some a \<longrightarrow>
        (\<exists>v' h'. copy v h = Some (v', h') \<and> heap_ok h' \<and> grown h h' \<and>
           owned val (free_from h) h' v' a))"

lemma deepI:
  assumes "\<And>m m' v a. m \<subseteq>\<^sub>m m' \<Longrightarrow> val m v = Some a \<Longrightarrow> val m' v = Some a"
    and "\<And>h v a. heap_ok h \<Longrightarrow> val (cells h) v = Some a \<Longrightarrow>
      \<exists>v' h'. copy v h = Some (v', h') \<and> heap_ok h' \<and> grown h h' \<and> owned val (free_from h) h' v' a"
  shows "deep val copy"
  using assms unfolding deep_def by blast

lemma deep_mono: "deep val copy \<Longrightarrow> m \<subseteq>\<^sub>m m' \<Longrightarrow> val m v = Some a \<Longrightarrow> val m' v = Some a"
  unfolding deep_def by blast

lemma deep_grown:
  "deep val copy \<Longrightarrow> grown h h' \<Longrightarrow> val (cells h) v = Some a \<Longrightarrow> val (cells h') v = Some a"
  by (blast intro: deep_mono grown_cells)

lemma deepE:
  assumes "deep val copy" and "heap_ok h" and "val (cells h) v = Some a"
  obtains v' h' where "copy v h = Some (v', h')" "heap_ok h'" "grown h h'"
    "owned val (free_from h) h' v' a"
  using assms unfolding deep_def by blast

lemma ownedD: "owned val lo h v a \<Longrightarrow> (\<And>x. lo \<le> x \<Longrightarrow> x < free_from h \<Longrightarrow> g x = cells h x) \<Longrightarrow>
    val g v = Some a"
  unfolding owned_def by blast

lemma owned_now: "owned val lo h v a \<Longrightarrow> val (cells h) v = Some a"
  unfolding owned_def by blast

lemma owned_later:
  assumes "owned val lo h v a" and "heap_ok h" and "grown h h'" and "lo' \<le> lo"
  shows "owned val lo' h' v a"
  unfolding owned_def
proof (intro allI impI)
  fix g
  assume g: "\<forall>x. lo' \<le> x \<and> x < free_from h' \<longrightarrow> g x = cells h' x"
  have "g x = cells h x" if "lo \<le> x" "x < free_from h" for x
  proof -
    from that assms(2) obtain c where "cells h x = Some c"
      unfolding heap_ok_def by (metis not_le option.exhaust)
    with assms(3) have "cells h' x = cells h x"
      unfolding grown_def by (metis map_leD)
    with g that assms(3,4) show ?thesis by (simp add: grown_def)
  qed
  with assms(1) show "val g v = Some a" by (rule ownedD)
qed

text \<open>A change below the cells of a copy does not reach it.\<close>

lemma owned_poke:
  "owned val lo h v a \<Longrightarrow> b < lo \<Longrightarrow> owned val lo (poke b c h) v a"
  unfolding owned_def poke_def by auto

text \<open>A value without pointers is copied by assignment.\<close>

definition plain_val :: "'c cells \<Rightarrow> 'v \<Rightarrow> 'v option" where
  "plain_val m v = Some v"

definition assign :: "('v, 'c) copier" where
  "assign v h = Some (v, h)"

lemma deep_assign: "deep plain_val assign"
  by (rule deepI) (auto simp: plain_val_def assign_def grown_refl owned_def)

text \<open>
  A struct is copied field by field: the fields with pointers in order as a nested pair, and
  \<open>put\<close> sets them in the struct that was assigned.
\<close>

definition pair_val ::
  "('c cells \<Rightarrow> 'v \<Rightarrow> 'a option) \<Rightarrow> ('c cells \<Rightarrow> 'w \<Rightarrow> 'b option) \<Rightarrow> 'c cells \<Rightarrow> 'v \<times> 'w \<Rightarrow>
   ('a \<times> 'b) option" where
  "pair_val val1 val2 m p = do { a \<leftarrow> val1 m (fst p); b \<leftarrow> val2 m (snd p); Some (a, b) }"

definition pair_copy :: "('v, 'c) copier \<Rightarrow> ('w, 'c) copier \<Rightarrow> ('v \<times> 'w, 'c) copier" where
  "pair_copy copy1 copy2 p h = do {
     (v, h) \<leftarrow> copy1 (fst p) h;
     (w, h) \<leftarrow> copy2 (snd p) h;
     Some ((v, w), h)
   }"

lemma deep_pair:
  assumes 1: "deep val1 copy1" and 2: "deep val2 copy2"
  shows "deep (pair_val val1 val2) (pair_copy copy1 copy2)"
proof (rule deepI)
  fix m m' p a
  assume "m \<subseteq>\<^sub>m m'" "pair_val val1 val2 m p = Some a"
  then show "pair_val val1 val2 m' p = Some a"
    by (auto simp: pair_val_def bind_eq_Some_conv dest: deep_mono [OF 1] deep_mono [OF 2])
next
  fix h p ab
  assume ok: "heap_ok h" and val: "pair_val val1 val2 (cells h) p = Some ab"
  then obtain a b where ab: "ab = (a, b)" "val1 (cells h) (fst p) = Some a"
      "val2 (cells h) (snd p) = Some b"
    by (auto simp: pair_val_def bind_eq_Some_conv)
  obtain v h1 where h1: "copy1 (fst p) h = Some (v, h1)" "heap_ok h1" "grown h h1"
      "owned val1 (free_from h) h1 v a"
    using deepE [OF 1 ok ab(2)] .
  obtain w h2 where h2: "copy2 (snd p) h1 = Some (w, h2)" "heap_ok h2" "grown h1 h2"
      "owned val2 (free_from h1) h2 w b"
    using deepE [OF 2 h1(2) deep_grown [OF 2 h1(3) ab(3)]] .
  have "owned val1 (free_from h) h2 v a" "owned val2 (free_from h) h2 w b"
    using owned_later [OF h1(4,2) h2(3)] owned_later [OF h2(4,2) grown_refl] h1(3)
    by (auto simp: grown_def)
  then have "owned (pair_val val1 val2) (free_from h) h2 (v, w) ab"
    unfolding owned_def ab pair_val_def by simp
  with h1 h2 show "\<exists>p' h'. pair_copy copy1 copy2 p h = Some (p', h') \<and> heap_ok h' \<and> grown h h' \<and>
      owned (pair_val val1 val2) (free_from h) h' p' ab"
    by (auto simp: pair_copy_def intro: grown_trans)
qed

lemma deep_via:
  assumes deep: "deep val copy"
    and val: "\<And>m s. val' m s = map_option (f s) (val m (get s))"
    and copy: "\<And>s h. copy' s h = map_option (\<lambda>(x, h). (put x s, h)) (copy (get s) h)"
    and laws: "\<And>x s. get (put x s) = x" "\<And>x s. f (put x s) = f s"
  shows "deep val' copy'"
proof (rule deepI)
  fix m m' s a
  assume "m \<subseteq>\<^sub>m m'" "val' m s = Some a"
  then show "val' m' s = Some a"
    unfolding val by (auto dest: deep_mono [OF deep])
next
  fix h s a
  assume ok: "heap_ok h" and "val' (cells h) s = Some a"
  then obtain b where b: "val (cells h) (get s) = Some b" "a = f s b"
    unfolding val by auto
  obtain x h' where h': "copy (get s) h = Some (x, h')" "heap_ok h'" "grown h h'"
      "owned val (free_from h) h' x b"
    using deepE [OF deep ok b(1)] .
  then have "owned val' (free_from h) h' (put x s) a"
    unfolding owned_def val laws b(2) by auto
  with h' show "\<exists>s' h'. copy' s h = Some (s', h') \<and> heap_ok h' \<and> grown h h' \<and>
      owned val' (free_from h) h' s' a"
    unfolding copy by auto
qed

section \<open>Kinds of cells: pointers and slices\<close>

text \<open>
  A slice that is not nil is a window \<open>[sl_off, sl_off + sl_len)\<close> of a backing array; the
  capacity plays no part here.
\<close>

record slice =
  sl_arr :: addr
  sl_off :: nat
  sl_len :: nat

text \<open>\<^verbatim>\<open>*p\<close> for a pointer that is not nil, and \<^verbatim>\<open>s[i]\<close>; None is a panic.\<close>

definition deref :: "('c \<Rightarrow> 'v option) \<Rightarrow> 'c cells \<Rightarrow> addr \<Rightarrow> 'v option" where
  "deref dest m a = Option.bind (m a) dest"

definition elem_at :: "('c \<Rightarrow> 'v list option) \<Rightarrow> 'c cells \<Rightarrow> slice \<Rightarrow> nat \<Rightarrow> 'v option" where
  "elem_at dest m s i = do {
     xs \<leftarrow> deref dest m (sl_arr s);
     if i < sl_len s \<and> sl_off s + i < length xs then Some (xs ! (sl_off s + i)) else None
   }"

definition set_elem ::
  "('v list \<Rightarrow> 'c) \<Rightarrow> ('c \<Rightarrow> 'v list option) \<Rightarrow> addr \<Rightarrow> nat \<Rightarrow> 'v \<Rightarrow> 'c heap \<Rightarrow> 'c heap option" where
  "set_elem mk dest a i v h = do {
     xs \<leftarrow> deref dest (cells h) a;
     if i < length xs then Some (poke a (mk (xs[i := v])) h) else None
   }"

text \<open>
  The generated \<^verbatim>\<open>DeepCopy\<close>: nil for nil, otherwise a new zero object that \<^verbatim>\<open>DeepCopyInto\<close> fills.
  A \<^verbatim>\<open>DeepCopyInto\<close> is a function from what \<^verbatim>\<open>*in\<close> is to what \<^verbatim>\<open>*out\<close> becomes: it assigns all of
  \<^verbatim>\<open>*out\<close> before it reads any of it.
\<close>

definition new_copy ::
  "('v \<Rightarrow> 'c) \<Rightarrow> ('c \<Rightarrow> 'v option) \<Rightarrow> 'v \<Rightarrow> ('v, 'c) copier \<Rightarrow> (addr option, 'c) copier" where
  "new_copy mk dest zero into p h = (case p of
     None \<Rightarrow> Some (None, h)
   | Some a \<Rightarrow> do {
       v \<leftarrow> deref dest (cells h) a;
       let (out, h) = alloc (mk zero) h;
       (v', h) \<leftarrow> into v h;
       Some (Some out, poke out (mk v') h)
     })"

text \<open>The generated loop over a slice: \<^verbatim>\<open>make\<close>, then \<^verbatim>\<open>DeepCopyInto\<close> from element to element.\<close>

fun copy_elems ::
  "('v list \<Rightarrow> 'c) \<Rightarrow> ('c \<Rightarrow> 'v list option) \<Rightarrow> ('v, 'c) copier \<Rightarrow> slice \<Rightarrow> addr \<Rightarrow> nat list \<Rightarrow>
   'c heap \<Rightarrow> 'c heap option" where
  "copy_elems mk dest into s out [] h = Some h"
| "copy_elems mk dest into s out (i # is) h = do {
     v \<leftarrow> elem_at dest (cells h) s i;
     (v', h) \<leftarrow> into v h;
     h \<leftarrow> set_elem mk dest out i v' h;
     copy_elems mk dest into s out is h
   }"

definition copy_slice ::
  "('v list \<Rightarrow> 'c) \<Rightarrow> ('c \<Rightarrow> 'v list option) \<Rightarrow> 'v \<Rightarrow> ('v, 'c) copier \<Rightarrow> (slice option, 'c) copier" where
  "copy_slice mk dest zero into p h = (case p of
     None \<Rightarrow> Some (None, h)
   | Some s \<Rightarrow> do {
       let (out, h) = alloc (mk (replicate (sl_len s) zero)) h;
       h \<leftarrow> copy_elems mk dest into s out [0..<sl_len s] h;
       Some (Some \<lparr>sl_arr = out, sl_off = 0, sl_len = sl_len s\<rparr>, h)
     })"

text \<open>What a pointer and a slice stand for.\<close>

definition ptr_val ::
  "('c \<Rightarrow> 'v option) \<Rightarrow> ('c cells \<Rightarrow> 'v \<Rightarrow> 'a option) \<Rightarrow> 'c cells \<Rightarrow> addr option \<Rightarrow> 'a option option" where
  "ptr_val dest val m p = (case p of
     None \<Rightarrow> Some None
   | Some a \<Rightarrow> do { v \<leftarrow> deref dest m a; x \<leftarrow> val m v; Some (Some x) })"

fun vals :: "('c cells \<Rightarrow> 'v \<Rightarrow> 'a option) \<Rightarrow> 'c cells \<Rightarrow> 'v list \<Rightarrow> 'a list option" where
  "vals val m [] = Some []"
| "vals val m (v # vs) = do { x \<leftarrow> val m v; xs \<leftarrow> vals val m vs; Some (x # xs) }"

definition slice_val ::
  "('c \<Rightarrow> 'v list option) \<Rightarrow> ('c cells \<Rightarrow> 'v \<Rightarrow> 'a option) \<Rightarrow> 'c cells \<Rightarrow> slice option \<Rightarrow>
   'a list option" where
  "slice_val dest val m p = (case p of
     None \<Rightarrow> Some []
   | Some s \<Rightarrow> do {
       xs \<leftarrow> deref dest m (sl_arr s);
       if sl_off s + sl_len s \<le> length xs
       then vals val m (take (sl_len s) (drop (sl_off s) xs)) else None
     })"

section \<open>Pointers and slices are copied deeply\<close>

lemma vals_eq: "vals val m vs = Some xs \<longleftrightarrow> list_all2 (\<lambda>v x. val m v = Some x) vs xs"
  by (induction vs arbitrary: xs) (auto simp: bind_eq_Some_conv list_all2_Cons1)

lemma vals_mono:
  assumes "deep val copy" and "m \<subseteq>\<^sub>m m'" and "vals val m vs = Some xs"
  shows "vals val m' vs = Some xs"
  using assms(3) unfolding vals_eq
  by (rule list_all2_mono) (rule deep_mono [OF assms(1,2)])

lemma deref_mono: "m \<subseteq>\<^sub>m m' \<Longrightarrow> deref dest m a = Some v \<Longrightarrow> deref dest m' a = Some v"
  by (auto simp: deref_def bind_eq_Some_conv dest: map_leD)

lemma grown_poke:
  "grown h h' \<Longrightarrow> heap_ok h \<Longrightarrow> free_from h \<le> b \<Longrightarrow> grown h (poke b c h')"
  by (auto simp: grown_def poke_def map_le_def dest: cells_below)

lemma alloc_at: "alloc c h = (a, h') \<Longrightarrow> a = free_from h \<and> free_from h' = Suc a \<and> cells h' a = Some c"
  by (auto simp: alloc_def)

lemma alloc_grows: "heap_ok h \<Longrightarrow> alloc c h = (a, h') \<Longrightarrow> heap_ok h' \<and> grown h h'"
  by (metis alloc_ok alloc_grown snd_conv)

locale cell_kind =
  fixes mk :: "'v \<Rightarrow> 'c" and dest :: "'c \<Rightarrow> 'v option"
  assumes dest_mk [simp]: "dest (mk v) = Some v"
begin

lemma deref_mk: "m a = Some (mk v) \<Longrightarrow> deref dest m a = Some v"
  by (simp add: deref_def)

lemma ptr_mono:
  "deep val into \<Longrightarrow> m \<subseteq>\<^sub>m m' \<Longrightarrow> ptr_val dest val m p = Some a \<Longrightarrow> ptr_val dest val m' p = Some a"
  by (auto simp: ptr_val_def bind_eq_Some_conv split: option.splits
      intro: deref_mono deep_mono)

lemma new_copy_Some:
  assumes deep: "deep val into" and ok: "heap_ok h"
    and v: "deref dest (cells h) p = Some v" and x: "val (cells h) v = Some x"
  shows "\<exists>h'. new_copy mk dest zero into (Some p) h = Some (Some (free_from h), h') \<and> heap_ok h' \<and>
    grown h h' \<and> owned (ptr_val dest val) (free_from h) h' (Some (free_from h)) (Some x)"
proof -
  let ?out = "free_from h"
  obtain h1 where h1: "alloc (mk zero) h = (?out, h1)"
    by (simp add: alloc_def)
  note at = alloc_at [OF h1] and ok1 = alloc_grows [OF ok h1]
  from deep ok1 x have "val (cells h1) v = Some x" by (blast intro: deep_grown)
  then obtain v' h2 where h2: "into v h1 = Some (v', h2)" "heap_ok h2" "grown h1 h2"
      "owned val (Suc ?out) h2 v' x"
    using deepE [OF deep] ok1 at by metis
  let ?h = "poke ?out (mk v') h2"
  have "?out < free_from h2"
    using at h2(3) by (simp add: grown_def)
  moreover have "owned (ptr_val dest val) ?out ?h (Some ?out) (Some x)"
    unfolding owned_def
  proof (intro allI impI)
    fix g
    assume g: "\<forall>y. ?out \<le> y \<and> y < free_from ?h \<longrightarrow> g y = cells ?h y"
    with \<open>?out < free_from h2\<close> have "g ?out = Some (mk v')" by (simp add: poke_def)
    moreover have "val g v' = Some x"
      using g by (intro ownedD [OF h2(4)]) (simp add: poke_def)
    ultimately show "ptr_val dest val g (Some ?out) = Some (Some x)"
      by (simp add: ptr_val_def deref_mk)
  qed
  ultimately show ?thesis
    using v h1 h2 ok ok1
    by (intro exI [of _ ?h]) (auto simp: new_copy_def poke_ok intro: grown_poke grown_trans)
qed

lemma new_copy_deep: "deep val into \<Longrightarrow> deep (ptr_val dest val) (new_copy mk dest zero into)"
proof (rule deepI)
  fix h :: "'c heap" and p a
  assume "deep val into" "heap_ok h" "ptr_val dest val (cells h) p = Some a"
  then show "\<exists>p' h'. new_copy mk dest zero into p h = Some (p', h') \<and> heap_ok h' \<and> grown h h' \<and>
      owned (ptr_val dest val) (free_from h) h' p' a"
  proof (cases p)
    case None
    then show ?thesis
      using \<open>heap_ok h\<close> \<open>ptr_val dest val (cells h) p = Some a\<close>
      by (auto simp: new_copy_def ptr_val_def grown_refl owned_def)
  next
    case (Some q)
    then show ?thesis
      using \<open>ptr_val dest val (cells h) p = Some a\<close> new_copy_Some [OF \<open>deep val into\<close> \<open>heap_ok h\<close>]
      by (auto simp: ptr_val_def bind_eq_Some_conv) blast
  qed
qed (rule ptr_mono)

end

locale array_kind = cell_kind mk dest
  for mk :: "'v list \<Rightarrow> 'c" and dest :: "'c \<Rightarrow> 'v list option"
begin

lemma slice_mono:
  "deep val into \<Longrightarrow> m \<subseteq>\<^sub>m m' \<Longrightarrow> slice_val dest val m p = Some a \<Longrightarrow> slice_val dest val m' p = Some a"
  by (auto simp: slice_val_def bind_eq_Some_conv split: option.splits if_splits
      dest: deref_mono vals_mono)

text \<open>
  The loop from index \<open>k\<close> on: the source is read from \<open>m\<close>, the part of the heap that the loop
  never changes; the elements before \<open>k\<close> are copies already.
\<close>

lemma copy_elems_deep:
  assumes deep: "deep val into" and src: "deref dest m (sl_arr s) = Some xs"
    and room: "sl_off s + n \<le> length xs" "sl_len s = n" and as: "length as = n"
    and vals: "\<And>i. i < n \<Longrightarrow> val m (xs ! (sl_off s + i)) = Some (as ! i)"
    and out: "m out = None"
  shows "k \<le> n \<Longrightarrow> heap_ok h \<Longrightarrow> m \<subseteq>\<^sub>m cells h \<Longrightarrow> cells h out = Some (mk ys) \<Longrightarrow> length ys = n \<Longrightarrow>
    list_all2 (owned val (Suc out) h) (take k ys) (take k as) \<Longrightarrow>
    \<exists>h' ys'. copy_elems mk dest into s out [k..<n] h = Some h' \<and> heap_ok h' \<and> m \<subseteq>\<^sub>m cells h' \<and>
      free_from h \<le> free_from h' \<and> cells h' out = Some (mk ys') \<and>
      list_all2 (owned val (Suc out) h') ys' as"
proof (induction k arbitrary: h ys rule: inc_induct)
  case base
  then show ?case using as by (intro exI [of _ h] exI [of _ ys]) simp
next
  case (step k)
  let ?v = "xs ! (sl_off s + k)"
  have elem: "elem_at dest (cells h) s k = Some ?v"
    using deref_mono [OF step.prems(2) src] step.hyps room by (simp add: elem_at_def)
  have "val (cells h) ?v = Some (as ! k)"
    using deep_mono [OF deep step.prems(2) vals] step.hyps by simp
  then obtain v' h1 where h1: "into ?v h = Some (v', h1)" "heap_ok h1" "grown h h1"
      "owned val (free_from h) h1 v' (as ! k)"
    using deepE [OF deep step.prems(1)] by metis
  let ?ys = "ys[k := v']" and ?h = "poke out (mk (ys[k := v'])) h1"
  have below: "out < free_from h"
    using step.prems(1,3) by (rule cells_below)
  have at: "cells h1 out = Some (mk ys)"
    using step.prems(3) h1(3) by (auto simp: grown_def dest: map_leD)
  then have set: "set_elem mk dest out k v' h1 = Some ?h"
    using step.hyps step.prems(4) by (simp add: set_elem_def deref_def)
  have ok: "heap_ok ?h"
    using h1 below by (intro poke_ok) (auto simp: grown_def)
  have m: "m \<subseteq>\<^sub>m cells ?h"
    using map_le_trans [OF step.prems(2) grown_cells [OF h1(3)]] out
    by (auto simp: poke_def map_le_def domIff)
  have "list_all2 (owned val (Suc out) ?h) (take k ys) (take k as)"
    using step.prems(5) by (rule list_all2_mono)
      (meson h1(3) step.prems(1) owned_later owned_poke lessI le_refl)
  moreover have "owned val (Suc out) ?h v' (as ! k)"
    by (intro owned_poke owned_later [OF h1(4,2) grown_refl]) (use below in auto)
  ultimately have "list_all2 (owned val (Suc out) ?h) (take (Suc k) ?ys) (take (Suc k) as)"
    using step.hyps step.prems(4) as
    by (simp add: take_Suc_conv_app_nth list_all2_appendI)
  from step.IH [OF ok m _ _ this] obtain h' ys' where
    "copy_elems mk dest into s out [Suc k..<n] ?h = Some h'" "heap_ok h'" "m \<subseteq>\<^sub>m cells h'"
    "free_from ?h \<le> free_from h'" "cells h' out = Some (mk ys')"
    "list_all2 (owned val (Suc out) h') ys' as"
    using step.prems(4) by (auto simp: poke_def)
  with elem h1 set step.hyps show ?case
    by (intro exI [of _ h'] exI [of _ ys']) (auto simp: upt_conv_Cons poke_def grown_def)
qed

lemma copy_slice_deep: "deep val into \<Longrightarrow> deep (slice_val dest val) (copy_slice mk dest zero into)"
proof (rule deepI)
  fix h :: "'c heap" and p a
  assume deep: "deep val into" and ok: "heap_ok h" and val: "slice_val dest val (cells h) p = Some a"
  show "\<exists>p' h'. copy_slice mk dest zero into p h = Some (p', h') \<and> heap_ok h' \<and> grown h h' \<and>
      owned (slice_val dest val) (free_from h) h' p' a"
  proof (cases p)
    case None
    with ok val show ?thesis
      by (auto simp: copy_slice_def slice_val_def grown_refl owned_def)
  next
    case (Some s)
    let ?out = "free_from h" and ?n = "sl_len s"
    from val Some obtain xs where xs: "deref dest (cells h) (sl_arr s) = Some xs"
        "sl_off s + ?n \<le> length xs"
        "list_all2 (\<lambda>v x. val (cells h) v = Some x) (take ?n (drop (sl_off s) xs)) a"
      by (auto simp: slice_val_def bind_eq_Some_conv vals_eq split: if_splits)
    then have a: "length a = ?n" by (auto dest: list_all2_lengthD)
    have nth: "val (cells h) (xs ! (sl_off s + i)) = Some (a ! i)" if "i < ?n" for i
      using list_all2_nthD2 [OF xs(3), of i] that a xs(2) by simp
    obtain h1 where h1: "alloc (mk (replicate ?n zero)) h = (?out, h1)"
      by (simp add: alloc_def)
    note at = alloc_at [OF h1] and ok1 = alloc_grows [OF ok h1]
    have "cells h ?out = None" using ok by (simp add: heap_ok_def)
    from copy_elems_deep [OF deep xs(1,2) refl a nth this, of 0 h1 "replicate ?n zero"] at ok1
    obtain h' ys where h': "copy_elems mk dest into s ?out [0..<?n] h1 = Some h'" "heap_ok h'"
        "cells h \<subseteq>\<^sub>m cells h'" "free_from h1 \<le> free_from h'" "cells h' ?out = Some (mk ys)"
        "list_all2 (owned val (Suc ?out) h') ys a"
      by (auto simp: grown_def)
    let ?s = "\<lparr>sl_arr = ?out, sl_off = 0, sl_len = ?n\<rparr>"
    have "owned (slice_val dest val) ?out h' (Some ?s) a"
      unfolding owned_def
    proof (intro allI impI)
      fix g
      assume g: "\<forall>x. ?out \<le> x \<and> x < free_from h' \<longrightarrow> g x = cells h' x"
      then have "g ?out = Some (mk ys)" using h'(4,5) at by simp
      moreover have "vals val g ys = Some a"
        unfolding vals_eq using h'(6) by (rule list_all2_mono) (use g in \<open>auto intro: ownedD\<close>)
      ultimately show "slice_val dest val g (Some ?s) = Some a"
        using a list_all2_lengthD [OF h'(6)] by (simp add: slice_val_def deref_mk)
    qed
    with h' h1 at Some show ?thesis
      by (auto simp: copy_slice_def grown_def)
  qed
qed (rule slice_mono)

end

end
