(* ===== verification/Go_Structs.thy ===== *)
theory Go_Structs
  imports Go_Heap
begin

text \<open>
  The custom resources as they lie in memory: the structs of \<^verbatim>\<open>namespacepool_types.go\<close> and
  \<^verbatim>\<open>namespacereservation_types.go\<close> with their pointers and slices, and the kinds of cells of the
  heap they live in.
\<close>

section \<open>The structs in memory\<close>

text \<open>
  Structs of other packages (\<^verbatim>\<open>ObjectMeta\<close>, \<^verbatim>\<open>ListMeta\<close>, \<^verbatim>\<open>LimitRange\<close>, \<^verbatim>\<open>ResourceQuotaList\<close>,
  \<^verbatim>\<open>ClowdEnvironmentSpec\<close>) are of the type \<open>'x\<close>; what they point to are further cells.
\<close>

record go_type_meta =
  gKind :: string
  gAPIVersion :: string

record go_team =
  gTeamName :: string
  gSecrets :: "slice option"

record 'x go_pool_spec =
  gSize :: int
  gSizeLimit :: "addr option"
  gLocal :: bool
  gClowdEnvironment :: "addr option"
  gDefaultSecretSourceNamespace :: string
  gLimitRange :: 'x
  gResourceQuotas :: 'x
  gDescription :: string
  gTeams :: "slice option"

record 'x go_pool =
  gPoolTypeMeta :: go_type_meta
  gPoolObjectMeta :: 'x
  gPoolSpec :: "'x go_pool_spec"
  gPoolStatus :: pool_status

record 'x go_pool_list =
  gPoolListTypeMeta :: go_type_meta
  gPoolListMeta :: 'x
  gPoolItems :: "slice option"

record go_reservation_spec =
  gDuration :: "addr option"
  gRequester :: string
  gTeam :: string
  gPoolName :: string
  gSecretSourceNamespace :: string

record 'x go_reservation =
  gResTypeMeta :: go_type_meta
  gResObjectMeta :: 'x
  gResSpec :: go_reservation_spec
  gResStatus :: reservation_status

record 'x go_reservation_list =
  gResListTypeMeta :: go_type_meta
  gResListMeta :: 'x
  gResItems :: "slice option"

text \<open>A cell is what \<^verbatim>\<open>new\<close> or \<^verbatim>\<open>make\<close> gives: one value or a backing array.\<close>

datatype 'x cell =
    IntCell int
  | StringCell string
  | ForeignCell 'x
  | SecretsDataCell secrets_data
  | TeamCell go_team
  | PoolSpecCell "'x go_pool_spec"
  | PoolStatusCell pool_status
  | PoolCell "'x go_pool"
  | PoolListCell "'x go_pool_list"
  | ReservationSpecCell go_reservation_spec
  | ReservationStatusCell reservation_status
  | ReservationCell "'x go_reservation"
  | ReservationListCell "'x go_reservation_list"
  | SecretsArray "secrets_data list"
  | TeamsArray "go_team list"
  | PoolsArray "'x go_pool list"
  | ReservationsArray "'x go_reservation list"

definition int_of :: "'x cell \<Rightarrow> int option" where
  "int_of c = (case c of IntCell v \<Rightarrow> Some v | _ \<Rightarrow> None)"
definition string_of :: "'x cell \<Rightarrow> string option" where
  "string_of c = (case c of StringCell v \<Rightarrow> Some v | _ \<Rightarrow> None)"
definition foreign_of :: "'x cell \<Rightarrow> 'x option" where
  "foreign_of c = (case c of ForeignCell v \<Rightarrow> Some v | _ \<Rightarrow> None)"
definition secrets_data_of :: "'x cell \<Rightarrow> secrets_data option" where
  "secrets_data_of c = (case c of SecretsDataCell v \<Rightarrow> Some v | _ \<Rightarrow> None)"
definition team_of :: "'x cell \<Rightarrow> go_team option" where
  "team_of c = (case c of TeamCell v \<Rightarrow> Some v | _ \<Rightarrow> None)"
definition pool_spec_of :: "'x cell \<Rightarrow> 'x go_pool_spec option" where
  "pool_spec_of c = (case c of PoolSpecCell v \<Rightarrow> Some v | _ \<Rightarrow> None)"
definition pool_status_of :: "'x cell \<Rightarrow> pool_status option" where
  "pool_status_of c = (case c of PoolStatusCell v \<Rightarrow> Some v | _ \<Rightarrow> None)"
definition pool_of :: "'x cell \<Rightarrow> 'x go_pool option" where
  "pool_of c = (case c of PoolCell v \<Rightarrow> Some v | _ \<Rightarrow> None)"
definition pool_list_of :: "'x cell \<Rightarrow> 'x go_pool_list option" where
  "pool_list_of c = (case c of PoolListCell v \<Rightarrow> Some v | _ \<Rightarrow> None)"
definition reservation_spec_of :: "'x cell \<Rightarrow> go_reservation_spec option" where
  "reservation_spec_of c = (case c of ReservationSpecCell v \<Rightarrow> Some v | _ \<Rightarrow> None)"
definition reservation_status_of :: "'x cell \<Rightarrow> reservation_status option" where
  "reservation_status_of c = (case c of ReservationStatusCell v \<Rightarrow> Some v | _ \<Rightarrow> None)"
definition reservation_of :: "'x cell \<Rightarrow> 'x go_reservation option" where
  "reservation_of c = (case c of ReservationCell v \<Rightarrow> Some v | _ \<Rightarrow> None)"
definition reservation_list_of :: "'x cell \<Rightarrow> 'x go_reservation_list option" where
  "reservation_list_of c = (case c of ReservationListCell v \<Rightarrow> Some v | _ \<Rightarrow> None)"
definition secrets_of :: "'x cell \<Rightarrow> secrets_data list option" where
  "secrets_of c = (case c of SecretsArray v \<Rightarrow> Some v | _ \<Rightarrow> None)"
definition teams_of :: "'x cell \<Rightarrow> go_team list option" where
  "teams_of c = (case c of TeamsArray v \<Rightarrow> Some v | _ \<Rightarrow> None)"
definition pools_of :: "'x cell \<Rightarrow> 'x go_pool list option" where
  "pools_of c = (case c of PoolsArray v \<Rightarrow> Some v | _ \<Rightarrow> None)"
definition reservations_of :: "'x cell \<Rightarrow> 'x go_reservation list option" where
  "reservations_of c = (case c of ReservationsArray v \<Rightarrow> Some v | _ \<Rightarrow> None)"

interpretation int_cell: cell_kind IntCell int_of
  by unfold_locales (simp add: int_of_def)
interpretation string_cell: cell_kind StringCell string_of
  by unfold_locales (simp add: string_of_def)
interpretation foreign_cell: cell_kind ForeignCell foreign_of
  by unfold_locales (simp add: foreign_of_def)
interpretation secrets_data_cell: cell_kind SecretsDataCell secrets_data_of
  by unfold_locales (simp add: secrets_data_of_def)
interpretation team_cell: cell_kind TeamCell team_of
  by unfold_locales (simp add: team_of_def)
interpretation pool_spec_cell: cell_kind PoolSpecCell pool_spec_of
  by unfold_locales (simp add: pool_spec_of_def)
interpretation pool_status_cell: cell_kind PoolStatusCell pool_status_of
  by unfold_locales (simp add: pool_status_of_def)
interpretation pool_cell: cell_kind PoolCell pool_of
  by unfold_locales (simp add: pool_of_def)
interpretation pool_list_cell: cell_kind PoolListCell pool_list_of
  by unfold_locales (simp add: pool_list_of_def)
interpretation reservation_spec_cell: cell_kind ReservationSpecCell reservation_spec_of
  by unfold_locales (simp add: reservation_spec_of_def)
interpretation reservation_status_cell: cell_kind ReservationStatusCell reservation_status_of
  by unfold_locales (simp add: reservation_status_of_def)
interpretation reservation_cell: cell_kind ReservationCell reservation_of
  by unfold_locales (simp add: reservation_of_def)
interpretation reservation_list_cell: cell_kind ReservationListCell reservation_list_of
  by unfold_locales (simp add: reservation_list_of_def)
interpretation secrets_array: array_kind SecretsArray secrets_of
  by unfold_locales (simp add: secrets_of_def)
interpretation teams_array: array_kind TeamsArray teams_of
  by unfold_locales (simp add: teams_of_def)
interpretation pools_array: array_kind PoolsArray pools_of
  by unfold_locales (simp add: pools_of_def)
interpretation reservations_array: array_kind ReservationsArray reservations_of
  by unfold_locales (simp add: reservations_of_def)

end
