(* ===== verification/Deep_Copy.thy ===== *)
theory Deep_Copy
  imports Go_Structs
begin

text \<open>
  \<^verbatim>\<open>zz_generated.deepcopy.go\<close>: the generated deep copies of the custom resources, on the heap of
  \<open>Go_Heap\<close> with the structs of \<open>Go_Structs\<close>. \<open>team_val\<close> and the others read from the memory the
  values that the rest of the development works on, the records of \<open>Api_Types\<close>; a copy is deep
  when it stands for the same value and by cells of its own.
\<close>

section \<open>The copies of other packages\<close>

text \<open>
  \<^verbatim>\<open>DeepCopyInto\<close> of the embedded structs, and what such a struct stands for. \<open>foreign_ok\<close> is the
  contract every generated \<^verbatim>\<open>DeepCopyInto\<close> documents, that it copies deeply, and the one of
  \<^verbatim>\<open>metav1.Time\<close>, whose instant is copied by assignment.
\<close>

record 'x foreign =
  foreign_zero :: 'x
  ObjectMeta_DeepCopyInto :: "('x, 'x cell) copier"
  ListMeta_DeepCopyInto :: "('x, 'x cell) copier"
  LimitRange_DeepCopyInto :: "('x, 'x cell) copier"
  ResourceQuotaList_DeepCopyInto :: "('x, 'x cell) copier"
  ClowdEnvironmentSpec_DeepCopyInto :: "('x, 'x cell) copier"
  Time_DeepCopyInto :: "time \<Rightarrow> time"
  object_meta_val :: "'x cell cells \<Rightarrow> 'x \<Rightarrow> k8sobj option"
  list_meta_val :: "'x cell cells \<Rightarrow> 'x \<Rightarrow> string option"
  limit_range_val :: "'x cell cells \<Rightarrow> 'x \<Rightarrow> limit_range option"
  quota_list_val :: "'x cell cells \<Rightarrow> 'x \<Rightarrow> resource_quota list option"
  clowdenv_spec_val :: "'x cell cells \<Rightarrow> 'x \<Rightarrow> clowdenv_spec option"

definition foreign_ok :: "'x foreign \<Rightarrow> bool" where
  "foreign_ok F \<longleftrightarrow> deep (object_meta_val F) (ObjectMeta_DeepCopyInto F) \<and>
     deep (list_meta_val F) (ListMeta_DeepCopyInto F) \<and>
     deep (limit_range_val F) (LimitRange_DeepCopyInto F) \<and>
     deep (quota_list_val F) (ResourceQuotaList_DeepCopyInto F) \<and>
     deep (clowdenv_spec_val F) (ClowdEnvironmentSpec_DeepCopyInto F) \<and>
     (\<forall>t. Time_DeepCopyInto F t = t)"

lemma foreign_okD:
  assumes "foreign_ok F"
  shows "deep (object_meta_val F) (ObjectMeta_DeepCopyInto F)"
    and "deep (list_meta_val F) (ListMeta_DeepCopyInto F)"
    and "deep (limit_range_val F) (LimitRange_DeepCopyInto F)"
    and "deep (quota_list_val F) (ResourceQuotaList_DeepCopyInto F)"
    and "deep (clowdenv_spec_val F) (ClowdEnvironmentSpec_DeepCopyInto F)"
    and "Time_DeepCopyInto F t = t"
  using assms by (simp_all add: foreign_ok_def)

section \<open>SecretsData and Team\<close>

definition SecretsData_DeepCopyInto :: "(secrets_data, 'x cell) copier" where
  "SecretsData_DeepCopyInto = assign"

definition zero_secrets_data :: secrets_data where
  "zero_secrets_data = \<lparr>sdName = '''', sdDestName = ''''\<rparr>"

definition SecretsData_DeepCopy :: "(addr option, 'x cell) copier" where
  "SecretsData_DeepCopy =
     new_copy SecretsDataCell secrets_data_of zero_secrets_data SecretsData_DeepCopyInto"

text \<open>\<^verbatim>\<open>copy(*out, *in)\<close> assigns the elements in order.\<close>

definition Team_DeepCopyInto :: "(go_team, 'x cell) copier" where
  "Team_DeepCopyInto t h = do {
     (secrets, h) \<leftarrow> copy_slice SecretsArray secrets_of zero_secrets_data assign (gSecrets t) h;
     Some (t\<lparr>gSecrets := secrets\<rparr>, h)
   }"

definition zero_go_team :: go_team where
  "zero_go_team = \<lparr>gTeamName = '''', gSecrets = None\<rparr>"

definition Team_DeepCopy :: "(addr option, 'x cell) copier" where
  "Team_DeepCopy = new_copy TeamCell team_of zero_go_team Team_DeepCopyInto"

definition team_val :: "'x cell cells \<Rightarrow> go_team \<Rightarrow> team option" where
  "team_val m t = do {
     secrets \<leftarrow> slice_val secrets_of plain_val m (gSecrets t);
     Some \<lparr>teamName = gTeamName t, teamSecrets = secrets\<rparr>
   }"

lemma deep_team: "deep team_val Team_DeepCopyInto"
  by (rule deep_via [OF secrets_array.copy_slice_deep [OF deep_assign, where zero = zero_secrets_data],
        where get = gSecrets and put = "\<lambda>x t. t\<lparr>gSecrets := x\<rparr>"
          and f = "\<lambda>t secrets. \<lparr>teamName = gTeamName t, teamSecrets = secrets\<rparr>"])
    (auto simp: team_val_def Team_DeepCopyInto_def map_conv_bind_option comp_def case_prod_unfold)

section \<open>NamespacePool\<close>

definition NamespacePoolSpec_DeepCopyInto :: "'x foreign \<Rightarrow> ('x go_pool_spec, 'x cell) copier" where
  "NamespacePoolSpec_DeepCopyInto F s h = do {
     (limit, h) \<leftarrow> new_copy IntCell int_of 0 assign (gSizeLimit s) h;
     (env, h) \<leftarrow> new_copy ForeignCell foreign_of (foreign_zero F)
        (ClowdEnvironmentSpec_DeepCopyInto F) (gClowdEnvironment s) h;
     (limits, h) \<leftarrow> LimitRange_DeepCopyInto F (gLimitRange s) h;
     (quotas, h) \<leftarrow> ResourceQuotaList_DeepCopyInto F (gResourceQuotas s) h;
     (teams, h) \<leftarrow> copy_slice TeamsArray teams_of zero_go_team Team_DeepCopyInto (gTeams s) h;
     Some (s\<lparr>gSizeLimit := limit, gClowdEnvironment := env, gLimitRange := limits,
        gResourceQuotas := quotas, gTeams := teams\<rparr>, h)
   }"

definition zero_go_pool_spec :: "'x foreign \<Rightarrow> 'x go_pool_spec" where
  "zero_go_pool_spec F = \<lparr>gSize = 0, gSizeLimit = None, gLocal = False, gClowdEnvironment = None,
     gDefaultSecretSourceNamespace = '''', gLimitRange = foreign_zero F,
     gResourceQuotas = foreign_zero F, gDescription = '''', gTeams = None\<rparr>"

definition NamespacePoolSpec_DeepCopy :: "'x foreign \<Rightarrow> (addr option, 'x cell) copier" where
  "NamespacePoolSpec_DeepCopy F =
     new_copy PoolSpecCell pool_spec_of (zero_go_pool_spec F) (NamespacePoolSpec_DeepCopyInto F)"

definition pool_spec_val :: "'x foreign \<Rightarrow> 'x cell cells \<Rightarrow> 'x go_pool_spec \<Rightarrow> pool_spec option" where
  "pool_spec_val F m s = do {
     limit \<leftarrow> ptr_val int_of plain_val m (gSizeLimit s);
     env \<leftarrow> ptr_val foreign_of (clowdenv_spec_val F) m (gClowdEnvironment s);
     limits \<leftarrow> limit_range_val F m (gLimitRange s);
     quotas \<leftarrow> quota_list_val F m (gResourceQuotas s);
     teams \<leftarrow> slice_val teams_of team_val m (gTeams s);
     Some \<lparr>psSize = gSize s, psSizeLimit = limit, psLocal = gLocal s, psClowdEnvironment = env,
       psDefaultSecretSourceNamespace = gDefaultSecretSourceNamespace s, psLimitRange = limits,
       psResourceQuotas = quotas, psDescription = gDescription s, psTeams = teams\<rparr>
   }"

text \<open>The fields of a specification with pointers, and setting them in the assigned struct.\<close>

definition spec_pointers where
  "spec_pointers s = (gSizeLimit s, gClowdEnvironment s, gLimitRange s, gResourceQuotas s, gTeams s)"

definition with_pointers :: "_ \<Rightarrow> 'x go_pool_spec \<Rightarrow> 'x go_pool_spec" where
  "with_pointers p s = (case p of (limit, env, limits, quotas, teams) \<Rightarrow>
     s\<lparr>gSizeLimit := limit, gClowdEnvironment := env, gLimitRange := limits,
       gResourceQuotas := quotas, gTeams := teams\<rparr>)"

lemma deep_pool_spec:
  assumes "foreign_ok F"
  shows "deep (pool_spec_val F) (NamespacePoolSpec_DeepCopyInto F)"
  by (rule deep_via [OF deep_pair [OF int_cell.new_copy_deep [OF deep_assign, where zero = 0]
        deep_pair [OF foreign_cell.new_copy_deep [OF foreign_okD(5) [OF assms], where zero = "foreign_zero F"]
        deep_pair [OF foreign_okD(3) [OF assms]
        deep_pair [OF foreign_okD(4) [OF assms] teams_array.copy_slice_deep [OF deep_team, where zero = zero_go_team]]]]],
        where get = spec_pointers and put = with_pointers
          and f = "\<lambda>s (limit, env, limits, quotas, teams).
            \<lparr>psSize = gSize s, psSizeLimit = limit, psLocal = gLocal s, psClowdEnvironment = env,
             psDefaultSecretSourceNamespace = gDefaultSecretSourceNamespace s, psLimitRange = limits,
             psResourceQuotas = quotas, psDescription = gDescription s, psTeams = teams\<rparr>"])
    (auto simp: pool_spec_val_def pair_val_def spec_pointers_def with_pointers_def fun_eq_iff
      NamespacePoolSpec_DeepCopyInto_def pair_copy_def map_conv_bind_option comp_def case_prod_unfold)

definition NamespacePoolStatus_DeepCopyInto :: "(pool_status, 'x cell) copier" where
  "NamespacePoolStatus_DeepCopyInto = assign"

definition zero_pool_status :: pool_status where
  "zero_pool_status = \<lparr>poolReady = 0, poolCreating = 0, poolReserved = 0\<rparr>"

definition NamespacePoolStatus_DeepCopy :: "(addr option, 'x cell) copier" where
  "NamespacePoolStatus_DeepCopy =
     new_copy PoolStatusCell pool_status_of zero_pool_status NamespacePoolStatus_DeepCopyInto"

definition NamespacePool_DeepCopyInto :: "'x foreign \<Rightarrow> ('x go_pool, 'x cell) copier" where
  "NamespacePool_DeepCopyInto F p h = do {
     (meta, h) \<leftarrow> ObjectMeta_DeepCopyInto F (gPoolObjectMeta p) h;
     (spec, h) \<leftarrow> NamespacePoolSpec_DeepCopyInto F (gPoolSpec p) h;
     Some (p\<lparr>gPoolObjectMeta := meta, gPoolSpec := spec\<rparr>, h)
   }"

definition zero_type_meta :: go_type_meta where
  "zero_type_meta = \<lparr>gKind = '''', gAPIVersion = ''''\<rparr>"

definition zero_go_pool :: "'x foreign \<Rightarrow> 'x go_pool" where
  "zero_go_pool F = \<lparr>gPoolTypeMeta = zero_type_meta, gPoolObjectMeta = foreign_zero F,
     gPoolSpec = zero_go_pool_spec F, gPoolStatus = zero_pool_status\<rparr>"

definition NamespacePool_DeepCopy :: "'x foreign \<Rightarrow> (addr option, 'x cell) copier" where
  "NamespacePool_DeepCopy F =
     new_copy PoolCell pool_of (zero_go_pool F) (NamespacePool_DeepCopyInto F)"

definition pool_val :: "'x foreign \<Rightarrow> 'x cell cells \<Rightarrow> 'x go_pool \<Rightarrow> pool option" where
  "pool_val F m p = do {
     meta \<leftarrow> object_meta_val F m (gPoolObjectMeta p);
     spec \<leftarrow> pool_spec_val F m (gPoolSpec p);
     Some (k8sobj.extend
       (meta\<lparr>tAPIVersion := gAPIVersion (gPoolTypeMeta p), tKind := gKind (gPoolTypeMeta p)\<rparr>)
       \<lparr>poolSpec = spec, poolStatus = gPoolStatus p\<rparr>)
   }"

lemma deep_pool:
  assumes "foreign_ok F"
  shows "deep (pool_val F) (NamespacePool_DeepCopyInto F)"
  by (rule deep_via [OF deep_pair [OF foreign_okD(1) [OF assms] deep_pool_spec [OF assms]],
        where get = "\<lambda>p. (gPoolObjectMeta p, gPoolSpec p)"
          and put = "\<lambda>(meta, spec) p. p\<lparr>gPoolObjectMeta := meta, gPoolSpec := spec\<rparr>"
          and f = "\<lambda>p (meta, spec). k8sobj.extend
            (meta\<lparr>tAPIVersion := gAPIVersion (gPoolTypeMeta p), tKind := gKind (gPoolTypeMeta p)\<rparr>)
            \<lparr>poolSpec = spec, poolStatus = gPoolStatus p\<rparr>"])
    (auto simp: pool_val_def pair_val_def NamespacePool_DeepCopyInto_def pair_copy_def fun_eq_iff
      map_conv_bind_option comp_def case_prod_unfold)

definition NamespacePoolList_DeepCopyInto :: "'x foreign \<Rightarrow> ('x go_pool_list, 'x cell) copier" where
  "NamespacePoolList_DeepCopyInto F l h = do {
     (meta, h) \<leftarrow> ListMeta_DeepCopyInto F (gPoolListMeta l) h;
     (items, h) \<leftarrow> copy_slice PoolsArray pools_of (zero_go_pool F) (NamespacePool_DeepCopyInto F)
        (gPoolItems l) h;
     Some (l\<lparr>gPoolListMeta := meta, gPoolItems := items\<rparr>, h)
   }"

definition zero_go_pool_list :: "'x foreign \<Rightarrow> 'x go_pool_list" where
  "zero_go_pool_list F =
     \<lparr>gPoolListTypeMeta = zero_type_meta, gPoolListMeta = foreign_zero F, gPoolItems = None\<rparr>"

definition NamespacePoolList_DeepCopy :: "'x foreign \<Rightarrow> (addr option, 'x cell) copier" where
  "NamespacePoolList_DeepCopy F =
     new_copy PoolListCell pool_list_of (zero_go_pool_list F) (NamespacePoolList_DeepCopyInto F)"

record 'o k8slist =
  lKind :: string
  lAPIVersion :: string
  lMeta :: string
  lItems :: "'o list"

definition pool_list_val ::
  "'x foreign \<Rightarrow> 'x cell cells \<Rightarrow> 'x go_pool_list \<Rightarrow> pool k8slist option" where
  "pool_list_val F m l = do {
     meta \<leftarrow> list_meta_val F m (gPoolListMeta l);
     items \<leftarrow> slice_val pools_of (pool_val F) m (gPoolItems l);
     Some \<lparr>lKind = gKind (gPoolListTypeMeta l), lAPIVersion = gAPIVersion (gPoolListTypeMeta l),
       lMeta = meta, lItems = items\<rparr>
   }"

lemma deep_pool_list:
  assumes "foreign_ok F"
  shows "deep (pool_list_val F) (NamespacePoolList_DeepCopyInto F)"
  by (rule deep_via [OF deep_pair [OF foreign_okD(2) [OF assms]
        pools_array.copy_slice_deep [OF deep_pool [OF assms], where zero = "zero_go_pool F"]],
        where get = "\<lambda>l. (gPoolListMeta l, gPoolItems l)"
          and put = "\<lambda>(meta, items) l. l\<lparr>gPoolListMeta := meta, gPoolItems := items\<rparr>"
          and f = "\<lambda>l (meta, items). \<lparr>lKind = gKind (gPoolListTypeMeta l),
            lAPIVersion = gAPIVersion (gPoolListTypeMeta l), lMeta = meta, lItems = items\<rparr>"])
    (auto simp: pool_list_val_def pair_val_def NamespacePoolList_DeepCopyInto_def pair_copy_def
      fun_eq_iff map_conv_bind_option comp_def case_prod_unfold)

section \<open>NamespaceReservation\<close>

definition NamespaceReservationSpec_DeepCopyInto :: "(go_reservation_spec, 'x cell) copier" where
  "NamespaceReservationSpec_DeepCopyInto s h = do {
     (duration, h) \<leftarrow> new_copy StringCell string_of '''' assign (gDuration s) h;
     Some (s\<lparr>gDuration := duration\<rparr>, h)
   }"

definition zero_go_reservation_spec :: go_reservation_spec where
  "zero_go_reservation_spec = \<lparr>gDuration = None, gRequester = '''', gTeam = '''', gPoolName = '''',
     gSecretSourceNamespace = ''''\<rparr>"

definition NamespaceReservationSpec_DeepCopy :: "(addr option, 'x cell) copier" where
  "NamespaceReservationSpec_DeepCopy = new_copy ReservationSpecCell reservation_spec_of
     zero_go_reservation_spec NamespaceReservationSpec_DeepCopyInto"

definition NamespaceReservationStatus_DeepCopyInto ::
  "'x foreign \<Rightarrow> (reservation_status, 'x cell) copier" where
  "NamespaceReservationStatus_DeepCopyInto F st h =
     Some (st\<lparr>rsExpiration := Time_DeepCopyInto F (rsExpiration st)\<rparr>, h)"

definition zero_reservation_status :: reservation_status where
  "zero_reservation_status =
     \<lparr>rsExpiration = 0, rsState = '''', rsNamespace = '''', rsStatusPool = ''''\<rparr>"

definition NamespaceReservationStatus_DeepCopy :: "'x foreign \<Rightarrow> (addr option, 'x cell) copier" where
  "NamespaceReservationStatus_DeepCopy F = new_copy ReservationStatusCell reservation_status_of
     zero_reservation_status (NamespaceReservationStatus_DeepCopyInto F)"

definition NamespaceReservation_DeepCopyInto :: "'x foreign \<Rightarrow> ('x go_reservation, 'x cell) copier" where
  "NamespaceReservation_DeepCopyInto F r h = do {
     (meta, h) \<leftarrow> ObjectMeta_DeepCopyInto F (gResObjectMeta r) h;
     (spec, h) \<leftarrow> NamespaceReservationSpec_DeepCopyInto (gResSpec r) h;
     (status, h) \<leftarrow> NamespaceReservationStatus_DeepCopyInto F (gResStatus r) h;
     Some (r\<lparr>gResObjectMeta := meta, gResSpec := spec, gResStatus := status\<rparr>, h)
   }"

definition zero_go_reservation :: "'x foreign \<Rightarrow> 'x go_reservation" where
  "zero_go_reservation F = \<lparr>gResTypeMeta = zero_type_meta, gResObjectMeta = foreign_zero F,
     gResSpec = zero_go_reservation_spec, gResStatus = zero_reservation_status\<rparr>"

definition NamespaceReservation_DeepCopy :: "'x foreign \<Rightarrow> (addr option, 'x cell) copier" where
  "NamespaceReservation_DeepCopy F = new_copy ReservationCell reservation_of
     (zero_go_reservation F) (NamespaceReservation_DeepCopyInto F)"

definition reservation_spec_val ::
  "'x cell cells \<Rightarrow> go_reservation_spec \<Rightarrow> reservation_spec option" where
  "reservation_spec_val m s = do {
     duration \<leftarrow> ptr_val string_of plain_val m (gDuration s);
     Some \<lparr>rsDuration = duration, rsRequester = gRequester s, rsTeam = gTeam s,
       rsPool = gPoolName s, rsSecretSourceNamespace = gSecretSourceNamespace s\<rparr>
   }"

definition reservation_val ::
  "'x foreign \<Rightarrow> 'x cell cells \<Rightarrow> 'x go_reservation \<Rightarrow> reservation option" where
  "reservation_val F m r = do {
     meta \<leftarrow> object_meta_val F m (gResObjectMeta r);
     spec \<leftarrow> reservation_spec_val m (gResSpec r);
     status \<leftarrow> plain_val m (gResStatus r);
     Some (k8sobj.extend
       (meta\<lparr>tAPIVersion := gAPIVersion (gResTypeMeta r), tKind := gKind (gResTypeMeta r)\<rparr>)
       \<lparr>resSpec = spec, resStatus = status\<rparr>)
   }"

lemma deep_reservation_spec: "deep reservation_spec_val NamespaceReservationSpec_DeepCopyInto"
  by (rule deep_via [OF string_cell.new_copy_deep [OF deep_assign, where zero = "''''"],
        where get = gDuration and put = "\<lambda>x s. s\<lparr>gDuration := x\<rparr>"
          and f = "\<lambda>s duration. \<lparr>rsDuration = duration, rsRequester = gRequester s, rsTeam = gTeam s,
            rsPool = gPoolName s, rsSecretSourceNamespace = gSecretSourceNamespace s\<rparr>"])
    (auto simp: reservation_spec_val_def NamespaceReservationSpec_DeepCopyInto_def
      map_conv_bind_option comp_def case_prod_unfold)

lemma deep_reservation_status:
  assumes "foreign_ok F"
  shows "deep plain_val (NamespaceReservationStatus_DeepCopyInto F)"
proof -
  have "NamespaceReservationStatus_DeepCopyInto F = assign"
    by (simp add: fun_eq_iff NamespaceReservationStatus_DeepCopyInto_def assign_def
        foreign_okD(6) [OF assms])
  then show ?thesis by (simp add: deep_assign)
qed

lemma deep_reservation:
  assumes "foreign_ok F"
  shows "deep (reservation_val F) (NamespaceReservation_DeepCopyInto F)"
  by (rule deep_via [OF deep_pair [OF foreign_okD(1) [OF assms]
        deep_pair [OF deep_reservation_spec deep_reservation_status [OF assms]]],
        where get = "\<lambda>r. (gResObjectMeta r, gResSpec r, gResStatus r)"
          and put = "\<lambda>(meta, spec, status) r.
            r\<lparr>gResObjectMeta := meta, gResSpec := spec, gResStatus := status\<rparr>"
          and f = "\<lambda>r (meta, spec, status). k8sobj.extend
            (meta\<lparr>tAPIVersion := gAPIVersion (gResTypeMeta r), tKind := gKind (gResTypeMeta r)\<rparr>)
            \<lparr>resSpec = spec, resStatus = status\<rparr>"])
    (auto simp: reservation_val_def pair_val_def NamespaceReservation_DeepCopyInto_def
      pair_copy_def fun_eq_iff map_conv_bind_option comp_def case_prod_unfold)

definition NamespaceReservationList_DeepCopyInto ::
  "'x foreign \<Rightarrow> ('x go_reservation_list, 'x cell) copier" where
  "NamespaceReservationList_DeepCopyInto F l h = do {
     (meta, h) \<leftarrow> ListMeta_DeepCopyInto F (gResListMeta l) h;
     (items, h) \<leftarrow> copy_slice ReservationsArray reservations_of (zero_go_reservation F)
        (NamespaceReservation_DeepCopyInto F) (gResItems l) h;
     Some (l\<lparr>gResListMeta := meta, gResItems := items\<rparr>, h)
   }"

definition zero_go_reservation_list :: "'x foreign \<Rightarrow> 'x go_reservation_list" where
  "zero_go_reservation_list F =
     \<lparr>gResListTypeMeta = zero_type_meta, gResListMeta = foreign_zero F, gResItems = None\<rparr>"

definition NamespaceReservationList_DeepCopy :: "'x foreign \<Rightarrow> (addr option, 'x cell) copier" where
  "NamespaceReservationList_DeepCopy F = new_copy ReservationListCell reservation_list_of
     (zero_go_reservation_list F) (NamespaceReservationList_DeepCopyInto F)"

definition reservation_list_val ::
  "'x foreign \<Rightarrow> 'x cell cells \<Rightarrow> 'x go_reservation_list \<Rightarrow> reservation k8slist option" where
  "reservation_list_val F m l = do {
     meta \<leftarrow> list_meta_val F m (gResListMeta l);
     items \<leftarrow> slice_val reservations_of (reservation_val F) m (gResItems l);
     Some \<lparr>lKind = gKind (gResListTypeMeta l), lAPIVersion = gAPIVersion (gResListTypeMeta l),
       lMeta = meta, lItems = items\<rparr>
   }"

lemma deep_reservation_list:
  assumes "foreign_ok F"
  shows "deep (reservation_list_val F) (NamespaceReservationList_DeepCopyInto F)"
  by (rule deep_via [OF deep_pair [OF foreign_okD(2) [OF assms]
        reservations_array.copy_slice_deep [OF deep_reservation [OF assms],
          where zero = "zero_go_reservation F"]],
        where get = "\<lambda>l. (gResListMeta l, gResItems l)"
          and put = "\<lambda>(meta, items) l. l\<lparr>gResListMeta := meta, gResItems := items\<rparr>"
          and f = "\<lambda>l (meta, items). \<lparr>lKind = gKind (gResListTypeMeta l),
            lAPIVersion = gAPIVersion (gResListTypeMeta l), lMeta = meta, lItems = items\<rparr>"])
    (auto simp: reservation_list_val_def pair_val_def NamespaceReservationList_DeepCopyInto_def
      pair_copy_def fun_eq_iff map_conv_bind_option comp_def case_prod_unfold)

section \<open>DeepCopyObject\<close>

text \<open>
  A \<^verbatim>\<open>runtime.Object\<close> that is not nil: a pointer with its type. The code returns a nil interface
  for a nil copy, never an interface that holds a nil pointer.
\<close>

datatype robject =
    PoolObject addr
  | PoolListObject addr
  | ReservationObject addr
  | ReservationListObject addr

definition NamespacePool_DeepCopyObject ::
  "'x foreign \<Rightarrow> addr option \<Rightarrow> 'x cell heap \<Rightarrow> (robject option \<times> 'x cell heap) option" where
  "NamespacePool_DeepCopyObject F p h = do {
     (c, h) \<leftarrow> NamespacePool_DeepCopy F p h;
     case c of Some a \<Rightarrow> Some (Some (PoolObject a), h) | None \<Rightarrow> Some (None, h)
   }"

definition NamespacePoolList_DeepCopyObject ::
  "'x foreign \<Rightarrow> addr option \<Rightarrow> 'x cell heap \<Rightarrow> (robject option \<times> 'x cell heap) option" where
  "NamespacePoolList_DeepCopyObject F p h = do {
     (c, h) \<leftarrow> NamespacePoolList_DeepCopy F p h;
     case c of Some a \<Rightarrow> Some (Some (PoolListObject a), h) | None \<Rightarrow> Some (None, h)
   }"

definition NamespaceReservation_DeepCopyObject ::
  "'x foreign \<Rightarrow> addr option \<Rightarrow> 'x cell heap \<Rightarrow> (robject option \<times> 'x cell heap) option" where
  "NamespaceReservation_DeepCopyObject F p h = do {
     (c, h) \<leftarrow> NamespaceReservation_DeepCopy F p h;
     case c of Some a \<Rightarrow> Some (Some (ReservationObject a), h) | None \<Rightarrow> Some (None, h)
   }"

definition NamespaceReservationList_DeepCopyObject ::
  "'x foreign \<Rightarrow> addr option \<Rightarrow> 'x cell heap \<Rightarrow> (robject option \<times> 'x cell heap) option" where
  "NamespaceReservationList_DeepCopyObject F p h = do {
     (c, h) \<leftarrow> NamespaceReservationList_DeepCopy F p h;
     case c of Some a \<Rightarrow> Some (Some (ReservationListObject a), h) | None \<Rightarrow> Some (None, h)
   }"

text \<open>What an object stands for, by its type.\<close>

datatype api_object =
    PoolVal pool
  | PoolListVal "pool k8slist"
  | ReservationVal reservation
  | ReservationListVal "reservation k8slist"

fun object_val :: "'x foreign \<Rightarrow> 'x cell cells \<Rightarrow> robject \<Rightarrow> api_object option" where
  "object_val F m (PoolObject a) =
     do { v \<leftarrow> deref pool_of m a; x \<leftarrow> pool_val F m v; Some (PoolVal x) }"
| "object_val F m (PoolListObject a) =
     do { v \<leftarrow> deref pool_list_of m a; x \<leftarrow> pool_list_val F m v; Some (PoolListVal x) }"
| "object_val F m (ReservationObject a) =
     do { v \<leftarrow> deref reservation_of m a; x \<leftarrow> reservation_val F m v; Some (ReservationVal x) }"
| "object_val F m (ReservationListObject a) =
     do { v \<leftarrow> deref reservation_list_of m a; x \<leftarrow> reservation_list_val F m v;
          Some (ReservationListVal x) }"

text \<open>The method call through the interface.\<close>

fun DeepCopyObject ::
  "'x foreign \<Rightarrow> robject \<Rightarrow> 'x cell heap \<Rightarrow> (robject option \<times> 'x cell heap) option" where
  "DeepCopyObject F (PoolObject a) = NamespacePool_DeepCopyObject F (Some a)"
| "DeepCopyObject F (PoolListObject a) = NamespacePoolList_DeepCopyObject F (Some a)"
| "DeepCopyObject F (ReservationObject a) = NamespaceReservation_DeepCopyObject F (Some a)"
| "DeepCopyObject F (ReservationListObject a) = NamespaceReservationList_DeepCopyObject F (Some a)"

lemmas object_copies = NamespacePool_DeepCopyObject_def NamespacePoolList_DeepCopyObject_def
  NamespaceReservation_DeepCopyObject_def NamespaceReservationList_DeepCopyObject_def
  NamespacePool_DeepCopy_def NamespacePoolList_DeepCopy_def NamespaceReservation_DeepCopy_def
  NamespaceReservationList_DeepCopy_def

lemma read_mono:
  assumes "deep val copy" and "m \<subseteq>\<^sub>m m'"
    and "do { v \<leftarrow> deref dest m a; y \<leftarrow> val m v; Some (f y) } = Some x"
  shows "do { v \<leftarrow> deref dest m' a; y \<leftarrow> val m' v; Some (f y) } = Some x"
proof -
  from assms(3) obtain v y where "deref dest m a = Some v" "val m v = Some y" "x = f y"
    by (auto simp: bind_eq_Some_conv)
  moreover from this have "deref dest m' a = Some v" "val m' v = Some y"
    using assms(1,2) by (blast intro: deref_mono deep_mono)+
  ultimately show ?thesis by simp
qed

lemma object_mono:
  assumes "foreign_ok F" and "m \<subseteq>\<^sub>m m'" and "object_val F m r = Some x"
  shows "object_val F m' r = Some x"
  using assms(3) read_mono [OF deep_pool [OF assms(1)] assms(2)]
    read_mono [OF deep_pool_list [OF assms(1)] assms(2)]
    read_mono [OF deep_reservation [OF assms(1)] assms(2)]
    read_mono [OF deep_reservation_list [OF assms(1)] assms(2)]
  by (cases r) (simp_all only: object_val.simps)

lemma owned_object:
  "owned (ptr_val pool_of (pool_val F)) lo h (Some a) (Some x) \<Longrightarrow>
    owned (object_val F) lo h (PoolObject a) (PoolVal x)"
  "owned (ptr_val pool_list_of (pool_list_val F)) lo h (Some a) (Some y) \<Longrightarrow>
    owned (object_val F) lo h (PoolListObject a) (PoolListVal y)"
  "owned (ptr_val reservation_of (reservation_val F)) lo h (Some a) (Some z) \<Longrightarrow>
    owned (object_val F) lo h (ReservationObject a) (ReservationVal z)"
  "owned (ptr_val reservation_list_of (reservation_list_val F)) lo h (Some a) (Some u) \<Longrightarrow>
    owned (object_val F) lo h (ReservationListObject a) (ReservationListVal u)"
  by (auto simp: owned_def ptr_val_def bind_eq_Some_conv)

lemma DeepCopyObject_owned:
  assumes F: "foreign_ok F" and ok: "heap_ok h" and val: "object_val F (cells h) r = Some x"
  shows "\<exists>r' h'. DeepCopyObject F r h = Some (Some r', h') \<and> heap_ok h' \<and> grown h h' \<and>
    owned (object_val F) (free_from h) h' r' x"
proof (cases r)
  case (PoolObject a)
  then obtain v y where "deref pool_of (cells h) a = Some v" "pool_val F (cells h) v = Some y"
      "x = PoolVal y"
    using val by (auto simp: bind_eq_Some_conv)
  with PoolObject pool_cell.new_copy_Some [OF deep_pool [OF F] ok, of a v y "zero_go_pool F"] show ?thesis
    by (auto simp: object_copies intro!: owned_object)
next
  case (PoolListObject a)
  then obtain v y where "deref pool_list_of (cells h) a = Some v"
      "pool_list_val F (cells h) v = Some y" "x = PoolListVal y"
    using val by (auto simp: bind_eq_Some_conv)
  with PoolListObject pool_list_cell.new_copy_Some [OF deep_pool_list [OF F] ok, of a v y "zero_go_pool_list F"]
  show ?thesis
    by (auto simp: object_copies intro!: owned_object)
next
  case (ReservationObject a)
  then obtain v y where "deref reservation_of (cells h) a = Some v"
      "reservation_val F (cells h) v = Some y" "x = ReservationVal y"
    using val by (auto simp: bind_eq_Some_conv)
  with ReservationObject reservation_cell.new_copy_Some [OF deep_reservation [OF F] ok, of a v y "zero_go_reservation F"]
  show ?thesis
    by (auto simp: object_copies intro!: owned_object)
next
  case (ReservationListObject a)
  then obtain v y where "deref reservation_list_of (cells h) a = Some v"
      "reservation_list_val F (cells h) v = Some y" "x = ReservationListVal y"
    using val by (auto simp: bind_eq_Some_conv)
  with ReservationListObject
    reservation_list_cell.new_copy_Some [OF deep_reservation_list [OF F] ok, of a v y "zero_go_reservation_list F"]
  show ?thesis
    by (auto simp: object_copies intro!: owned_object)
qed

lemma nil_copies:
  "NamespacePool_DeepCopyObject F None h = Some (None, h)"
  "NamespacePoolList_DeepCopyObject F None h = Some (None, h)"
  "NamespaceReservation_DeepCopyObject F None h = Some (None, h)"
  "NamespaceReservationList_DeepCopyObject F None h = Some (None, h)"
  by (simp_all add: object_copies new_copy_def)

text \<open>
  C25. \<^verbatim>\<open>DeepCopyObject\<close> on a pool, a reservation or a list of them returns an object that stands
  for the same value of the same kind, and changes nothing that was in memory.
\<close>

theorem deep_copy_same_value:
  assumes "foreign_ok F" and "heap_ok h" and "object_val F (cells h) r = Some x"
  shows "\<exists>r' h'. DeepCopyObject F r h = Some (Some r', h') \<and> object_val F (cells h') r' = Some x \<and>
    cells h \<subseteq>\<^sub>m cells h' \<and> heap_ok h'"
  using DeepCopyObject_owned [OF assms] by (auto dest: owned_now grown_cells)

text \<open>
  C24. A copy and its original share no memory: whatever becomes of the cells that were there
  before the copy, the copy stands for the same value, and whatever becomes of all others, the
  original does.
\<close>

theorem deep_copy_shares_nothing:
  assumes "foreign_ok F" and "heap_ok h" and "object_val F (cells h) r = Some x"
    and "DeepCopyObject F r h = Some (Some r', h')"
  shows "(\<forall>g. (\<forall>b. b \<notin> dom (cells h) \<longrightarrow> g b = cells h' b) \<longrightarrow> object_val F g r' = Some x) \<and>
    (\<forall>g. (\<forall>b \<in> dom (cells h). g b = cells h' b) \<longrightarrow> object_val F g r = Some x)"
proof (intro conjI allI impI)
  from DeepCopyObject_owned [OF assms(1-3)] assms(4)
  have grown: "cells h \<subseteq>\<^sub>m cells h'" and own: "owned (object_val F) (free_from h) h' r' x"
    by (auto simp: grown_cells)
  fix g
  show "object_val F g r' = Some x" if "\<forall>b. b \<notin> dom (cells h) \<longrightarrow> g b = cells h' b"
    using own that assms(2) by (intro ownedD [OF own]) (auto simp: heap_ok_def domIff)
  show "object_val F g r = Some x" if "\<forall>b \<in> dom (cells h). g b = cells h' b"
    using that grown by (intro object_mono [OF assms(1) _ assms(3)]) (auto simp: map_le_def)
qed

section \<open>A sample\<close>

text \<open>
  Foreign structs of the sample: a text and a pointer to a further one, whose copy is a new cell.
\<close>

datatype sample_struct = SampleStruct string "addr option"

primrec ss_text :: "sample_struct \<Rightarrow> string" where
  "ss_text (SampleStruct t p) = t"

primrec ss_next :: "sample_struct \<Rightarrow> addr option" where
  "ss_next (SampleStruct t p) = p"

definition sample_text :: "sample_struct cell cells \<Rightarrow> sample_struct \<Rightarrow> string option" where
  "sample_text m x = map_option (\<lambda>q. ss_text x @ (case q of None \<Rightarrow> '''' | Some t \<Rightarrow> t))
     (ptr_val foreign_of (\<lambda>_ y. Some (ss_text y)) m (ss_next x))"

definition sample_copy :: "(sample_struct, sample_struct cell) copier" where
  "sample_copy x h = map_option (\<lambda>(p, h). (SampleStruct (ss_text x) p, h))
     (new_copy ForeignCell foreign_of (SampleStruct '''' None) assign (ss_next x) h)"

definition sample_foreign :: "sample_struct foreign" where
  "sample_foreign = \<lparr>foreign_zero = SampleStruct '''' None,
     ObjectMeta_DeepCopyInto = sample_copy, ListMeta_DeepCopyInto = sample_copy,
     LimitRange_DeepCopyInto = sample_copy, ResourceQuotaList_DeepCopyInto = sample_copy,
     ClowdEnvironmentSpec_DeepCopyInto = sample_copy, Time_DeepCopyInto = (\<lambda>t. t),
     object_meta_val = (\<lambda>m x. map_option (\<lambda>t. zero_meta\<lparr>mName := t\<rparr>) (sample_text m x)),
     list_meta_val = sample_text,
     limit_range_val = (\<lambda>m x. map_option (\<lambda>t. k8sobj.extend zero_meta \<lparr>lrPayload = t\<rparr>)
       (sample_text m x)),
     quota_list_val = (\<lambda>m x. map_option (\<lambda>t. [k8sobj.extend zero_meta \<lparr>rqPayload = t\<rparr>])
       (sample_text m x)),
     clowdenv_spec_val = (\<lambda>m x. map_option (\<lambda>t. \<lparr>TargetNamespace = t, WebMode = '''',
       IngressClass = '''', clowdenvPayload = ''''\<rparr>) (sample_text m x))\<rparr>"

lemma deep_sample_text: "deep sample_text sample_copy"
proof (rule deep_via [where get = ss_next and put = "\<lambda>p x. SampleStruct (ss_text x) p"
      and f = "\<lambda>x q. ss_text x @ (case q of None \<Rightarrow> '''' | Some t \<Rightarrow> t)"])
  show "deep (ptr_val foreign_of (\<lambda>_ y. Some (ss_text y)))
      (new_copy ForeignCell foreign_of (SampleStruct '''' None) assign)"
    by (rule foreign_cell.new_copy_deep, rule deepI)
      (auto simp: assign_def grown_refl owned_def)
qed (auto simp: sample_text_def sample_copy_def)

lemma deep_view: "deep val copy \<Longrightarrow> deep (\<lambda>m v. map_option f (val m v)) copy"
  by (rule deep_via [where get = "\<lambda>s. s" and put = "\<lambda>x s. x" and f = "\<lambda>_. f"])
    (auto simp: option.map_id)

lemma sample_foreign_ok: "foreign_ok sample_foreign"
  by (simp add: foreign_ok_def sample_foreign_def deep_sample_text deep_view)

definition sample_heap :: "sample_struct cell heap" where
  "sample_heap = \<lparr>cells = map_of
     [(0, IntCell 3), (1, ForeignCell (SampleStruct ''more'' None)),
      (2, SecretsArray [\<lparr>sdName = ''s'', sdDestName = ''d''\<rparr>]),
      (3, TeamsArray [\<lparr>gTeamName = ''none'', gSecrets = None\<rparr>, \<lparr>gTeamName = ''t'',
         gSecrets = Some \<lparr>sl_arr = 2, sl_off = 0, sl_len = 1\<rparr>\<rparr>]),
      (4, PoolCell \<lparr>gPoolTypeMeta = zero_type_meta,
         gPoolObjectMeta = SampleStruct ''pool'' (Some 1),
         gPoolSpec = (zero_go_pool_spec sample_foreign)\<lparr>gSizeLimit := Some 0,
           gTeams := Some \<lparr>sl_arr = 3, sl_off = 1, sl_len = 1\<rparr>\<rparr>,
         gPoolStatus = zero_pool_status\<rparr>)],
     free_from = 5\<rparr>"

lemma sample_heap_ok: "heap_ok sample_heap"
  by (auto simp: heap_ok_def sample_heap_def)

definition sample_pool_val :: api_object where
  "sample_pool_val = PoolVal (k8sobj.extend (zero_meta\<lparr>mName := ''poolmore''\<rparr>)
     \<lparr>poolSpec = \<lparr>psSize = 0, psSizeLimit = Some 3, psLocal = False, psClowdEnvironment = None,
        psDefaultSecretSourceNamespace = '''',
        psLimitRange = k8sobj.extend zero_meta \<lparr>lrPayload = ''''\<rparr>,
        psResourceQuotas = [k8sobj.extend zero_meta \<lparr>rqPayload = ''''\<rparr>], psDescription = '''',
        psTeams = [\<lparr>teamName = ''t'', teamSecrets = [\<lparr>sdName = ''s'', sdDestName = ''d''\<rparr>]\<rparr>]\<rparr>,
      poolStatus = zero_pool_status\<rparr>)"

lemma sample_heap_val:
  "object_val sample_foreign (cells sample_heap) (PoolObject 4) = Some sample_pool_val"
  by (simp add: sample_heap_def sample_pool_val_def pool_of_def deref_def pool_val_def
      pool_spec_val_def sample_foreign_def sample_text_def ptr_val_def foreign_of_def int_of_def
      plain_val_def slice_val_def teams_of_def secrets_of_def team_val_def zero_type_meta_def
      zero_go_pool_spec_def zero_meta_def k8sobj.defs)

theorem deep_copy_same_value_witness:
  "\<exists>r' h'. DeepCopyObject sample_foreign (PoolObject 4) sample_heap = Some (Some r', h') \<and>
     object_val sample_foreign (cells h') r' = Some sample_pool_val \<and>
     cells sample_heap \<subseteq>\<^sub>m cells h' \<and> heap_ok h'"
  by (rule deep_copy_same_value [OF sample_foreign_ok sample_heap_ok sample_heap_val])

definition sample_copied :: "(robject option \<times> sample_struct cell heap) option" where
  "sample_copied = DeepCopyObject sample_foreign (PoolObject 4) sample_heap"

theorem deep_copy_shares_nothing_witness:
  "\<exists>r' h'. sample_copied = Some (Some r', h') \<and>
     object_val sample_foreign ((cells h')(0 := None, 1 := None, 2 := None, 3 := None, 4 := None)) r' =
       Some sample_pool_val"
proof -
  from DeepCopyObject_owned [OF sample_foreign_ok sample_heap_ok sample_heap_val]
  obtain r' h' where copy: "DeepCopyObject sample_foreign (PoolObject 4) sample_heap = Some (Some r', h')"
    by auto
  have "b \<in> dom (cells sample_heap)" if "b \<in> {0, 1, 2, 3, 4}" for b
    using that by (auto simp: sample_heap_def)
  with deep_copy_shares_nothing [OF sample_foreign_ok sample_heap_ok sample_heap_val copy] copy
  show ?thesis by (intro exI [of _ r'] exI [of _ h']) (auto simp: sample_copied_def)
qed

end
