(* ===== verification/Api_Group.thy ===== *)
theory Api_Group
  imports Startup Deep_Copy
begin

text \<open>
  \<^verbatim>\<open>groupversion_info.go\<close> and the \<^verbatim>\<open>init\<close> functions of the two \<^verbatim>\<open>_types.go\<close> files: the group version
  of the custom resources and the types its scheme builder holds. \<^verbatim>\<open>Register\<close> of the builder (of
  the controller runtime) adds its arguments to the types of the group version.
\<close>

record group_version =
  gvGroup :: string
  gvVersion :: string

record scheme_builder =
  sbGroupVersion :: group_version
  sbTypes :: "string list"

definition GroupVersion :: group_version where
  "GroupVersion = \<lparr>gvGroup = ''cloud.redhat.com'', gvVersion = ''v1alpha1''\<rparr>"

definition SchemeBuilder :: scheme_builder where
  "SchemeBuilder = \<lparr>sbGroupVersion = GroupVersion, sbTypes = []\<rparr>"

definition sb_Register :: "string list \<Rightarrow> scheme_builder \<Rightarrow> scheme_builder" where
  "sb_Register types b = b\<lparr>sbTypes := sbTypes b @ types\<rparr>"

definition init_pool_types :: "scheme_builder \<Rightarrow> scheme_builder" where
  "init_pool_types = sb_Register [''NamespacePool'', ''NamespacePoolList'']"

definition init_reservation_types :: "scheme_builder \<Rightarrow> scheme_builder" where
  "init_reservation_types = sb_Register [''NamespaceReservation'', ''NamespaceReservationList'']"

text \<open>The initializers run in the order of the files' names, before those of \<^verbatim>\<open>run.go\<close>.\<close>

definition api_types :: scheme_builder where
  "api_types = init_reservation_types (init_pool_types SchemeBuilder)"

fun type_name :: "robject \<Rightarrow> string" where
  "type_name (PoolObject a) = ''NamespacePool''"
| "type_name (PoolListObject a) = ''NamespacePoolList''"
| "type_name (ReservationObject a) = ''NamespaceReservation''"
| "type_name (ReservationListObject a) = ''NamespaceReservationList''"

text \<open>
  A copy made by \<^verbatim>\<open>DeepCopyObject\<close> has the type of its original, and the registered types are
  exactly those that have the method, each once.
\<close>

lemma copy_keeps_type:
  "DeepCopyObject F x h = Some (Some y, h') \<Longrightarrow> type_name y = type_name x"
  by (cases x) (auto simp: NamespacePool_DeepCopyObject_def NamespacePoolList_DeepCopyObject_def
      NamespaceReservation_DeepCopyObject_def NamespaceReservationList_DeepCopyObject_def
      split: bind_splits option.splits)

lemma registered_types:
  "set (sbTypes api_types) = range type_name" "distinct (sbTypes api_types)"
  "sbGroupVersion api_types = GroupVersion"
proof -
  have "range type_name = {''NamespacePool'', ''NamespacePoolList'', ''NamespaceReservation'',
      ''NamespaceReservationList''}" (is "_ = ?names")
  proof
    show "range type_name \<subseteq> ?names"
      by (rule image_subsetI) (rename_tac x, case_tac x; simp)
    show "?names \<subseteq> range type_name"
      using rangeI [of type_name "PoolObject undefined"] rangeI [of type_name "PoolListObject undefined"]
        rangeI [of type_name "ReservationObject undefined"]
        rangeI [of type_name "ReservationListObject undefined"] by simp
  qed
  then show "set (sbTypes api_types) = range type_name"
    by (simp add: api_types_def init_pool_types_def init_reservation_types_def sb_Register_def
        SchemeBuilder_def)
  show "distinct (sbTypes api_types)" "sbGroupVersion api_types = GroupVersion"
    by (simp_all add: api_types_def init_pool_types_def init_reservation_types_def sb_Register_def
        SchemeBuilder_def)
qed

text \<open>
  The kinds the two controllers of this API reconcile are registered by \<^verbatim>\<open>crd.AddToScheme\<close>, which
  is among the calls on the scheme before the manager is made; the third reconciles a kind of
  the package \<^verbatim>\<open>clowder\<close>.
\<close>

lemma reconciled_kinds_registered:
  "ctFor pool_controller \<in> set (sbTypes api_types)"
  "ctFor reservation_controller \<in> set (sbTypes api_types)"
  "ctFor clowdenv_controller \<notin> set (sbTypes api_types)"
  "''crd'' \<in> set scheme_packages" "''clowder'' \<in> set scheme_packages"
  by (simp_all add: api_types_def init_pool_types_def init_reservation_types_def sb_Register_def
      SchemeBuilder_def pool_controller_def reservation_controller_def clowdenv_controller_def
      scheme_packages_def)

end
