(* ===== verification/Clowdenv_Errors.thy ===== *)
theory Clowdenv_Errors
  imports Clowdenv_Controller
begin

text \<open>
  What the ClowdEnvironment reconciler does when something goes wrong, for every cluster: a
  failure to create the frontend environment, and the last write of the handler, which uses an
  object that the handler itself has made stale.
\<close>

section \<open>A failed frontend environment\<close>

definition marked :: "'s env \<Rightarrow> string \<Rightarrow> string \<Rightarrow> event list \<Rightarrow> bool" where
  "marked E st n h \<longleftrightarrow> (\<exists>ns ns'. NsEv (Get (cluster_key n) (Inr ns)) \<in> set h \<and>
     NsEv (Update (annotated E [AnnotationEnvStatus \<mapsto> st] ns) (Inr ns')) \<in> set h)"

lemma marked_done:
  assumes "annotate_done E n [AnnotationEnvStatus \<mapsto> st] tr None"
  shows "marked E st n (tr @ h)"
proof -
  from assms obtain tr0 ns ns' where "tr = tr0 @ [NsEv (Get (cluster_key n) (Inr ns)),
      NsEv (Update (annotated E [AnnotationEnvStatus \<mapsto> st] ns) (Inr ns'))]"
    by (auto simp: annotate_done_def)
  then show ?thesis
    unfolding marked_def by (intro exI [of _ ns] exI [of _ ns']) simp
qed

lemma wp_run: "run_state m w = (x, w') \<Longrightarrow> wp m Q w \<longleftrightarrow> Q x w'"
  by (simp add: wp_def)

lemma marked_later:
  assumes "annotate_done E n [AnnotationEnvStatus \<mapsto> st] tr None"
  shows "marked E st n (h @ tr)"
  using marked_done [OF assms, of "[]"] unfolding marked_def by auto

lemma marked_twice:
  "marked E st n h \<Longrightarrow> annotate_done E n [AnnotationEnvStatus \<mapsto> st'] tr None \<Longrightarrow>
    \<exists>h1 h2. h @ tr @ tr' = h1 @ h2 \<and> marked E st n h1 \<and> marked E st' n h2"
  by (intro exI [of _ h] exI [of _ "tr @ tr'"]) (simp add: marked_done)

text \<open>A marking, and what comes after it unless it failed.\<close>

lemma marking_goes_on:
  assumes "lib_ok E" and "\<And>e w'. Q (requeue, Some (Errorf ''error setting annotations'' (Some e))) w'"
    and "\<And>tr w'. log w' = log w @ tr \<Longrightarrow> annotate_done E n [AnnotationEnvStatus \<mapsto> st] tr None \<Longrightarrow> wp m Q w'"
  shows "wp (UpdateAnnotations E n [AnnotationEnvStatus \<mapsto> st]) (\<lambda>u. wp (case u of
      Some e \<Rightarrow> State_Monad.return (requeue, Some (Errorf ''error setting annotations'' (Some e)))
    | None \<Rightarrow> m) Q) w"
  by (rule wp_UpdateAnnotations [OF assms(1)]) (auto simp: assms split: option.split)

text \<open>
  C28. When the frontend environment of a ready ClowdEnvironment cannot be created and the
  reconciler ends without an error, it has marked the namespace as being in error and after that,
  in the same run, as ready: the failure is reported nowhere.
\<close>

theorem frontend_failure_lost:
  assumes "lib_ok E" and "run_state (Clowdenv_Reconcile E req) w = ((r, None), w')"
    and "run_state (getEnv E req) w = (Inr env, w1)" and "VerifyClowdEnvReady env"
    and "fst (run_state (CreateFrontendEnv E (TargetNamespace (ceSpec env)) env) w1) = Some err"
  shows "\<exists>h1 h2. log w' = h1 @ h2 \<and>
    marked E EnvStatusError (TargetNamespace (ceSpec env)) h1 \<and>
    marked E EnvStatusReady (TargetNamespace (ceSpec env)) h2"
proof -
  let ?n = "TargetNamespace (ceSpec env)"
  let ?Q = "\<lambda>x w'. snd x = None \<longrightarrow> (\<exists>h1 h2. log w' = h1 @ h2 \<and>
    marked E EnvStatusError ?n h1 \<and> marked E EnvStatusReady ?n h2)"
  obtain w2 where fe: "run_state (CreateFrontendEnv E ?n env) w1 = (Some err, w2)"
    using assms(5) by (metis prod.collapse)
  have completion: "emits (\<lambda>_. True) (record_completion E ?n)"
    by (rule emits_weaken [OF handler.emits_record_completion [OF assms(1)]]) simp
  have twice: "\<exists>h1 h2. log w2 @ tr @ tr' @ tr'' = h1 @ h2 \<and>
      marked E EnvStatusError ?n h1 \<and> marked E EnvStatusReady ?n h2"
    if "annotate_done E ?n [AnnotationEnvStatus \<mapsto> EnvStatusError] tr None"
      "annotate_done E ?n [AnnotationEnvStatus \<mapsto> EnvStatusReady] tr' None" for tr tr' tr''
    using marked_twice [OF marked_later [OF that(1)] that(2)] by simp
  have "wp (UpdateAnnotations E ?n [AnnotationEnvStatus \<mapsto> EnvStatusError]) (\<lambda>aerr. wp (case aerr of
      Some e \<Rightarrow> State_Monad.return (requeue, Some (Errorf ''error setting annotations'' (Some e)))
    | None \<Rightarrow> do {
        u \<leftarrow> UpdateAnnotations E ?n [AnnotationEnvStatus \<mapsto> EnvStatusReady];
        case u of
          Some e \<Rightarrow> State_Monad.return (requeue, Some (Errorf ''error setting annotations'' (Some e)))
        | None \<Rightarrow> record_completion E ?n
      }) ?Q) w2"
    by (intro marking_goes_on [OF assms(1)] wp_bind [THEN iffD2] wp_emits [OF completion]) (simp_all add: twice)
  then have "wp (Clowdenv_Reconcile E req) ?Q w"
    unfolding Clowdenv_Reconcile_def Let_def ToMap_env_status wp_bind wp_run [OF assms(3)] sum.case
    by (simp only: assms(4) not_True_eq_False if_False wp_bind wp_run [OF fe] option.case)
  from wpD [OF this assms(2)] show ?thesis by simp
qed

section \<open>The write after the completion time\<close>

text \<open>
  What optimistic concurrency promises, of a history: a read by name gives an object of that
  name; once a write of an object that differs from \<open>x\<close> in the annotation \<open>k\<close> has been accepted,
  the resource version of \<open>x\<close> is not the current one any more and no write with it is accepted.
\<close>

definition writes_version :: "namespace \<Rightarrow> event \<Rightarrow> bool" where
  "writes_version x e = (case e of
       NsEv (Update y (Inr z)) \<Rightarrow> mName y = mName x \<and> mResourceVersion y = mResourceVersion x
     | _ \<Rightarrow> False)"

definition overwrites :: "string \<Rightarrow> namespace \<Rightarrow> event \<Rightarrow> bool" where
  "overwrites k x e = (case e of
       NsEv (Update y (Inr z)) \<Rightarrow>
         mName y = mName x \<and> gm_lookup (mAnnotations y) k \<noteq> gm_lookup (mAnnotations x) k
     | _ \<Rightarrow> False)"

fun stale_refused :: "string \<Rightarrow> namespace \<Rightarrow> event list \<Rightarrow> bool" where
  "stale_refused k x [] = True"
| "stale_refused k x (e # h) =
     ((overwrites k x e \<longrightarrow> list_all (\<lambda>e. \<not> writes_version x e) h) \<and> stale_refused k x h)"

fun optimistic :: "string \<Rightarrow> event list \<Rightarrow> bool" where
  "optimistic k [] = True"
| "optimistic k (e # h) =
     ((case e of
         NsEv (Get n (Inr x)) \<Rightarrow> n = cluster_key (mName x) \<and> stale_refused k x h
       | _ \<Rightarrow> True) \<and> optimistic k h)"

lemma optimistic_append: "optimistic k (h @ h') \<Longrightarrow> optimistic k h'"
  by (induction h) simp_all

lemma stale_refused_append: "stale_refused k x (h @ h') \<Longrightarrow> stale_refused k x h'"
  by (induction h) simp_all

lemma stale_refused_prefix: "stale_refused k x (h @ h') \<Longrightarrow> stale_refused k x h"
  by (induction h) auto

lemma optimistic_prefix: "optimistic k (h @ h') \<Longrightarrow> optimistic k h"
  by (induction h) (auto dest: stale_refused_prefix split: event.splits act.splits sum.splits)

lemma stale_completion:
  assumes opt: "optimistic k (tr0 @ NsEv (Get n (Inr x)) # NowEv t # tr @ NsEv (Update x r) # h)"
    and annotated: "annotate_done E (mName x) a tr None" and lib: "lib_ok E"
    and k: "a k = Some v" "gm_lookup (mAnnotations x) k = None"
  shows "\<exists>err. r = Inl err"
proof (cases r)
  case (Inr y)
  from annotated obtain tr1 ns ns' where tr: "tr = tr1 @ [NsEv (Get (cluster_key (mName x)) (Inr ns)),
      NsEv (Update (annotated E a ns) (Inr ns'))]"
    by (auto simp: annotate_done_def)
  let ?e = "NsEv (Update (annotated E a ns) (Inr ns'))"
  from optimistic_append [OF opt] have opt': "optimistic k (NowEv t # tr @ NsEv (Update x r) # h)"
    and stale: "stale_refused k x (NowEv t # tr @ NsEv (Update x r) # h)" by simp_all
  have "optimistic k (NsEv (Get (cluster_key (mName x)) (Inr ns)) # ?e # NsEv (Update x r) # h)"
    by (rule optimistic_append [of _ "NowEv t # tr1"]) (use opt' tr in simp)
  then have "mName ns = mName x"
    by (simp add: cluster_key_def)
  moreover have "gm_lookup (mAnnotations (annotated E a ns)) k \<noteq> gm_lookup (mAnnotations x) k"
    by (simp add: annotated_lookup [OF lib] k)
  ultimately have "overwrites k x ?e"
    by (simp add: overwrites_def)
  moreover from stale have "stale_refused k x
      ((NowEv t # tr1 @ [NsEv (Get (cluster_key (mName x)) (Inr ns))]) @ ?e # NsEv (Update x r) # h)"
    by (simp add: tr)
  then have "stale_refused k x (?e # NsEv (Update x r) # h)"
    by (rule stale_refused_append)
  ultimately show ?thesis by (simp add: Inr writes_version_def)
qed simp

text \<open>
  What a run of \<open>record_completion\<close> has made of the metric: nothing, and it ends without an error
  only when there was nothing to record.
\<close>

fun observes_creation :: "event \<Rightarrow> bool" where
  "observes_creation (MetricEv (With c kvs op)) = (c = averageNamespaceCreationMetrics)"
| "observes_creation _ = False"

definition completion_lost :: "string \<Rightarrow> event list \<Rightarrow> reconcile_result \<Rightarrow> bool" where
  "completion_lost n tr r \<longleftrightarrow> \<not> list_ex observes_creation tr \<and>
     (snd r = None \<longrightarrow> (\<exists>ns. NsEv (Get (cluster_key n) (Inr ns)) \<in> set tr \<and>
        gm_lookup (mAnnotations ns) CompletionTime \<noteq> None))"

lemma quiet_annotates:
  "failed_gets n tr \<Longrightarrow> \<not> list_ex observes_creation tr"
  "annotate_done E n a tr err \<Longrightarrow> \<not> list_ex observes_creation tr"
  by (fastforce simp: failed_gets_def list_ex_iff)
    (fastforce simp: annotate_done_def failed_annotates_def list_ex_iff split: option.splits)

text \<open>The calls after the annotation was written.\<close>

lemma completion_lost_write:
  assumes "lib_ok E" and "annotate_done E (mName ns) [CompletionTime \<mapsto> v] tr None"
    and "gm_lookup (mAnnotations ns) CompletionTime = None" and "failed_gets n tr0"
    and log: "log w3 = log w @ tr0 @ NsEv (Get (cluster_key n) (Inr ns)) # NowEv t # tr"
  shows "wp (do {
      x \<leftarrow> updateNs E ns;
      case x of
        Inl err \<Rightarrow> State_Monad.return (requeue, Some err)
      | Inr ns' \<Rightarrow> do {
          emit_metric (m ns');
          State_Monad.return (no_requeue, None)
        }
    }) (\<lambda>r w'. \<exists>tr. log w' = log w @ tr \<and>
      (optimistic CompletionTime tr \<longrightarrow> completion_lost n tr r)) w3"
  by (intro wp_bind [THEN iffD2] wp_k_call wp_intros wp_return [THEN iffD2])
    (auto simp: log completion_lost_def quiet_annotates(1) [OF assms(4)]
      quiet_annotates(2) [OF assms(2)] dest: stale_completion [OF _ assms(2,1) fun_upd_same assms(3)])

lemma wp_record_completion:
  assumes lib: "lib_ok E"
  shows "wp (record_completion E n) (\<lambda>r w'. \<exists>tr. log w' = log w @ tr \<and>
    (optimistic CompletionTime tr \<longrightarrow> completion_lost n tr r)) w"
    (is "wp _ ?Q w")
  unfolding record_completion_def wp_bind
proof (rule wp_GetNamespace [OF lib], goal_cases)
  case (1 r tr0 w1)
  show ?case
  proof (cases r)
    case (Inl err)
    with 1 show ?thesis by (auto simp: completion_lost_def quiet_annotates(1))
  next
    case (Inr ns)
    show ?thesis
    proof (cases "gm_lookup (mAnnotations ns) CompletionTime")
      case (Some v)
      with 1 Inr show ?thesis by (auto simp: completion_lost_def quiet_annotates(1))
    next
      case None
      have "wp (UpdateAnnotations E (mName ns) [CompletionTime \<mapsto> time_String E t]) (\<lambda>u. wp (case u of
            Some err \<Rightarrow> State_Monad.return
              (requeue, Some (Errorf ''could not retrieve namespace after updating annotations'' (Some err)))
          | None \<Rightarrow> do {
              x \<leftarrow> updateNs E ns;
              case x of
                Inl err \<Rightarrow> State_Monad.return (requeue, Some err)
              | Inr ns' \<Rightarrow> do {
                  emit_metric (With averageNamespaceCreationMetrics
                    [(''pool'', gm_index (mLabels ns') ''pool'')]
                    (Observe (Seconds (time_Sub t (mCreationTimestamp ns')))));
                  State_Monad.return (no_requeue, None)
                }
            }) ?Q) w2" if "log w2 = log w1 @ [NowEv t]" for t w2
      proof (rule wp_UpdateAnnotations [OF lib], goal_cases)
        case (1 u tr w3)
        note last = completion_lost_write [OF lib _ None \<open>failed_gets n tr0\<close>, of _ tr w3 w t]
        from 1 that \<open>log w1 = _\<close> Inr last show ?case
          by (cases u) (auto simp: completion_lost_def quiet_annotates(1) [OF \<open>failed_gets n tr0\<close>]
            quiet_annotates(2))
      qed
      with None show ?thesis
        unfolding Inr by (auto simp: CustomAnnotation_ToMap_def Let_def intro!: wp_k_call)
    qed
  qed
qed

abbreviation unobserved :: "event \<Rightarrow> bool" where
  "unobserved e \<equiv> \<not> observes_creation e"

lemma unobserved_UpdateAnnotations: "lib_ok E \<Longrightarrow> emits unobserved (UpdateAnnotations E n a)"
  unfolding UpdateAnnotations_def GetNamespace_def Let_def by (intro emits_intros) simp_all

lemma unobserved_CreateFrontendEnv: "lib_ok E \<Longrightarrow> emits unobserved (CreateFrontendEnv E n ce)"
proof -
  assume lib: "lib_ok E"
  have shims: "emits unobserved (shim_services_loop E ns ce sns)" for ns sns
    by (induction sns) (auto intro!: emits_intros)
  show ?thesis
    unfolding CreateFrontendEnv_def createShimServices_def GetNamespace_def Let_def
    by (intro emits_intros lib shims; simp)
qed

text \<open>\<open>uncreated m\<close>: from any world, the metric is not observed if the calls of \<open>m\<close> are optimistic.\<close>

definition uncreated :: "('s world, 'a) state \<Rightarrow> bool" where
  "uncreated m \<longleftrightarrow> (\<forall>w. \<exists>tr. log (snd (run_state m w)) = log w @ tr \<and>
     (optimistic CompletionTime tr \<longrightarrow> \<not> list_ex observes_creation tr))"

lemma uncreated_emits: "emits unobserved m \<Longrightarrow> uncreated m"
  unfolding uncreated_def emits_iff list_ex_iff by meson

lemma uncreated_bind:
  assumes "emits unobserved m" and "\<And>x. uncreated (f x)"
  shows "uncreated (State_Monad.bind m f)"
  unfolding uncreated_def
proof
  fix w :: "'a world"
  obtain x w1 where m: "run_state m w = (x, w1)" by fastforce
  obtain tr0 where tr0: "log w1 = log w @ tr0" "\<forall>e \<in> set tr0. unobserved e"
    by (rule emits_log [OF assms(1) m])
  moreover obtain tr where "log (snd (run_state (f x) w1)) = log w1 @ tr"
      "optimistic CompletionTime tr \<longrightarrow> \<not> list_ex observes_creation tr"
    using assms(2) [of x] unfolding uncreated_def by meson
  ultimately show "\<exists>tr. log (snd (run_state (State_Monad.bind m f) w)) = log w @ tr \<and>
      (optimistic CompletionTime tr \<longrightarrow> \<not> list_ex observes_creation tr)"
    using m by (intro exI [of _ "tr0 @ tr"]) (auto simp: list_ex_iff dest: optimistic_append)
qed

lemma uncreated_cases:
  "(b \<Longrightarrow> uncreated m) \<Longrightarrow> (\<not> b \<Longrightarrow> uncreated m') \<Longrightarrow> uncreated (if b then m else m')"
  "(\<And>e. x = Inl e \<Longrightarrow> uncreated (f e)) \<Longrightarrow> (\<And>y. x = Inr y \<Longrightarrow> uncreated (g y)) \<Longrightarrow>
    uncreated (case x of Inl e \<Rightarrow> f e | Inr y \<Rightarrow> g y)"
  "(u = None \<Longrightarrow> uncreated m) \<Longrightarrow> (\<And>z. u = Some z \<Longrightarrow> uncreated (h z)) \<Longrightarrow>
    uncreated (case u of None \<Rightarrow> m | Some z \<Rightarrow> h z)"
  by (cases x; cases u; simp)+

lemma uncreated_record_completion: "lib_ok E \<Longrightarrow> uncreated (record_completion E n)"
  unfolding uncreated_def using wp_record_completion
  by (fastforce simp: wp_def completion_lost_def)

lemma uncreated_Clowdenv_Reconcile: "lib_ok E \<Longrightarrow> uncreated (Clowdenv_Reconcile E req)"
  unfolding Clowdenv_Reconcile_def Let_def
  by (intro uncreated_bind uncreated_cases uncreated_record_completion unobserved_CreateFrontendEnv
      emits_case_option unobserved_UpdateAnnotations; (assumption | rule uncreated_emits)?)
    (auto intro!: emits_intros)

text \<open>
  C21. The time it took to create a namespace is never observed: on a cluster with optimistic
  concurrency no run of the reconciler updates this metric. The write of the completion time
  makes the object stale that the handler writes next, so that write is refused.
\<close>

theorem creation_time_never_observed:
  assumes "lib_ok E" and "run_state (Clowdenv_Reconcile E req) w = (r, w')"
    and "log w' = log w @ tr" and "optimistic CompletionTime tr"
  shows "MetricEv (With averageNamespaceCreationMetrics kvs op) \<notin> set tr"
proof -
  from uncreated_Clowdenv_Reconcile [OF assms(1)] assms(2-4) have "\<not> list_ex observes_creation tr"
    unfolding uncreated_def by (metis same_append_eq snd_conv)
  then show ?thesis by (auto simp: list_ex_iff)
qed

text \<open>
  A run that gets to the end of the handler reports success only when the completion time had
  been recorded before: the run that records it ends with an error, on every cluster with
  optimistic concurrency.
\<close>

theorem completion_write_refused:
  assumes "lib_ok E" and "run_state (record_completion E n) w = ((r, None), w')"
    and "log w' = log w @ tr" and "optimistic CompletionTime tr"
  shows "\<exists>ns. NsEv (Get (cluster_key n) (Inr ns)) \<in> set tr \<and>
    gm_lookup (mAnnotations ns) CompletionTime \<noteq> None"
  using wpD [OF wp_record_completion [OF assms(1)] assms(2)] assms(3,4)
  by (auto simp: completion_lost_def)

section \<open>Runs\<close>

lemma frontend_down_lib_ok: "lib_ok frontend_down"
  using sample_lib_ok by (simp add: lib_ok_def frontend_down_def)

theorem frontend_failure_lost_witness:
  "\<exists>h1 h2. log (snd (run_state (Clowdenv_Reconcile frontend_down (cluster_key ''env-n''))
       (sample_world env_sample))) = h1 @ h2 \<and>
     marked frontend_down EnvStatusError ''n'' h1 \<and> marked frontend_down EnvStatusReady ''n'' h2"
proof -
  let ?w = "sample_world env_sample" and ?m = "Clowdenv_Reconcile frontend_down (cluster_key ''env-n'')"
  have "snd (fst (run_state ?m ?w)) = None"
    by code_simp
  then obtain r w' where run: "run_state ?m ?w = ((r, None), w')"
    by (metis prod.collapse)
  obtain w1 where get: "run_state (getEnv frontend_down (cluster_key ''env-n'')) ?w =
      (Inr sample_clowdenv, w1)"
    by (simp add: frontend_down_def sample_run env_sample_def ready_sample_def cluster_key_def)
  have w1: "w1 = snd (run_state (getEnv frontend_down (cluster_key ''env-n'')) ?w)"
    by (simp only: get snd_conv)
  have n: "TargetNamespace (ceSpec sample_clowdenv) = ''n''"
    by code_simp
  have "\<exists>err. fst (run_state (CreateFrontendEnv frontend_down ''n'' sample_clowdenv) w1) = Some err"
    unfolding w1 not_None_eq [symmetric] by code_simp
  then obtain err where
    "fst (run_state (CreateFrontendEnv frontend_down ''n'' sample_clowdenv) w1) = Some err" ..
  moreover have "VerifyClowdEnvReady sample_clowdenv"
    by code_simp
  ultimately show ?thesis
    using frontend_failure_lost [OF frontend_down_lib_ok run get, of err]
    unfolding run snd_conv n by simp
qed

definition creation_sample :: sample where
  "creation_sample = env_sample\<lparr>sm_ns := [(''n'', ready_ns)]\<rparr>"

theorem creation_time_never_observed_witness:
  "MetricEv (With averageNamespaceCreationMetrics [(''pool'', ''p'')] (Observe (Seconds 0))) \<notin> set (log (snd (run_state
     (Clowdenv_Reconcile sample_env (cluster_key ''env-n'')) (sample_world creation_sample))))"
proof -
  let ?w' = "snd (run_state (Clowdenv_Reconcile sample_env (cluster_key ''env-n''))
    (sample_world creation_sample))"
  have "optimistic CompletionTime (log ?w')"
    by code_simp
  moreover have "log ?w' = log (sample_world creation_sample) @ log ?w'"
    by (simp add: sample_world_def)
  ultimately show ?thesis
    by (intro creation_time_never_observed [OF sample_lib_ok surjective_pairing])
qed

theorem completion_write_refused_witness:
  "\<exists>ns. NsEv (Get (cluster_key ''n'') (Inr ns)) \<in> set (log (snd (run_state
       (record_completion sample_env ''n'') (sample_world env_sample)))) \<and>
     gm_lookup (mAnnotations ns) CompletionTime \<noteq> None"
proof -
  let ?m = "record_completion sample_env ''n''"
  have "snd (fst (run_state ?m (sample_world env_sample))) = None"
    and opt: "optimistic CompletionTime (log (snd (run_state ?m (sample_world env_sample))))"
    by code_simp+
  then obtain r w' where run: "run_state ?m (sample_world env_sample) = ((r, None), w')"
    by (metis prod.collapse)
  have "log w' = log (sample_world env_sample) @ log w'"
    by (simp add: sample_world_def)
  from completion_write_refused [OF sample_lib_ok run this] opt show ?thesis
    unfolding run snd_conv by blast
qed

end
