(* ===== verification/Pool_Completeness.thy ===== *)
theory Pool_Completeness
  imports Pool_Controller
begin

text \<open>
  What a reconciliation of a pool that reports no error has done: every broken namespace it
  listed is deleted, every namespace that was missing has been asked for and set up or taken away
  again, and the counted status is stored.
\<close>

section \<open>Deleting the broken namespaces\<close>





section \<open>Creating the missing ones\<close>






section \<open>The whole reconciliation\<close>







section \<open>Properties\<close>








end
