(* ===== verification/New_Reservation.thy ===== *)
theory New_Reservation
  imports Reservation_Outcomes
begin

text \<open>
  \<^verbatim>\<open>NewReservation\<close> and \<^verbatim>\<open>NewReservationWithSecretSrc\<close> of \<^verbatim>\<open>helpers/reservation.go\<close>, which build the
  reservations of the tests, and what the reconciler makes of such a reservation.
  \<^verbatim>\<open>utils.StringPtr\<close> of the library \<^verbatim>\<open>rhc-osdk-utils\<close> is the parameter \<open>StringPtr\<close>.
\<close>

definition NewReservationWithSecretSrc ::
  "(string \<Rightarrow> string option) \<Rightarrow> string \<Rightarrow> string \<Rightarrow> string \<Rightarrow> string \<Rightarrow> string \<Rightarrow> string \<Rightarrow> reservation" where
  "NewReservationWithSecretSrc StringPtr resName duration requester team pool secretSourceNamespace =
     k8sobj.extend (zero_meta\<lparr>tAPIVersion := ''cloud.redhat.com/'', tKind := ''NamespaceReservation'',
         mName := resName\<rparr>)
       \<lparr>resSpec = \<lparr>rsDuration = StringPtr duration, rsRequester = requester, rsTeam = team,
          rsPool = pool, rsSecretSourceNamespace = secretSourceNamespace\<rparr>,
        resStatus = \<lparr>rsExpiration = 0, rsState = '''', rsNamespace = '''', rsStatusPool = ''''\<rparr>\<rparr>"

definition NewReservation ::
  "(string \<Rightarrow> string option) \<Rightarrow> string \<Rightarrow> string \<Rightarrow> string \<Rightarrow> string \<Rightarrow> string \<Rightarrow> reservation" where
  "NewReservation StringPtr resName duration requester team pool =
     NewReservationWithSecretSrc StringPtr resName duration requester team pool ''''"

lemmas new_reservation_defs = NewReservation_def NewReservationWithSecretSrc_def k8sobj.defs
  reservation.defs zero_meta_def

lemma new_reservation_fields [simp]:
  "rsDuration (resSpec (NewReservation StringPtr n d rq tm p)) = StringPtr d"
  "rsPool (resSpec (NewReservation StringPtr n d rq tm p)) = p"
  "state_of (NewReservation StringPtr n d rq tm p) = ''''"
  "rsStatusPool (resStatus (NewReservation StringPtr n d rq tm p)) = ''''"
  by (simp_all add: new_reservation_defs)

text \<open>
  The cluster's copy of a new reservation: the server may set the metadata, such as the
  creation time; specification and status are those of the request.
\<close>

definition stored_as :: "reservation \<Rightarrow> reservation \<Rightarrow> bool" where
  "stored_as x y \<longleftrightarrow> resSpec y = resSpec x \<and> resStatus y = resStatus x \<and> deletion_is_zero y"

text \<open>The pool a request without a pool gets.\<close>

definition pool_or_default :: "string \<Rightarrow> string" where
  "pool_or_default p = (if p = '''' then ''default'' else p)"

lemma stored_default_pool:
  assumes "stored_as (NewReservation StringPtr n d rq tm p) y"
  shows "rsStatusPool (resStatus (default_pool y)) = pool_or_default p"
    "rsDuration (resSpec (default_pool y)) = StringPtr d" "state_of (default_pool y) = ''''"
    "mCreationTimestamp (default_pool y) = mCreationTimestamp y" "deletion_is_zero y"
  using assms by (auto simp: stored_as_def default_pool_def pool_or_default_def)

text \<open>The status a reservation gets that finds no namespace at its first reconciliation.\<close>

definition queued :: "reservation \<Rightarrow> duration \<Rightarrow> reservation" where
  "queued y d = (default_pool y)\<lparr>resStatus := (resStatus (default_pool y))
     \<lparr>rsState := ''waiting'', rsExpiration := mCreationTimestamp y + d\<rparr>\<rparr>"

lemma no_offers_loop:
  assumes "\<forall>ns \<in> set items. \<not> offers p ns"
  shows "ready_namespace_loop p items [] = []"
  using assms by (simp add: ready_namespace_loop_concat)

text \<open>
  A new reservation is served by the pool it names, or by \<^verbatim>\<open>default\<close>: when that pool has no
  ready namespace, its first reconciliation makes three calls, the read, the listing of that
  pool's namespaces and the status write, which makes it wait until its creation time plus its
  duration (one hour if that is empty), and asks to be called again if the write is accepted.
\<close>

theorem new_reservation_waits:
  assumes "stored_as (NewReservation StringPtr n dur rq tm p) y" and "StringPtr dur = Some dur"
    and "parseDurationTime dur = Inr d" and "d \<noteq> 0"
    and "k_get (res_api E) req (srv w) = (Inr y, s1)"
    and "k_list (ns_api E) (ready_selector E (pool_or_default p)) s1 = (Inr items, s2)"
    and "\<forall>ns \<in> set items. \<not> offers (pool_or_default p) ns"
    and "k_status_update (res_api E) (queued y d) s2 = (Inr y', s3)"
  shows "run_state (Reservation_Reconcile E req) w = (Returned (requeue, None),
    w\<lparr>srv := s3, log := log w @ [ResEv (Get req (Inr y)),
      NsEv (ListAll (ready_selector E (pool_or_default p)) (Inr items)),
      ResEv (StatusUpdate (queued y d) (Inr y'))]\<rparr>)"
  using assms stored_default_pool [OF assms(1)] no_offers_loop [OF assms(7)]
  by (simp add: Reservation_Reconcile_def reconcile_default_def getExpirationTime_def Let_def
      GetReadyNamespaces_def queued_def ready_selector_def CustomLabel_ToMap_def)


text \<open>On the sample cluster, without any namespace, for a request that names no pool.\<close>

definition requested :: reservation where
  "requested = (NewReservation Some ''r'' '''' ''me'' '''' '''')\<lparr>mCreationTimestamp := 7\<rparr>"

definition requested_sample :: sample where
  "requested_sample = empty_sample\<lparr>sm_res := [(''r'', requested)]\<rparr>"

theorem new_reservation_waits_witness:
  "fst (run_state (Reservation_Reconcile sample_env ('''', ''r'')) (sample_world requested_sample)) =
     Returned (requeue, None)"
proof -
  have stored: "stored_as (NewReservation Some ''r'' '''' ''me'' '''' '''') requested"
    by (simp add: stored_as_def requested_def new_reservation_defs deletion_is_zero_def)
  have d: "parseDurationTime '''' = Inr Hour" "Hour \<noteq> 0" by code_simp+
  have got: "k_get (res_api sample_env) ('''', ''r'') (srv (sample_world requested_sample)) =
      (Inr requested, requested_sample)"
    by (simp add: sample_run sample_world_def requested_sample_def)
  have listed: "k_list (ns_api sample_env) (ready_selector sample_env (pool_or_default ''''))
      requested_sample = (Inr [], requested_sample)"
    by (simp add: sample_run requested_sample_def)
  have accepted: "fst (k_status_update (res_api sample_env) (queued requested Hour) requested_sample) =
      Inr ((queued requested Hour)\<lparr>mResourceVersion := next_version requested_sample\<rparr>)"
    by (simp add: sample_run requested_sample_def queued_def default_pool_def requested_def
        new_reservation_defs)
  then obtain y' s3 where put: "k_status_update (res_api sample_env) (queued requested Hour) requested_sample =
      (Inr y', s3)"
    by (cases "k_status_update (res_api sample_env) (queued requested Hour) requested_sample")
      auto
  from new_reservation_waits [OF stored _ d got listed _ put]
  show ?thesis by simp
qed

end
