(* ===== verification/Spec2Isabelle.thy ===== *)
theory Spec2Isabelle
  imports Ownership_Faults Metric_Calls Api_Group Clowdenv_Errors Pool_Completeness New_Reservation
begin

text \<open>
  The ephemeral namespace operator, in Isabelle/HOL.

  \<^bold>\<open>The program.\<close> The operator keeps pools of prepared Kubernetes namespaces and lends them out.
  A NamespacePool says how many namespaces to hold ready; a NamespaceReservation asks for one
  of them for some time. Four activities run side by side, all against the API server:
  \<^item> the pool reconciler (\<^verbatim>\<open>namespacepool_controller.go\<close>) counts the namespaces of a pool, deletes
    broken ones, creates missing ones and marks superfluous ones;
  \<^item> the ClowdEnvironment reconciler (\<^verbatim>\<open>clowdenvironment_controller.go\<close>) marks a namespace as ready
    once its ClowdEnvironment is;
  \<^item> the reservation reconciler (\<^verbatim>\<open>namespacereservation_controller.go\<close>) hands a ready namespace to a
    reservation, keeps its expiration, and drains Cluster API resources before a deleted
    reservation is let go;
  \<^item> the poller (\<^verbatim>\<open>poller.go\<close>) deletes the reservations that have expired; it shares with the
    reservation reconciler the map \<^verbatim>\<open>activeReservations\<close>.
  \<^verbatim>\<open>main.go\<close> and \<^verbatim>\<open>run.go\<close> register types and metrics, build a manager with the three reconcilers
  and start the poller and the manager. The API server's objects are copied by the functions
  of \<^verbatim>\<open>zz_generated.deepcopy.go\<close>.
  What they have in common is in \<^verbatim>\<open>helpers/\<close>. But for \<^verbatim>\<open>src/main.go\<close> all
  paths are below \<^verbatim>\<open>src/controllers/cloud.redhat.com\<close>; the types of the custom resources are in
  \<^verbatim>\<open>src/apis/cloud.redhat.com/v1alpha1\<close>.

  \<^bold>\<open>How the code is modelled.\<close> A Go function that talks to the cluster is a computation of the
  state monad (HOL-Library.State_Monad) over the record \<open>world\<close>: the state \<open>srv\<close> of
  everything outside the operator, the shared map \<open>active\<close>, and the ghost history \<open>log\<close>, to
  which every call is added with its answer and which no definition of the model reads. The
  client, the clock, random strings, the order in which a Go map is ranged over and the library
  functions the code calls are the fields of the parameter \<open>env\<close>, functions on the opaque type
  of \<open>srv\<close>: a call may answer anything and other actors may change the cluster at any call. The
  only thing ever assumed of these functions is \<open>lib_ok\<close>, named in each theorem that uses it: a
  retry helper repeats its function only after an error and returns the last result, merging
  annotations or labels overrides exactly the given keys, the finalizer helpers test, add and
  remove set members, and ranging over a map visits each key once. Errors are values (\<open>gerr\<close>
  in a sum or an option), a panic is the value \<open>Panicked\<close>, a pointer that may be nil is an
  option, a map that may be nil is \<open>gomap\<close>, Go's \<^verbatim>\<open>int\<close> wraps around at 64 bits (\<open>wrap64\<close>),
  instants are unbounded numbers of nanoseconds and durations saturate or are refused as Go
  does it. Objects are records that extend \<open>k8sobj\<close>, the metadata, by the fields the code uses;
  the rest of an object is carried in one opaque field. Log lines, and the random string that
  only labels them, are left out. Two parts need another state: the start of the process runs
  over \<open>process\<close>, the calls made on the controller runtime with their answers, and the deep
  copies run over \<open>heap\<close>, in which pointers, slices and the cells they refer to are explicit.
  What is assumed of the copy functions of foreign types there is \<open>foreign_ok\<close>.

  \<^bold>\<open>Theories.\<close>
  \<^item> \<open>Eno_Prelude\<close>: nil maps, 64-bit integers, weakest preconditions, list lemmas, and the rule
    collections \<open>wp_intros\<close>, \<open>emits_intros\<close>, \<open>follows_intros\<close>.
  \<^item> \<open>Api_Types\<close>, \<open>Cluster_Api\<close>: the objects and owner references; calls, history, \<open>world\<close>,
    \<open>env\<close>, \<open>lib_ok\<close>; the two ways to speak of the calls of a computation, \<open>emits\<close> (each call
    satisfies a condition) and \<open>follows\<close> (each call is allowed by the history before it).
  \<^item> \<open>Sample_Cluster\<close>: an in-memory cluster that satisfies \<open>lib_ok\<close>; all witnesses run on it.
  \<^item> \<open>Helper_Types\<close> (\<^verbatim>\<open>constants.go\<close>, \<^verbatim>\<open>types.go\<close>), \<open>Namespace_Access\<close>, \<open>Secret_Copy\<close> and
    \<open>Namespace_Setup\<close> (\<^verbatim>\<open>namespaces.go\<close>, \<^verbatim>\<open>reservation.go\<close>), \<open>Clowdenvs\<close> (\<^verbatim>\<open>clowdenvs.go\<close>,
    \<^verbatim>\<open>frontends.go\<close>), \<open>Capi\<close> (\<^verbatim>\<open>capi.go\<close>), \<open>Pool_Size\<close> (\<^verbatim>\<open>pool.go\<close>): the helpers.
  \<^item> \<open>Go_Time\<close>: subtraction of instants and \<^verbatim>\<open>time.ParseDuration\<close>, with its rounding.
  \<^item> \<open>Pool_Controller\<close>, \<open>Clowdenv_Controller\<close>, \<open>Poller\<close>, \<open>Reservation_Controller\<close>: the four
    activities, one definition per Go function and per loop.
  \<^item> \<open>Reservation_Calls\<close>, \<open>Reservation_Handover\<close>, \<open>Reservation_Cleanup\<close>,
    \<open>Reservation_Lifecycle\<close>, \<open>Reservation_Outcomes\<close>, \<open>Reservation_Deletes\<close>,
    \<open>Reservation_Duration\<close>, \<open>Table_Access\<close>, \<open>Table_Freshness\<close>: what is proved of the reservation
    reconciler, and of the entries it puts into the shared map.
  \<^item> \<open>Pool_Completeness\<close>: what a pool reconciliation that reports no error has done.
  \<^item> \<open>Clowdenv_Errors\<close>: what becomes of errors and of the completion time in the ClowdEnvironment
    reconciler, on clusters with optimistic concurrency.
  \<^item> \<open>Operator\<close>: the four activities as steps on one world, and the invariants of every run;
    \<open>Interleaving\<close> refines the poller to its single steps, between which reconciliations and
    other actors come, and embeds the runs of \<open>Operator\<close>.
  \<^item> \<open>Ownership\<close>: the workers side by side, their calls interleaved in any way, and the writes by
    which each may change the owner of a namespace; \<open>Refused_Activation\<close>: a handover that cannot be
    recorded, and the reconciliation after it; \<open>Ownership_Faults\<close>: a random name that comes up
    again, and the concrete runs of the three.
  \<^item> \<open>Collectors\<close> (\<^verbatim>\<open>metrics.go\<close>): the collectors, their labels, and the operations on them, which
    the models of the controllers use at the places the code does; \<open>Metrics\<close>: what the gauges say;
    \<open>Metric_Calls\<close>: the updates in the runs of all components.
  \<^item> \<open>Startup\<close>: \<^verbatim>\<open>main.go\<close>, \<^verbatim>\<open>run.go\<close>, the \<^verbatim>\<open>init\<close> and \<^verbatim>\<open>SetupWithManager\<close> functions.
  \<^item> \<open>Go_Heap\<close>, \<open>Go_Structs\<close>, \<open>Deep_Copy\<close> (\<^verbatim>\<open>zz_generated.deepcopy.go\<close>): memory, the custom
    resources as Go lays them out, and the generated copies; \<open>Api_Group\<close>
    (\<^verbatim>\<open>groupversion_info.go\<close>): the types registered, which are those that can be copied.
  \<^item> \<open>New_Reservation\<close> (end of \<^verbatim>\<open>reservation.go\<close>): the constructors of test reservations.

  \<^bold>\<open>Interfaces.\<close> Each locale states what a client needs: the \<open>_policy\<close> locales fix a condition on
  calls and assume of it what a group of helpers requires (reads are allowed, then annotation
  writes, deletes, secrets, setup, draining, handover, cleanup, the pool reconciler), so that
  the calls of the whole group are bounded by one interpretation; \<open>expiry_table\<close> is the contract
  of the shared map, \<open>size_policy\<close> that of the pool's arithmetic, \<open>keyed_find\<close> that of the
  searches by name; \<open>cell_kind\<close> and \<open>array_kind\<close> say
  how values of one type are stored in cells, and prove once that copying through a pointer or
  a slice is deep. All are interpreted on the definitions of the model.

  \<^bold>\<open>What is shown.\<close>
  \<^item> Reservations: a reservation becomes active only after a complete and successful handover
    of a ready namespace of its pool; its state only moves along the lifecycle; the finalizer
    goes only when no Cluster is left; a reconciliation of a pending reservation that reports no
    error requeues it, has activated it, or has sent a delete of it, of which the answer is
    ignored; the role bindings, refreshes and error branches are exact.
  \<^item> The operator: in every run, of any length and order, also with the poller interrupted
    between any two of its steps, the shared table is a map whose entries have a reason, and a
    reservation is sent a delete only when the latest expiration written for its name had passed
    when the clock was read, or when it has a duration that cannot be parsed. An extension that
    comes between that reading and the delete is lost, as is shown too.
  \<^item> Ownership: however the calls of the workers alternate, each write of a namespace keeps the
    owners it was read with, lends what a listing of the same run showed as owned by a pool, or
    adopts a namespace whose random name was drawn; so, on a cluster with optimistic concurrency,
    a lent namespace keeps its owner unless it is created anew, its name is drawn again, or a
    listing after the lending was stale. That the owner is overwritten when the name is drawn
    again, and that a namespace is abandoned whose handover could not be recorded, is shown too.
  \<^item> Poller: a cycle refines the removal of the expired entries; when a read fails the entry
    is lost.
  \<^item> Pools: the status counts the listing, the delta is the largest that respects size and
    limit, a resize stays within it, a reconciliation without an error has filled the gap and
    deleted what was broken, only broken namespaces are deleted, a handover moves one namespace
    from ready to reserved.
  \<^item> Environments, setup, secrets, Cluster API: writes happen only when the environment was
    read as ready; a setup without an error went through all its steps; copies are made only
    of eligible secrets and all of them are accounted for; machine pools are released only
    past the threshold and when their Cluster waits or is gone; a failed frontend environment is
    forgotten in the same run, and the metric of the creation time is never observed.
  \<^item> Process: poller and manager start only after a complete set-up; every update of a metric in
    any run fits its collector; a deep copy stands for the same object and shares no memory with it.

  \<^bold>\<open>Bounds.\<close> Every computation of the model returns. The endless loop of the poller is
  \<open>poll_cycles\<close>, cut after any number \<open>n\<close> of cycles; the theorems hold for all \<open>n\<close>. The number
  of retries is left open by \<open>lib_ok\<close>. The loops of \<^verbatim>\<open>ParseDuration\<close> and of the rounding are
  total functions with proofs of termination. In \<open>Operator\<close> a step is a whole reconciliation or
  cycle as far as the shared table is concerned; in \<open>Interleaving\<close> the poller gives way between
  any two of its steps, a reconciliation is still one step of the table. The cluster may change
  at every call in both. In \<open>Ownership\<close> the calls of all workers alternate freely (\<open>side_by_side\<close>),
  each worker making the calls of runs of its code one after the other, as the controller runtime
  does with one worker per controller, the default. Reads and listings may show anything there; \<open>optimistic_owners\<close>,
  which only the theorem on lent namespaces assumes, says that an object read by name has that
  name, that a write is accepted only at the stored version, and that nobody but the operator
  changes owners. A deep copy is a partial function (None when a pointer dangles), shown
  to return on every object that stands for a value.

  \<^bold>\<open>Not modelled.\<close> The libraries: how the controller runtime dispatches requests and retries,
  what registration with a scheme or the metrics registry does, how the client caches. Logging and the logger's flags. Data races inside a single access
  to the shared map, which Go leaves undefined.
\<close>

end
